(* ===== verification/Prelude.thy ===== *)
theory Prelude
  imports Main "HOL-Library.Word" "HOL-Library.Monad_Syntax"
begin

text \<open>
  Shared vocabulary of the development: bytes and machine words, Rust's checked indexing and
  slicing, big-endian and native-endian encodings of fixed-width integers (with the interface
  \<open>fixed_codec\<close> the wire formats rely on), input/output outcomes under a deadline, and the byte
  streams a connection delivers.
\<close>

unbundle bit_operations_syntax

named_theorems wire_simps \<open>unfolding wire-level encoders down to bytes\<close>
named_theorems io_simps \<open>outcomes of input/output operations\<close>

type_synonym byte = "8 word"
type_synonym bytes = "byte list"
type_synonym u16 = "16 word"
type_synonym u32 = "32 word"
type_synonym u64 = "64 word"
type_synonym i32 = "32 word"
type_synonym i64 = "64 word"
type_synonym usize = nat

section \<open>Checked indexing and slicing\<close>

text \<open>Rust's \<open>xs.get(i)\<close> and \<open>xs.get(a..b)\<close>: \<open>None\<close> outside the slice.\<close>

definition get :: "'a list \<Rightarrow> usize \<Rightarrow> 'a option" where
  "get xs i = (if i < length xs then Some (xs ! i) else None)"

definition slice :: "'a list \<Rightarrow> usize \<Rightarrow> usize \<Rightarrow> 'a list option" where
  "slice xs a b = (if a \<le> b \<and> b \<le> length xs then Some (take (b - a) (drop a xs)) else None)"

lemma get_Some_iff: "get xs i = Some x \<longleftrightarrow> i < length xs \<and> xs ! i = x"
  by (auto simp: get_def)

lemma get_None_iff: "get xs i = None \<longleftrightarrow> length xs \<le> i"
  by (auto simp: get_def)

lemma get_append_left [simp]: "i < length xs \<Longrightarrow> get (xs @ ys) i = get xs i"
  by (simp add: get_def nth_append)

lemma get_append_right: "length xs \<le> i \<Longrightarrow> get (xs @ ys) i = get ys (i - length xs)"
  by (auto simp: get_def nth_append)

lemma slice_Some_iff:
  "slice xs a b = Some ys \<longleftrightarrow> a \<le> b \<and> b \<le> length xs \<and> ys = take (b - a) (drop a xs)"
  by (auto simp: slice_def)

lemma slice_None_iff: "a \<le> b \<Longrightarrow> slice xs a b = None \<longleftrightarrow> length xs < b"
  by (auto simp: slice_def)

lemma length_slice: "slice xs a b = Some ys \<Longrightarrow> length ys = b - a"
  by (auto simp: slice_def split: if_splits)

lemma slice_middle: "slice (pre @ mid @ post) (length pre) (length pre + length mid) = Some mid"
  by (simp add: slice_def)

lemma slice_append_prefix:
  "slice xs a b = Some ys \<Longrightarrow> slice (xs @ zs) a b = Some ys"
  by (auto simp: slice_def split: if_splits)

section \<open>Integers as bytes\<close>

primrec le_bytes :: "nat \<Rightarrow> 'a::len word \<Rightarrow> bytes" where
  "le_bytes 0 w = []"
| "le_bytes (Suc n) w = ucast w # le_bytes n (drop_bit 8 w)"

primrec le_word :: "bytes \<Rightarrow> 'a::len word" where
  "le_word [] = 0"
| "le_word (b # bs) = ucast b OR push_bit 8 (le_word bs)"

definition to_be_bytes :: "nat \<Rightarrow> 'a::len word \<Rightarrow> bytes" where
  "to_be_bytes n w = rev (le_bytes n w)"

definition from_be_bytes :: "bytes \<Rightarrow> 'a::len word" where
  "from_be_bytes bs = le_word (rev bs)"

text \<open>The byte order of the machine the daemon runs on.\<close>

datatype endianness = Little | Big

definition to_ne_bytes :: "endianness \<Rightarrow> nat \<Rightarrow> 'a::len word \<Rightarrow> bytes" where
  "to_ne_bytes en n w = (case en of Little \<Rightarrow> le_bytes n w | Big \<Rightarrow> rev (le_bytes n w))"

definition from_ne_bytes :: "endianness \<Rightarrow> bytes \<Rightarrow> 'a::len word" where
  "from_ne_bytes en bs = (case en of Little \<Rightarrow> le_word bs | Big \<Rightarrow> le_word (rev bs))"

lemma le_bytes_numeral [simp]:
  "le_bytes (numeral k) w = ucast w # le_bytes (pred_numeral k) (drop_bit 8 w)"
  by (simp add: numeral_eq_Suc)

lemma length_le_bytes [simp]: "length (le_bytes n w) = n"
  by (induction n arbitrary: w) auto

lemma length_to_be_bytes [simp]: "length (to_be_bytes n w) = n"
  by (simp add: to_be_bytes_def)

lemma length_to_ne_bytes [simp]: "length (to_ne_bytes en n w) = n"
  by (simp add: to_ne_bytes_def split: endianness.split)

lemma bit_le_word:
  "bit (le_word bs :: 'a::len word) k \<longleftrightarrow>
     k < LENGTH('a) \<and> k div 8 < length bs \<and> bit (bs ! (k div 8)) (k mod 8)"
proof (induction bs arbitrary: k)
  case Nil
  show ?case by simp
next
  case (Cons b bs)
  show ?case
  proof (cases "k < 8")
    case True
    then show ?thesis by (auto simp: bit_or_iff bit_push_bit_iff bit_ucast_iff)
  next
    case False
    then obtain j where k: "k = j + 8" by (metis add.commute le_Suc_ex not_less)
    have "\<not> bit b (j + 8)" using bit_imp_le_length [of b "j + 8"] by auto
    then show ?thesis using Cons.IH [of j]
      by (auto simp: k bit_or_iff bit_push_bit_iff bit_ucast_iff div_add_self2)
  qed
qed

lemma nth_le_bytes: "i < n \<Longrightarrow> le_bytes n w ! i = ucast (drop_bit (8 * i) w)"
  by (induction n arbitrary: w i) (auto simp: nth_Cons add.commute split: nat.splits)

lemma le_word_le_bytes: "le_word (le_bytes n w) = take_bit (8 * n) (w :: 'a::len word)"
proof (rule bit_word_eqI)
  fix k assume "k < LENGTH('a)"
  moreover have "k div 8 < n \<longleftrightarrow> k < 8 * n" by auto
  moreover have "k = 8 * (k div 8) + k mod 8" by simp
  ultimately show "bit (le_word (le_bytes n w) :: 'a word) k \<longleftrightarrow> bit (take_bit (8 * n) w) k"
    by (auto simp: bit_le_word nth_le_bytes bit_take_bit_iff bit_ucast_iff bit_drop_bit_eq)
qed

lemma le_bytes_le_word:
  assumes "8 * length bs \<le> LENGTH('a)"
  shows "le_bytes (length bs) (le_word bs :: 'a::len word) = bs"
proof (rule nth_equalityI)
  fix i assume "i < length (le_bytes (length bs) (le_word bs :: 'a word))"
  then have i: "i < length bs" by simp
  show "le_bytes (length bs) (le_word bs :: 'a word) ! i = bs ! i"
  proof (rule bit_word_eqI)
    fix k assume "k < LENGTH(8)"
    then have k: "k < 8" by simp
    have "(8 * i + k) div 8 = i" "(8 * i + k) mod 8 = k" using k by auto
    moreover have "8 * i + k < LENGTH('a)" using assms i k by linarith
    ultimately show "bit (le_bytes (length bs) (le_word bs :: 'a word) ! i) k = bit (bs ! i) k"
      using i k by (auto simp: nth_le_bytes bit_ucast_iff bit_drop_bit_eq bit_le_word)
  qed
qed simp

lemma take_bit_full_word: "LENGTH('a) \<le> n \<Longrightarrow> take_bit n (w :: 'a::len word) = w"
  by (rule bit_word_eqI) (auto simp: bit_take_bit_iff)

subsection \<open>The interface of a fixed-width field\<close>

text \<open>
  What the parsers and printers of the wire formats rely on: a field of a message occupies
  \<open>width\<close> bytes, is read back as it was written, and is written back as it was read.
\<close>

locale fixed_codec =
  fixes width :: nat
    and enc :: "'a \<Rightarrow> bytes"
    and dec :: "bytes \<Rightarrow> 'a"
  assumes enc_length: "length (enc x) = width"
    and dec_enc: "dec (enc x) = x"
    and enc_dec: "length bs = width \<Longrightarrow> enc (dec bs) = bs"
begin

lemma enc_inject: "enc x = enc y \<longleftrightarrow> x = y"
  by (metis dec_enc)

lemma read_field:
  "map_option dec (slice (pre @ enc x @ post) (length pre) (length pre + width)) = Some x"
  using slice_middle [of pre "enc x" post] by (simp add: enc_length dec_enc)

lemma read_first: "map_option dec (slice (enc x @ post) 0 width) = Some x"
  using read_field [of "[]" x post] by simp

lemma read_at:
  assumes "length pre = at"
  shows "map_option dec (slice (pre @ enc x @ post) at (at + width)) = Some x"
  using read_field [of pre x post] assms by simp

end

interpretation u16be: fixed_codec 2 "to_be_bytes 2 :: u16 \<Rightarrow> bytes" from_be_bytes
proof
  fix bs :: bytes
  assume "length bs = 2"
  then show "to_be_bytes 2 (from_be_bytes bs :: u16) = bs"
    using le_bytes_le_word [where 'a = 16, of "rev bs"]
    by (simp del: le_bytes_numeral add: to_be_bytes_def from_be_bytes_def)
qed (simp_all del: le_bytes_numeral
       add: to_be_bytes_def from_be_bytes_def le_word_le_bytes take_bit_full_word)

interpretation u32be: fixed_codec 4 "to_be_bytes 4 :: u32 \<Rightarrow> bytes" from_be_bytes
proof
  fix bs :: bytes
  assume "length bs = 4"
  then show "to_be_bytes 4 (from_be_bytes bs :: u32) = bs"
    using le_bytes_le_word [where 'a = 32, of "rev bs"]
    by (simp del: le_bytes_numeral add: to_be_bytes_def from_be_bytes_def)
qed (simp_all del: le_bytes_numeral
       add: to_be_bytes_def from_be_bytes_def le_word_le_bytes take_bit_full_word)

interpretation i32ne: fixed_codec 4 "to_ne_bytes en 4 :: i32 \<Rightarrow> bytes" "from_ne_bytes en" for en
proof
  fix bs :: bytes
  assume "length bs = 4"
  then show "to_ne_bytes en 4 (from_ne_bytes en bs :: i32) = bs"
    using le_bytes_le_word [where 'a = 32, of bs] le_bytes_le_word [where 'a = 32, of "rev bs"]
    by (cases en) (simp_all del: le_bytes_numeral add: to_ne_bytes_def from_ne_bytes_def)
next
  fix x :: i32
  show "from_ne_bytes en (to_ne_bytes en 4 x) = x"
    by (cases en) (simp_all del: le_bytes_numeral
          add: to_ne_bytes_def from_ne_bytes_def le_word_le_bytes take_bit_full_word)
qed simp

section \<open>Input and output under a deadline\<close>

text \<open>
  The kinds of \<open>io::Error\<close> the sources construct or inspect; every other error of the operating
  system is a raw error number. Messages are not modelled.
\<close>

datatype io_error =
    KNotFound | KInvalidInput | KInvalidData | KUnexpectedEof | KTimedOut | KOther | RawOs int

type_synonym 'a io_result = "io_error + 'a"

text \<open>
  An awaited operation finishes, fails, or is still pending when the deadline that guards it
  passes.
\<close>

datatype 'a await = Ready 'a | Failed io_error | Stalled

text \<open>\<open>tokio::time::timeout\<close>: \<open>None\<close> stands for \<open>Err(Elapsed)\<close>.\<close>

definition timeout :: "'a await \<Rightarrow> 'a io_result option" where
  "timeout a = (case a of Ready x \<Rightarrow> Some (Inr x) | Failed e \<Rightarrow> Some (Inl e) | Stalled \<Rightarrow> None)"

definition await_bind :: "'a await \<Rightarrow> ('a \<Rightarrow> 'b await) \<Rightarrow> 'b await" where
  "await_bind a f = (case a of Ready x \<Rightarrow> f x | Failed e \<Rightarrow> Failed e | Stalled \<Rightarrow> Stalled)"

lemma timeout_simps [simp, io_simps]:
  "timeout (Ready x) = Some (Inr x)"
  "timeout (Failed e) = Some (Inl e)"
  "timeout Stalled = None"
  by (simp_all add: timeout_def)

lemma await_bind_simps [simp, io_simps]:
  "await_bind (Ready x) f = f x"
  "await_bind (Failed e) f = Failed e"
  "await_bind Stalled f = Stalled"
  by (simp_all add: await_bind_def)

lemma await_bind_Ready_iff:
  "await_bind a f = Ready y \<longleftrightarrow> (\<exists>x. a = Ready x \<and> f x = Ready y)"
  by (cases a) auto

section \<open>Connections as byte streams\<close>

text \<open>
  What a peer delivers on a connection: the bytes that arrive before the reader's deadline, and
  what the reader meets after them (end of stream, silence, or an error).
\<close>

datatype stream_end = Closed | Silent | Broken io_error

record stream =
  inbuf :: bytes
  at_end :: stream_end

definition end_await :: "stream_end \<Rightarrow> 'a await" where
  "end_await e = (case e of Closed \<Rightarrow> Failed KUnexpectedEof | Silent \<Rightarrow> Stalled | Broken x \<Rightarrow> Failed x)"

definition read_exact :: "nat \<Rightarrow> stream \<Rightarrow> bytes await \<times> stream" where
  "read_exact n st =
     (if n \<le> length (inbuf st) then (Ready (take n (inbuf st)), st\<lparr>inbuf := drop n (inbuf st)\<rparr>)
      else (end_await (at_end st), st\<lparr>inbuf := []\<rparr>))"

definition read_to_end :: "stream \<Rightarrow> bytes await" where
  "read_to_end st = (case at_end st of Closed \<Rightarrow> Ready (inbuf st) | Silent \<Rightarrow> Stalled | Broken x \<Rightarrow> Failed x)"

lemma end_await_not_Ready [simp]: "end_await e \<noteq> Ready x"
  by (simp add: end_await_def split: stream_end.split)

lemma read_exact_Ready_iff:
  "read_exact n st = (Ready bs, st') \<longleftrightarrow>
     n \<le> length (inbuf st) \<and> bs = take n (inbuf st) \<and> st' = st\<lparr>inbuf := drop n (inbuf st)\<rparr>"
  by (auto simp: read_exact_def)

lemma read_exact_ReadyD:
  "read_exact n st = (Ready bs, st') \<Longrightarrow>
     inbuf st = bs @ inbuf st' \<and> length bs = n \<and> at_end st' = at_end st"
  by (auto simp: read_exact_def split: if_splits)

lemma fst_read_exact_Ready_iff:
  "fst (read_exact n st) = Ready bs \<longleftrightarrow> n \<le> length (inbuf st) \<and> bs = take n (inbuf st)"
  by (auto simp: read_exact_def)

lemma read_exact_append:
  "length bs = n \<Longrightarrow>
     read_exact n \<lparr>inbuf = bs @ rest, at_end = e\<rparr> = (Ready bs, \<lparr>inbuf = rest, at_end = e\<rparr>)"
  by (simp add: read_exact_def)

lemma inbuf_read_exact_le: "length (inbuf (snd (read_exact n st))) \<le> length (inbuf st)"
  by (simp add: read_exact_def)

lemma at_end_read_exact [simp]: "at_end (snd (read_exact n st)) = at_end st"
  by (simp add: read_exact_def)

end
