(* ===== verification/Rust_Str.thy ===== *)
theory Rust_Str
  imports Prelude
begin

text \<open>
  The operations of Rust's string types the sources call. A \<open>String\<close> or \<open>&str\<close> is its UTF-8
  encoding, as in Rust itself: a \<^typ>\<open>string\<close> whose characters are the bytes of the encoding, so
  that lengths and positions count bytes. ASCII-only operations are bytewise; the operations that
  know Unicode white space recognise the encodings of all \<open>White_Space\<close> characters. UTF-8
  validation and lossy decoding follow the table of the standard library's \<open>Utf8Chunks\<close>.
\<close>

section \<open>Bytes and characters\<close>

definition byte_of :: "char \<Rightarrow> byte" where
  "byte_of c = word_of_nat (of_char c)"

definition char_of_byte :: "byte \<Rightarrow> char" where
  "char_of_byte b = char_of (unat b)"

definition as_bytes :: "string \<Rightarrow> bytes" where
  "as_bytes s = map byte_of s"

definition str_of_bytes :: "bytes \<Rightarrow> string" where
  "str_of_bytes bs = map char_of_byte bs"

lemma unat_byte_less [simp]: "unat (b :: byte) < 256"
  using unsigned_less [of b, where 'a = nat] by simp

lemma of_char_less [simp]: "of_char c < (256 :: nat)"
  using nat_of_char_less_256 by simp

lemma char_of_byte_of [simp]: "char_of_byte (byte_of c) = c"
  by (simp add: char_of_byte_def byte_of_def unat_of_nat)

lemma byte_of_char_of [simp]: "byte_of (char_of_byte b) = b"
  by (simp add: char_of_byte_def byte_of_def)

lemma str_of_as_bytes [simp]: "str_of_bytes (as_bytes s) = s"
  by (simp add: str_of_bytes_def as_bytes_def comp_def)

lemma as_bytes_str_of [simp]: "as_bytes (str_of_bytes bs) = bs"
  by (simp add: str_of_bytes_def as_bytes_def comp_def)

lemma length_as_bytes [simp]: "length (as_bytes s) = length s"
  by (simp add: as_bytes_def)

lemma length_str_of_bytes [simp]: "length (str_of_bytes bs) = length bs"
  by (simp add: str_of_bytes_def)

lemma str_of_bytes_append [simp]: "str_of_bytes (xs @ ys) = str_of_bytes xs @ str_of_bytes ys"
  by (simp add: str_of_bytes_def)

lemma as_bytes_append [simp]: "as_bytes (xs @ ys) = as_bytes xs @ as_bytes ys"
  by (simp add: as_bytes_def)

lemma str_of_bytes_simps [simp]:
  "str_of_bytes [] = []"
  "str_of_bytes (b # bs) = char_of_byte b # str_of_bytes bs"
  by (simp_all add: str_of_bytes_def)

lemma as_bytes_simps [simp]:
  "as_bytes [] = []"
  "as_bytes (c # s) = byte_of c # as_bytes s"
  by (simp_all add: as_bytes_def)

lemma str_of_bytes_eq_Nil [simp]: "str_of_bytes bs = [] \<longleftrightarrow> bs = []"
  by (simp add: str_of_bytes_def)

lemma str_of_bytes_inject: "str_of_bytes xs = str_of_bytes ys \<longleftrightarrow> xs = ys"
  by (metis as_bytes_str_of)

section \<open>ASCII operations\<close>

definition is_ascii_upper :: "char \<Rightarrow> bool" where
  "is_ascii_upper c \<longleftrightarrow> 65 \<le> (of_char c :: nat) \<and> (of_char c :: nat) \<le> 90"

definition is_ascii_digit :: "char \<Rightarrow> bool" where
  "is_ascii_digit c \<longleftrightarrow> 48 \<le> (of_char c :: nat) \<and> (of_char c :: nat) \<le> 57"

definition is_ascii_alphanumeric :: "char \<Rightarrow> bool" where
  "is_ascii_alphanumeric c \<longleftrightarrow>
     is_ascii_digit c \<or> is_ascii_upper c \<or> 97 \<le> (of_char c :: nat) \<and> (of_char c :: nat) \<le> 122"

definition to_ascii_lower :: "char \<Rightarrow> char" where
  "to_ascii_lower c = (if is_ascii_upper c then char_of ((of_char c :: nat) + 32) else c)"

definition to_ascii_lowercase :: "string \<Rightarrow> string" where
  "to_ascii_lowercase s = map to_ascii_lower s"

lemma of_char_lower_upper:
  "is_ascii_upper c \<Longrightarrow> (of_char (to_ascii_lower c) :: nat) = of_char c + 32"
  by (simp add: to_ascii_lower_def is_ascii_upper_def)

lemma not_upper_lower [simp]: "\<not> is_ascii_upper (to_ascii_lower c)"
  by (cases "is_ascii_upper c")
     (simp_all add: of_char_lower_upper is_ascii_upper_def [of "to_ascii_lower c"],
      simp_all add: to_ascii_lower_def is_ascii_upper_def)

lemma to_ascii_lower_idem [simp]: "to_ascii_lower (to_ascii_lower c) = to_ascii_lower c"
  by (subst to_ascii_lower_def) simp

lemma to_ascii_lower_id: "\<not> is_ascii_upper c \<Longrightarrow> to_ascii_lower c = c"
  by (simp add: to_ascii_lower_def)

text \<open>Evaluation on character literals.\<close>

lemma is_ascii_upper_Char [simp]:
  "is_ascii_upper (Char b0 b1 b2 b3 b4 b5 b6 b7) \<longleftrightarrow>
     65 \<le> (of_char (Char b0 b1 b2 b3 b4 b5 b6 b7) :: nat) \<and>
     (of_char (Char b0 b1 b2 b3 b4 b5 b6 b7) :: nat) \<le> 90"
  by (simp only: is_ascii_upper_def)

lemma to_ascii_lower_Char [simp]:
  "to_ascii_lower (Char b0 b1 b2 b3 b4 b5 b6 b7) =
     (if is_ascii_upper (Char b0 b1 b2 b3 b4 b5 b6 b7) then Char b0 b1 b2 b3 b4 True b6 b7
      else Char b0 b1 b2 b3 b4 b5 b6 b7)"
proof (cases "is_ascii_upper (Char b0 b1 b2 b3 b4 b5 b6 b7)")
  case True
  then have "\<not> b5"
    by (cases b5; cases b6; cases b7) (auto simp: of_char_def of_bool_def split: if_splits)
  then have "(of_char (Char b0 b1 b2 b3 b4 b5 b6 b7) :: nat) + 32 = of_char (Char b0 b1 b2 b3 b4 True b6 b7)"
    by (simp add: of_char_def)
  with True show ?thesis by (simp only: to_ascii_lower_def if_True char_of_char)
next
  case False
  then show ?thesis by (simp only: to_ascii_lower_def if_False)
qed

lemma to_ascii_lower_eq_iff:
  assumes "\<not> is_ascii_upper d" "\<not> (97 \<le> (of_char d :: nat) \<and> (of_char d :: nat) \<le> 122)"
  shows "to_ascii_lower c = d \<longleftrightarrow> c = d"
proof (cases "is_ascii_upper c")
  case True
  then have "97 \<le> (of_char (to_ascii_lower c) :: nat)" "(of_char (to_ascii_lower c) :: nat) \<le> 122"
    by (simp_all add: of_char_lower_upper) (simp_all add: is_ascii_upper_def)
  with True assms show ?thesis by auto
next
  case False
  then show ?thesis by (simp add: to_ascii_lower_id)
qed

lemma to_ascii_lower_dot_iff [simp]: "to_ascii_lower c = CHR ''.'' \<longleftrightarrow> c = CHR ''.''"
  by (rule to_ascii_lower_eq_iff) (simp_all add: is_ascii_upper_def)

lemma to_ascii_lowercase_simps [simp]:
  "to_ascii_lowercase [] = []"
  "to_ascii_lowercase (c # s) = to_ascii_lower c # to_ascii_lowercase s"
  "to_ascii_lowercase (s @ t) = to_ascii_lowercase s @ to_ascii_lowercase t"
  by (simp_all add: to_ascii_lowercase_def)

lemma to_ascii_lowercase_idem [simp]:
  "to_ascii_lowercase (to_ascii_lowercase s) = to_ascii_lowercase s"
  by (simp add: to_ascii_lowercase_def)

lemma length_to_ascii_lowercase [simp]: "length (to_ascii_lowercase s) = length s"
  by (simp add: to_ascii_lowercase_def)

lemma to_ascii_lowercase_eq_Nil [simp]: "to_ascii_lowercase s = [] \<longleftrightarrow> s = []"
  by (simp add: to_ascii_lowercase_def)

lemma to_ascii_lowercase_id_iff:
  "to_ascii_lowercase s = s \<longleftrightarrow> (\<forall>c \<in> set s. \<not> is_ascii_upper c)"
  by (induction s) (auto simp: to_ascii_lower_id, metis not_upper_lower)

section \<open>Prefixes, suffixes, searching\<close>

definition strip_prefix :: "string \<Rightarrow> string \<Rightarrow> string option" where
  "strip_prefix p s = (if take (length p) s = p then Some (drop (length p) s) else None)"

definition starts_with :: "string \<Rightarrow> string \<Rightarrow> bool" where
  "starts_with p s \<longleftrightarrow> take (length p) s = p"

definition trim_end_matches :: "(char \<Rightarrow> bool) \<Rightarrow> string \<Rightarrow> string" where
  "trim_end_matches P s = rev (dropWhile P (rev s))"

text \<open>Position of the first occurrence of a character.\<close>

primrec find_char :: "char \<Rightarrow> string \<Rightarrow> usize option" where
  "find_char c [] = None"
| "find_char c (x # s) = (if x = c then Some 0 else map_option Suc (find_char c s))"

primrec join :: "string \<Rightarrow> string list \<Rightarrow> string" where
  "join sep [] = []"
| "join sep (s # ss) = (if ss = [] then s else s @ sep @ join sep ss)"

lemma strip_prefix_Some_iff: "strip_prefix p s = Some r \<longleftrightarrow> s = p @ r"
  by (auto simp: strip_prefix_def) (metis append_take_drop_id)

lemma find_char_Some:
  "find_char c s = Some i \<Longrightarrow> \<exists>pre. s = pre @ c # drop (Suc i) s \<and> length pre = i \<and> c \<notin> set pre"
proof (induction s arbitrary: i)
  case Nil
  then show ?case by simp
next
  case (Cons x s)
  show ?case
  proof (cases "x = c")
    case True
    with Cons.prems show ?thesis by (intro exI [of _ "[]"]) simp
  next
    case False
    with Cons.prems obtain j where j: "find_char c s = Some j" "i = Suc j" by auto
    from Cons.IH [OF j(1)] obtain pre where "s = pre @ c # drop (Suc j) s" "length pre = j" "c \<notin> set pre"
      by blast
    with False j show ?thesis by (intro exI [of _ "x # pre"]) simp
  qed
qed

lemma find_char_None_iff: "find_char c s = None \<longleftrightarrow> c \<notin> set s"
  by (induction s) auto

lemma find_char_less: "find_char c s = Some i \<Longrightarrow> i < length s"
  by (induction s arbitrary: i) (auto split: if_splits)

lemma trim_end_matches_append:
  "P c \<Longrightarrow> trim_end_matches P (s @ [c]) = trim_end_matches P s"
  by (simp add: trim_end_matches_def)

lemma trim_end_matches_idem [simp]:
  "trim_end_matches P (trim_end_matches P s) = trim_end_matches P s"
  by (simp add: trim_end_matches_def)

lemma trim_end_matches_last:
  "trim_end_matches P s \<noteq> [] \<Longrightarrow> \<not> P (last (trim_end_matches P s))"
  by (auto simp: trim_end_matches_def last_rev hd_dropWhile)

lemma trim_end_matches_id: "s = [] \<or> \<not> P (last s) \<Longrightarrow> trim_end_matches P s = s"
  by (cases s rule: rev_cases) (auto simp: trim_end_matches_def)

lemma trim_end_matches_split: "\<exists>t. s = trim_end_matches P s @ t \<and> (\<forall>c \<in> set t. P c)"
proof -
  have "s = rev (dropWhile P (rev s)) @ rev (takeWhile P (rev s))"
    by (metis rev_append rev_rev_ident takeWhile_dropWhile_id)
  then show ?thesis
    by (intro exI [of _ "rev (takeWhile P (rev s))"])
       (auto simp: trim_end_matches_def dest: set_takeWhileD)
qed

lemma set_trim_end_matches: "set (trim_end_matches P s) \<subseteq> set s"
  by (auto simp: trim_end_matches_def dest: set_dropWhileD)

section \<open>Unicode white space\<close>

definition byte_at :: "string \<Rightarrow> nat \<Rightarrow> nat" where
  "byte_at s i = (if i < length s then of_char (s ! i) else 0)"

text \<open>
  Number of bytes of a white-space character with the given first bytes: U+0009 to U+000D,
  U+0020, U+0085, U+00A0, U+1680, U+2000 to U+200A, U+2028, U+2029, U+202F, U+205F, U+3000.
\<close>

definition ws1 :: "nat \<Rightarrow> bool" where
  "ws1 a \<longleftrightarrow> 9 \<le> a \<and> a \<le> 13 \<or> a = 32"

definition ws2 :: "nat \<Rightarrow> nat \<Rightarrow> bool" where
  "ws2 a b \<longleftrightarrow> a = 194 \<and> (b = 133 \<or> b = 160)"

definition ws3 :: "nat \<Rightarrow> nat \<Rightarrow> nat \<Rightarrow> bool" where
  "ws3 a b c \<longleftrightarrow>
     a = 225 \<and> b = 154 \<and> c = 128 \<or>
     a = 226 \<and> b = 128 \<and> (128 \<le> c \<and> c \<le> 138 \<or> c = 168 \<or> c = 169 \<or> c = 175) \<or>
     a = 226 \<and> b = 129 \<and> c = 159 \<or>
     a = 227 \<and> b = 128 \<and> c = 128"

definition ws_prefix :: "string \<Rightarrow> nat" where
  "ws_prefix s =
     (if ws1 (byte_at s 0) then 1
      else if ws2 (byte_at s 0) (byte_at s 1) then 2
      else if ws3 (byte_at s 0) (byte_at s 1) (byte_at s 2) then 3 else 0)"

text \<open>The same for the last character of a string, given reversed.\<close>

definition ws_suffix :: "string \<Rightarrow> nat" where
  "ws_suffix r =
     (if ws1 (byte_at r 0) then 1
      else if ws2 (byte_at r 1) (byte_at r 0) then 2
      else if ws3 (byte_at r 2) (byte_at r 1) (byte_at r 0) then 3 else 0)"

lemma ws_prefix_Nil [simp]: "ws_prefix [] = 0"
  by (simp add: ws_prefix_def byte_at_def ws1_def ws2_def ws3_def)

lemma ws_suffix_Nil [simp]: "ws_suffix [] = 0"
  by (simp add: ws_suffix_def byte_at_def ws1_def ws2_def ws3_def)

function trim_start :: "string \<Rightarrow> string" where
  "trim_start s = (if ws_prefix s = 0 then s else trim_start (drop (ws_prefix s) s))"
  by pat_completeness auto
termination
proof (relation "measure length")
  fix s :: string
  assume "ws_prefix s \<noteq> 0"
  then show "(drop (ws_prefix s) s, s) \<in> measure length"
    by (cases s) auto
qed simp

function trim_rev :: "string \<Rightarrow> string" where
  "trim_rev r = (if ws_suffix r = 0 then r else trim_rev (drop (ws_suffix r) r))"
  by pat_completeness auto
termination
proof (relation "measure length")
  fix r :: string
  assume "ws_suffix r \<noteq> 0"
  then show "(drop (ws_suffix r) r, r) \<in> measure length"
    by (cases r) auto
qed simp

declare trim_start.simps [simp del] trim_rev.simps [simp del]

definition trim :: "string \<Rightarrow> string" where
  "trim s = rev (trim_rev (rev (trim_start s)))"

text \<open>The tokens between runs of white space; \<open>acc\<close> is the current token, reversed.\<close>

definition flush :: "string \<Rightarrow> string list" where
  "flush acc = (if acc = [] then [] else [rev acc])"

function split_ws :: "string \<Rightarrow> string \<Rightarrow> string list" where
  "split_ws acc [] = flush acc"
| "split_ws acc (c # s) =
     (let n = ws_prefix (c # s)
      in if n = 0 then split_ws (c # acc) s else flush acc @ split_ws [] (drop n (c # s)))"
  by pat_completeness auto
termination
  by (relation "measure (\<lambda>(acc, s). length s)") auto

definition split_whitespace :: "string \<Rightarrow> string list" where
  "split_whitespace s = split_ws [] s"

text \<open>Letters, digits, dots and dashes are no white space, so such words are left alone.\<close>

definition plain_char :: "char \<Rightarrow> bool" where
  "plain_char c \<longleftrightarrow> 32 < (of_char c :: nat) \<and> (of_char c :: nat) < 127"

lemma ws_prefix_plain [simp]: "plain_char c \<Longrightarrow> ws_prefix (c # s) = 0"
  by (auto simp: ws_prefix_def byte_at_def plain_char_def ws1_def ws2_def ws3_def)

lemma ws_suffix_plain [simp]: "plain_char c \<Longrightarrow> ws_suffix (c # s) = 0"
  by (auto simp: ws_suffix_def byte_at_def plain_char_def ws1_def ws2_def ws3_def)

lemma trim_plain:
  assumes "\<forall>c \<in> set s. plain_char c"
  shows "trim s = s"
proof (cases s rule: rev_cases)
  case Nil
  then show ?thesis by (simp add: trim_def trim_start.simps trim_rev.simps)
next
  case (snoc t c)
  have "trim_start s = s"
    using assms by (subst trim_start.simps, cases s) auto
  moreover have "trim_rev (rev s) = rev s"
    using assms snoc by (subst trim_rev.simps) auto
  ultimately show ?thesis by (simp add: trim_def)
qed

lemma split_ws_plain:
  "\<forall>c \<in> set s. plain_char c \<Longrightarrow> split_ws acc (s @ t) = split_ws (rev s @ acc) t"
  by (induction s arbitrary: acc) (auto simp: Let_def)

lemma split_whitespace_plain:
  "\<forall>c \<in> set s. plain_char c \<Longrightarrow> s \<noteq> [] \<Longrightarrow> split_whitespace s = [s]"
  using split_ws_plain [of s "[]" "[]"] by (simp add: split_whitespace_def flush_def)

lemma split_whitespace_two:
  assumes "\<forall>c \<in> set s. plain_char c" "\<forall>c \<in> set t. plain_char c" "s \<noteq> []" "t \<noteq> []"
  shows "split_whitespace (s @ '' '' @ t) = [s, t]"
proof -
  have ws: "ws_prefix (CHR '' '' # t) = 1"
    by (simp add: ws_prefix_def byte_at_def ws1_def)
  have "split_ws [] (s @ '' '' @ t) = split_ws (rev s) (CHR '' '' # t)"
    using split_ws_plain [OF assms(1), of "[]" "'' '' @ t"] by simp
  also have "\<dots> = [s] @ split_ws [] t"
    using assms(3) by (simp add: ws Let_def flush_def)
  also have "split_ws [] t = [t]"
    using split_whitespace_plain [OF assms(2,4)] by (simp add: split_whitespace_def)
  finally show ?thesis by (simp add: split_whitespace_def)
qed

end
