(* ===== verification/Utf8.thy ===== *)
theory Utf8
  imports Rust_Str
begin

text \<open>
  UTF-8 as the Rust standard library reads it: \<open>str::from_utf8\<close>, \<open>String::from_utf8_lossy\<close> and
  \<open>BufRead::lines\<close>. One scanning step looks at the first bytes of the input and either finds one
  well-formed character or the maximal ill-formed prefix that lossy decoding replaces by U+FFFD.
\<close>

definition peek :: "bytes \<Rightarrow> nat \<Rightarrow> nat" where
  "peek bs i = (if i < length bs then unat (bs ! i) else 0)"

definition utf8_char_width :: "nat \<Rightarrow> nat" where
  "utf8_char_width b =
     (if b < 128 then 1 else if b < 194 then 0 else if b < 224 then 2
      else if b < 240 then 3 else if b < 245 then 4 else 0)"

definition is_cont :: "nat \<Rightarrow> bool" where
  "is_cont b \<longleftrightarrow> 128 \<le> b \<and> b < 192"

definition second3 :: "nat \<Rightarrow> nat \<Rightarrow> bool" where
  "second3 a b \<longleftrightarrow>
     a = 224 \<and> 160 \<le> b \<and> b < 192 \<or> 225 \<le> a \<and> a \<le> 236 \<and> is_cont b \<or>
     a = 237 \<and> 128 \<le> b \<and> b < 160 \<or> 238 \<le> a \<and> a \<le> 239 \<and> is_cont b"

definition second4 :: "nat \<Rightarrow> nat \<Rightarrow> bool" where
  "second4 a b \<longleftrightarrow>
     a = 240 \<and> 144 \<le> b \<and> b < 192 \<or> 241 \<le> a \<and> a \<le> 243 \<and> is_cont b \<or>
     a = 244 \<and> 128 \<le> b \<and> b < 144"

text \<open>Whether the input starts with a well-formed character, and how many bytes the step takes.\<close>

definition utf8_step :: "bytes \<Rightarrow> bool \<times> nat" where
  "utf8_step bs =
     (let a = peek bs 0; b = peek bs 1; c = peek bs 2; d = peek bs 3; w = utf8_char_width a in
      if w = 1 then (True, 1)
      else if w = 2 then (if is_cont b then (True, 2) else (False, 1))
      else if w = 3 then
        (if \<not> second3 a b then (False, 1) else if \<not> is_cont c then (False, 2) else (True, 3))
      else if w = 4 then
        (if \<not> second4 a b then (False, 1) else if \<not> is_cont c then (False, 2)
         else if \<not> is_cont d then (False, 3) else (True, 4))
      else (False, 1))"

lemma utf8_step_pos: "0 < snd (utf8_step bs)"
  by (simp add: utf8_step_def Let_def)

function utf8_valid :: "bytes \<Rightarrow> bool" where
  "utf8_valid bs =
     (if bs = [] then True
      else if fst (utf8_step bs) then utf8_valid (drop (snd (utf8_step bs)) bs) else False)"
  by pat_completeness auto
termination
proof (relation "measure length")
  fix bs :: bytes
  assume "bs \<noteq> []"
  then show "(drop (snd (utf8_step bs)) bs, bs) \<in> measure length"
    using utf8_step_pos [of bs] by simp
qed simp

definition replacement :: string where
  "replacement = str_of_bytes [0xEF, 0xBF, 0xBD]"

function from_utf8_lossy :: "bytes \<Rightarrow> string" where
  "from_utf8_lossy bs =
     (if bs = [] then []
      else (if fst (utf8_step bs) then str_of_bytes (take (snd (utf8_step bs)) bs) else replacement)
           @ from_utf8_lossy (drop (snd (utf8_step bs)) bs))"
  by pat_completeness auto
termination
proof (relation "measure length")
  fix bs :: bytes
  assume "bs \<noteq> []"
  then show "(drop (snd (utf8_step bs)) bs, bs) \<in> measure length"
    using utf8_step_pos [of bs] by simp
qed simp

declare utf8_valid.simps [simp del] from_utf8_lossy.simps [simp del]

definition from_utf8 :: "bytes \<Rightarrow> string option" where
  "from_utf8 bs = (if utf8_valid bs then Some (str_of_bytes bs) else None)"

lemma utf8_valid_Nil [simp]: "utf8_valid []"
  by (subst utf8_valid.simps) simp

lemma from_utf8_lossy_Nil [simp]: "from_utf8_lossy [] = []"
  by (subst from_utf8_lossy.simps) simp

lemma utf8_step_ascii: "unat b < 128 \<Longrightarrow> utf8_step (b # bs) = (True, 1)"
  by (simp add: utf8_step_def peek_def utf8_char_width_def)

lemma utf8_valid_ascii_Cons [simp]: "unat b < 128 \<Longrightarrow> utf8_valid (b # bs) = utf8_valid bs"
  by (subst utf8_valid.simps) (simp add: utf8_step_ascii)

lemma from_utf8_lossy_ascii_Cons [simp]:
  "unat b < 128 \<Longrightarrow> from_utf8_lossy (b # bs) = char_of_byte b # from_utf8_lossy bs"
  by (subst from_utf8_lossy.simps) (simp add: utf8_step_ascii)

definition ascii :: "bytes \<Rightarrow> bool" where
  "ascii bs \<longleftrightarrow> (\<forall>b \<in> set bs. unat b < 128)"

lemma ascii_simps [simp]:
  "ascii []" "ascii (b # bs) \<longleftrightarrow> unat b < 128 \<and> ascii bs"
  "ascii (xs @ ys) \<longleftrightarrow> ascii xs \<and> ascii ys"
  by (auto simp: ascii_def)

lemma ascii_valid: "ascii bs \<Longrightarrow> utf8_valid bs"
  by (induction bs) auto

lemma ascii_lossy: "ascii bs \<Longrightarrow> from_utf8_lossy bs = str_of_bytes bs"
  by (induction bs) auto

text \<open>Lossy decoding is exact on well-formed input, and its result is always well-formed.\<close>

lemma valid_lossy: "utf8_valid bs \<Longrightarrow> from_utf8_lossy bs = str_of_bytes bs"
proof (induction bs rule: utf8_valid.induct)
  case (1 bs)
  show ?case
  proof (cases "bs = []")
    case True
    then show ?thesis by simp
  next
    case False
    with "1.prems" have ok: "fst (utf8_step bs)" and rest: "utf8_valid (drop (snd (utf8_step bs)) bs)"
      by (auto simp: utf8_valid.simps [of bs] split: if_splits)
    have "from_utf8_lossy (drop (snd (utf8_step bs)) bs) = str_of_bytes (drop (snd (utf8_step bs)) bs)"
      by (rule "1.IH" [OF False ok rest])
    then show ?thesis
      using False ok by (subst from_utf8_lossy.simps)
        (simp del: str_of_bytes_append add: str_of_bytes_append [symmetric])
  qed
qed

lemma utf8_step_True_iff:
  "utf8_step bs = (True, n) \<longleftrightarrow>
     n = 1 \<and> utf8_char_width (peek bs 0) = 1 \<or>
     n = 2 \<and> utf8_char_width (peek bs 0) = 2 \<and> is_cont (peek bs 1) \<or>
     n = 3 \<and> utf8_char_width (peek bs 0) = 3 \<and> second3 (peek bs 0) (peek bs 1) \<and> is_cont (peek bs 2) \<or>
     n = 4 \<and> utf8_char_width (peek bs 0) = 4 \<and> second4 (peek bs 0) (peek bs 1) \<and> is_cont (peek bs 2)
       \<and> is_cont (peek bs 3)"
  by (auto simp: utf8_step_def Let_def)

lemma is_cont_peek: "is_cont (peek bs i) \<Longrightarrow> i < length bs"
  by (simp add: is_cont_def peek_def split: if_splits)

lemma utf8_step_length: "utf8_step bs = (True, n) \<Longrightarrow> bs \<noteq> [] \<Longrightarrow> n \<le> length bs"
  unfolding utf8_step_True_iff by (elim disjE conjE) (auto simp: Suc_le_eq dest!: is_cont_peek)

lemma utf8_step_take:
  assumes "utf8_step bs = (True, n)" "n \<le> length bs"
  shows "utf8_step (take n bs @ xs) = (True, n)"
proof -
  have "peek (take n bs @ xs) i = peek bs i" if "i < n" for i
    using that assms(2) by (simp add: peek_def nth_append)
  then show ?thesis
    using assms(1) unfolding utf8_step_True_iff by (elim disjE conjE) simp_all
qed

lemma utf8_valid_step_append:
  assumes "utf8_step (xs @ ys) = (True, length xs)" "xs \<noteq> []"
  shows "utf8_valid (xs @ ys) = utf8_valid ys"
  using assms by (subst utf8_valid.simps) simp

lemma lossy_valid: "utf8_valid (as_bytes (from_utf8_lossy bs))"
proof (induction bs rule: from_utf8_lossy.induct)
  case (1 bs)
  show ?case
  proof (cases "bs = []")
    case True
    then show ?thesis by simp
  next
    case ne: False
    let ?n = "snd (utf8_step bs)" and ?rest = "as_bytes (from_utf8_lossy (drop (snd (utf8_step bs)) bs))"
    have rest: "utf8_valid ?rest" using "1.IH" [OF ne] .
    show ?thesis
    proof (cases "fst (utf8_step bs)")
      case True
      then have st: "utf8_step bs = (True, ?n)" by (metis prod.collapse)
      have len: "?n \<le> length bs" by (rule utf8_step_length [OF st ne])
      have "length (take ?n bs) = ?n" using len by simp
      moreover have "take ?n bs \<noteq> []" using ne utf8_step_pos [of bs] by simp
      ultimately have "utf8_valid (take ?n bs @ ?rest)"
        using utf8_valid_step_append [of "take ?n bs" ?rest] utf8_step_take [OF st len] rest by simp
      then show ?thesis using ne True by (subst from_utf8_lossy.simps) simp
    next
      case False
      have "utf8_valid ([0xEF, 0xBF, 0xBD] @ ?rest)"
        using rest by (subst utf8_valid_step_append)
          (simp_all add: utf8_step_def peek_def utf8_char_width_def second3_def is_cont_def)
      then show ?thesis using ne False
        by (subst from_utf8_lossy.simps) (simp add: replacement_def del: str_of_bytes_simps)
    qed
  qed
qed

section \<open>Reading lines\<close>

text \<open>
  One call of \<open>read_line\<close> on a buffered reader, as \<open>BufRead::lines\<close> sees it: the end of the
  input, a line without its terminator, or an error (a failed read, or a line that is not UTF-8).
\<close>

datatype line_read = Eof | Line string | ReadError

text \<open>The bytes up to and including the first newline, and the rest.\<close>

definition split_line :: "bytes \<Rightarrow> bytes \<times> bytes" where
  "split_line bs =
     (let pre = takeWhile (\<lambda>b. b \<noteq> 10) bs
      in (take (Suc (length pre)) bs, drop (Suc (length pre)) bs))"

definition strip_eol :: "bytes \<Rightarrow> bytes" where
  "strip_eol l =
     (if l \<noteq> [] \<and> last l = 10
      then (let l' = butlast l in if l' \<noteq> [] \<and> last l' = 13 then butlast l' else l')
      else l)"

text \<open>Reading a line of an in-memory file; the state is what has not been read yet.\<close>

definition next_line :: "bytes \<Rightarrow> line_read \<times> bytes" where
  "next_line bs =
     (if bs = [] then (Eof, [])
      else (let (l, rest) = split_line bs
            in (if utf8_valid l then Line (str_of_bytes (strip_eol l)) else ReadError, rest)))"

lemma next_line_shorter: "bs \<noteq> [] \<Longrightarrow> length (snd (next_line bs)) < length bs"
  by (simp add: next_line_def split_line_def Let_def)

lemma next_line_Eof_iff: "fst (next_line bs) = Eof \<longleftrightarrow> bs = []"
  by (auto simp: next_line_def split: prod.split)

lemma split_line_newline: "10 \<notin> set l \<Longrightarrow> split_line (l @ 10 # rest) = (l @ [10], rest)"
  by (simp add: split_line_def takeWhile_append)

lemma split_line_last: "10 \<notin> set l \<Longrightarrow> split_line l = (l, [])"
proof -
  assume "10 \<notin> set l"
  then have "takeWhile (\<lambda>b. b \<noteq> 10) l = l" by (auto simp: takeWhile_eq_all_conv)
  then show ?thesis unfolding split_line_def Let_def by (simp only: take_all drop_all le_Suc_eq order_refl simp_thms)
qed

text \<open>Printable ASCII text is its own encoding and holds no line terminator.\<close>

definition printable :: "string \<Rightarrow> bool" where
  "printable l \<longleftrightarrow> list_all (\<lambda>c. 32 \<le> (of_char c :: nat) \<and> (of_char c :: nat) < 127) l"

lemma printable_bytes:
  "printable l \<Longrightarrow> ascii (as_bytes l) \<and> 10 \<notin> set (as_bytes l) \<and> 13 \<notin> set (as_bytes l)"
proof (induction l)
  case (Cons c l)
  have "unat (byte_of c) = of_char c"
    using of_char_less [of c] by (simp add: byte_of_def unat_of_nat)
  then show ?case using Cons by (auto simp: printable_def as_bytes_def)
qed (simp add: as_bytes_def)

end
