(* ===== verification/Blocklist.thy ===== *)
theory Blocklist
  imports Utf8
begin

text \<open>
  The blocklist loader and its queries (\<open>src/blocklist.rs\<close>): the line parser for the three list
  formats, the loading loop over a buffered reader, and the lookup that tries a host name and each
  of its parent domains. The loop may run forever on a reader that keeps failing, so it is a
  \<^theory_text>\<open>partial_function\<close> into \<^typ>\<open>'a option\<close>; the interface \<open>line_source\<close> states when it returns.
\<close>

section \<open>Entries and lists\<close>

datatype blocklist_entry = Exact string | DomainAndSubs string

record blocklist =
  exact :: "string set"
  suffixes :: "string set"
  bl_name :: string

section \<open>The line parser\<close>

definition looks_like_ip :: "string \<Rightarrow> bool" where
  "looks_like_ip s \<longleftrightarrow>
     (case s of [] \<Rightarrow> False | c # _ \<Rightarrow> is_ascii_digit c) \<or> CHR '':'' \<in> set s"

definition is_valid_domain :: "string \<Rightarrow> bool" where
  "is_valid_domain s \<longleftrightarrow>
     s \<noteq> [] \<and> length s \<le> 253 \<and> CHR ''.'' \<in> set s \<and>
     list_all (\<lambda>c. is_ascii_alphanumeric c \<or> c = CHR ''-'' \<or> c = CHR ''.'') s"

definition parse_line :: "string \<Rightarrow> blocklist_entry option" where
  "parse_line line =
     (case strip_prefix ''||'' line of
        Some rest \<Rightarrow>
          (let domain = trim_end_matches (\<lambda>c. c = CHR ''^'' \<or> c = CHR ''|'') rest;
               domain = to_ascii_lowercase (trim domain)
           in if is_valid_domain domain then Some (DomainAndSubs domain) else None)
      | None \<Rightarrow>
          if starts_with ''@@'' line then None
          else (let tokens = split_whitespace line in
             if 2 \<le> length tokens \<and> looks_like_ip (tokens ! 0) then
               (let domain = to_ascii_lowercase (tokens ! 1)
                in if is_valid_domain domain \<and> domain \<noteq> ''localhost''
                   then Some (Exact domain) else None)
             else if length tokens = 1 then
               (let domain = to_ascii_lowercase (tokens ! 0)
                in if is_valid_domain domain then Some (Exact domain) else None)
             else None))"

section \<open>Loading\<close>

text \<open>One turn of the loading loop on a line that was read: comments and blank lines are skipped.\<close>

definition entry_of_line :: "string \<Rightarrow> blocklist_entry option" where
  "entry_of_line l =
     (let line = trim l in
      if line = [] \<or> starts_with ''#'' line \<or> starts_with ''!'' line then None
      else parse_line line)"

definition add_line :: "string \<Rightarrow> string set \<times> string set \<Rightarrow> string set \<times> string set" where
  "add_line l acc =
     (case entry_of_line l of
        Some (Exact d) \<Rightarrow> (insert d (fst acc), snd acc)
      | Some (DomainAndSubs d) \<Rightarrow> (fst acc, insert d (snd acc))
      | None \<Rightarrow> acc)"

partial_function (option) parse_lines ::
  "('r \<Rightarrow> line_read \<times> 'r) \<Rightarrow> 'r \<Rightarrow> string set \<times> string set \<Rightarrow> (string set \<times> string set) option"
where
  "parse_lines rd r acc =
     (case rd r of (x, r') \<Rightarrow>
        (case x of
           Eof \<Rightarrow> Some acc
         | ReadError \<Rightarrow> parse_lines rd r' acc
         | Line l \<Rightarrow> parse_lines rd r' (add_line l acc)))"

definition blocklist_parse :: "('r \<Rightarrow> line_read \<times> 'r) \<Rightarrow> 'r \<Rightarrow> string \<Rightarrow> blocklist option" where
  "blocklist_parse rd r nm =
     map_option (\<lambda>(ex, su). \<lparr>exact = ex, suffixes = su, bl_name = nm\<rparr>) (parse_lines rd r ({}, {}))"

definition blocklist_load ::
  "(string \<Rightarrow> 'r io_result) \<Rightarrow> ('r \<Rightarrow> line_read \<times> 'r) \<Rightarrow> string \<Rightarrow> string \<Rightarrow> blocklist io_result option"
where
  "blocklist_load open_file rd path nm =
     (case open_file path of
        Inl e \<Rightarrow> Some (Inl e)
      | Inr r \<Rightarrow> map_option Inr (blocklist_parse rd r nm))"

section \<open>Queries\<close>

text \<open>Strip one label at a time and look the rest up.\<close>

function strip_labels :: "string set \<Rightarrow> string \<Rightarrow> bool" where
  "strip_labels su rest =
     (case find_char CHR ''.'' rest of
        None \<Rightarrow> False
      | Some pos \<Rightarrow>
          (let rest' = drop (pos + 1) rest
           in if rest' \<in> su then True else strip_labels su rest'))"
  by pat_completeness auto
termination
  by (relation "measure (\<lambda>(su, rest). length rest)") (auto dest: find_char_less)

declare strip_labels.simps [simp del]

definition contains :: "blocklist \<Rightarrow> string \<Rightarrow> bool" where
  "contains bl hostname =
     (let hostname = to_ascii_lowercase hostname in
      if hostname \<in> exact bl then True
      else if hostname \<in> suffixes bl then True
      else strip_labels (suffixes bl) hostname)"

definition blocklist_len :: "blocklist \<Rightarrow> nat" where
  "blocklist_len bl = card (exact bl) + card (suffixes bl)"

definition blocklist_is_empty :: "blocklist \<Rightarrow> bool" where
  "blocklist_is_empty bl \<longleftrightarrow> blocklist_len bl = 0"

section \<open>What a list promises\<close>

text \<open>
  The abstract contract of a query, over the entries of the list: an exact entry blocks its own
  name, a domain entry blocks its name and every name below it.
\<close>

fun entry_blocks :: "blocklist_entry \<Rightarrow> string \<Rightarrow> bool" where
  "entry_blocks (Exact d) h \<longleftrightarrow> h = d"
| "entry_blocks (DomainAndSubs d) h \<longleftrightarrow> h = d \<or> (\<exists>sub. h = sub @ ''.'' @ d)"

definition entries :: "blocklist \<Rightarrow> blocklist_entry set" where
  "entries bl = Exact ` exact bl \<union> DomainAndSubs ` suffixes bl"

text \<open>Entries are lower-case, syntactically valid domain names.\<close>

definition wf_domain :: "string \<Rightarrow> bool" where
  "wf_domain d \<longleftrightarrow> is_valid_domain d \<and> to_ascii_lowercase d = d"

definition wf_blocklist :: "blocklist \<Rightarrow> bool" where
  "wf_blocklist bl \<longleftrightarrow> (\<forall>d \<in> exact bl \<union> suffixes bl. wf_domain d)"

lemma split_at_first:
  assumes "pre @ c # r = sub @ c # d" "c \<notin> set pre"
  shows "sub = pre \<and> d = r \<or> (\<exists>t. sub = pre @ c # t \<and> r = t @ c # d)"
  using assms
proof (induction pre arbitrary: sub)
  case Nil
  then show ?case by (cases sub) auto
next
  case (Cons x pre)
  then obtain sub' where sub: "sub = x # sub'" by (cases sub) auto
  with Cons.prems have "pre @ c # r = sub' @ c # d" "c \<notin> set pre" by auto
  from Cons.IH [OF this] show ?case by (auto simp: sub)
qed

lemma strip_labels_iff:
  "strip_labels su h \<longleftrightarrow> (\<exists>sub d. h = sub @ ''.'' @ d \<and> d \<in> su)"
proof (induction su h rule: strip_labels.induct)
  case (1 su h)
  show ?case
  proof (cases "find_char CHR ''.'' h")
    case None
    then have "CHR ''.'' \<notin> set h" by (simp add: find_char_None_iff)
    then show ?thesis using None by (subst strip_labels.simps) auto
  next
    case (Some pos)
    define rest where "rest = drop (Suc pos) h"
    from Some obtain pre where h: "h = pre @ CHR ''.'' # rest" and pre: "CHR ''.'' \<notin> set pre"
      unfolding rest_def using find_char_Some by blast
    have "strip_labels su h \<longleftrightarrow> rest \<in> su \<or> strip_labels su rest"
      using Some by (subst strip_labels.simps) (simp add: Let_def rest_def)
    also have "\<dots> \<longleftrightarrow> rest \<in> su \<or> (\<exists>sub d. rest = sub @ ''.'' @ d \<and> d \<in> su)"
      using "1.IH" [OF Some] by (auto simp: rest_def)
    also have "\<dots> \<longleftrightarrow> (\<exists>sub d. h = sub @ ''.'' @ d \<and> d \<in> su)"
    proof
      assume "rest \<in> su \<or> (\<exists>sub d. rest = sub @ ''.'' @ d \<and> d \<in> su)"
      then show "\<exists>sub d. h = sub @ ''.'' @ d \<and> d \<in> su"
      proof
        assume "rest \<in> su"
        then show ?thesis using h by auto
      next
        assume "\<exists>sub d. rest = sub @ ''.'' @ d \<and> d \<in> su"
        then obtain sub d where "rest = sub @ ''.'' @ d" "d \<in> su" by blast
        then show ?thesis using h by (intro exI [of _ "pre @ ''.'' @ sub"] exI [of _ d]) simp
      qed
    next
      assume "\<exists>sub d. h = sub @ ''.'' @ d \<and> d \<in> su"
      then obtain sub d where d: "h = sub @ CHR ''.'' # d" "d \<in> su" by auto
      from split_at_first [OF _ pre, of rest sub d] d h
      show "rest \<in> su \<or> (\<exists>sub d. rest = sub @ ''.'' @ d \<and> d \<in> su)" by auto
    qed
    finally show ?thesis .
  qed
qed

lemma contains_entries:
  "contains bl h \<longleftrightarrow> (\<exists>e \<in> entries bl. entry_blocks e (to_ascii_lowercase h))"
  by (simp add: contains_def Let_def strip_labels_iff entries_def bex_Un) auto

lemma contains_lowercase [simp]: "contains bl (to_ascii_lowercase h) = contains bl h"
  by (simp add: contains_def)

section \<open>Loading establishes the contract\<close>

text \<open>
  A source of lines that makes progress: every line or error it delivers leaves less to read.
  The loop then returns.
\<close>

locale line_source =
  fixes rd :: "'r \<Rightarrow> line_read \<times> 'r"
    and left :: "'r \<Rightarrow> nat"
  assumes progress: "rd r = (x, r') \<Longrightarrow> x \<noteq> Eof \<Longrightarrow> left r' < left r"
begin

lemma parse_lines_returns: "\<exists>res. parse_lines rd r acc = Some res"
proof (induction "left r" arbitrary: r acc rule: less_induct)
  case less
  obtain x r' where rd: "rd r = (x, r')" by (cases "rd r")
  show ?case
  proof (cases x)
    case Eof
    then show ?thesis by (subst parse_lines.simps) (simp add: rd)
  next
    case (Line l)
    then show ?thesis using less [OF progress [OF rd]] by (subst parse_lines.simps) (simp add: rd)
  next
    case ReadError
    then show ?thesis using less [OF progress [OF rd]] by (subst parse_lines.simps) (simp add: rd)
  qed
qed

lemma blocklist_parse_returns: "\<exists>bl. blocklist_parse rd r nm = Some bl"
  using parse_lines_returns [of r "({}, {})"] by (auto simp: blocklist_parse_def)

end

interpretation file_lines: line_source next_line length
proof
  fix r r' :: bytes and x
  assume "next_line r = (x, r')" "x \<noteq> Eof"
  then show "length r' < length r"
    using next_line_shorter [of r] next_line_Eof_iff [of r] by (cases "r = []") auto
qed

text \<open>A reader stuck on an error keeps the loop running forever.\<close>

lemma parse_lines_stuck:
  assumes "rd r = (ReadError, r)"
  shows "parse_lines rd r acc = None"
proof (rule ccontr)
  assume "parse_lines rd r acc \<noteq> None"
  then obtain res where ret: "parse_lines rd r acc = Some res" by auto
  have "rd r \<noteq> (ReadError, r)"
    by (rule parse_lines.raw_induct [where P = "\<lambda>rd r acc res. rd r \<noteq> (ReadError, r)", OF _ ret])
       (auto split: prod.splits line_read.splits)
  with assms show False by simp
qed

text \<open>The lines of a file that could be read, in order.\<close>

function good_lines :: "bytes \<Rightarrow> string list" where
  "good_lines bs =
     (if bs = [] then []
      else (case fst (next_line bs) of Line l \<Rightarrow> [l] | _ \<Rightarrow> []) @ good_lines (snd (next_line bs)))"
  by pat_completeness auto
termination
  by (relation "measure length") (auto dest: next_line_shorter)

declare good_lines.simps [simp del]

lemma parse_lines_file: "parse_lines next_line bs acc = Some (fold add_line (good_lines bs) acc)"
proof (induction bs arbitrary: acc rule: good_lines.induct)
  case (1 bs)
  obtain x rest where nl: "next_line bs = (x, rest)" by (cases "next_line bs")
  show ?case
  proof (cases "bs = []")
    case True
    then show ?thesis
      by (subst parse_lines.simps, subst good_lines.simps) (simp add: next_line_def)
  next
    case False
    then have "x \<noteq> Eof" using nl next_line_Eof_iff [of bs] by auto
    then show ?thesis using nl "1.IH" [OF False]
      by (subst parse_lines.simps, subst good_lines.simps) (cases x; simp add: False)
  qed
qed

lemma fold_add_line:
  "fold add_line ls acc =
     (fst acc \<union> {d. \<exists>l \<in> set ls. entry_of_line l = Some (Exact d)},
      snd acc \<union> {d. \<exists>l \<in> set ls. entry_of_line l = Some (DomainAndSubs d)})"
  by (induction ls arbitrary: acc)
     (auto simp: add_line_def split: option.splits blocklist_entry.splits)

lemma blocklist_parse_file:
  "blocklist_parse next_line bs nm =
     Some \<lparr>exact = {d. \<exists>l \<in> set (good_lines bs). entry_of_line l = Some (Exact d)},
           suffixes = {d. \<exists>l \<in> set (good_lines bs). entry_of_line l = Some (DomainAndSubs d)},
           bl_name = nm\<rparr>"
  by (simp add: blocklist_parse_def parse_lines_file fold_add_line)

lemma entries_blocklist_parse_file:
  "blocklist_parse next_line bs nm = Some bl \<Longrightarrow>
     entries bl = {e. \<exists>l \<in> set (good_lines bs). entry_of_line l = Some e}"
  by (auto simp: blocklist_parse_file entries_def image_iff) (metis blocklist_entry.exhaust)

lemma entry_of_line_wf:
  "entry_of_line l = Some e \<Longrightarrow> case e of Exact d \<Rightarrow> wf_domain d | DomainAndSubs d \<Rightarrow> wf_domain d"
  by (auto simp: entry_of_line_def parse_line_def wf_domain_def Let_def split: option.splits if_splits)

text \<open>Whatever a reader delivers, the entries of a list that is returned are lower-case domains.\<close>

lemma add_line_wf: "\<forall>d \<in> fst acc \<union> snd acc. wf_domain d \<Longrightarrow> \<forall>d \<in> fst (add_line l acc) \<union> snd (add_line l acc). wf_domain d"
  using entry_of_line_wf [of l] by (auto simp: add_line_def split: option.splits blocklist_entry.splits)

lemma parse_lines_wf:
  assumes "parse_lines rd r acc = Some res" "\<forall>d \<in> fst acc \<union> snd acc. wf_domain d"
  shows "\<forall>d \<in> fst res \<union> snd res. wf_domain d"
proof -
  have "(\<forall>d \<in> fst acc \<union> snd acc. wf_domain d) \<longrightarrow> (\<forall>d \<in> fst res \<union> snd res. wf_domain d)"
    by (rule parse_lines.raw_induct [where P = "\<lambda>rd r acc res.
          (\<forall>d \<in> fst acc \<union> snd acc. wf_domain d) \<longrightarrow> (\<forall>d \<in> fst res \<union> snd res. wf_domain d)", OF _ assms(1)])
       (simp split: prod.splits line_read.splits, meson add_line_wf)
  with assms(2) show ?thesis by blast
qed

lemma blocklist_parse_wf: "blocklist_parse rd r nm = Some bl \<Longrightarrow> wf_blocklist bl \<and> bl_name bl = nm"
  using parse_lines_wf [of rd r "({}, {})"] by (force simp: blocklist_parse_def wf_blocklist_def)

lemma blocklist_load_wf: "blocklist_load open_file rd path nm = Some (Inr bl) \<Longrightarrow> wf_blocklist bl \<and> bl_name bl = nm"
  by (auto simp: blocklist_load_def dest: blocklist_parse_wf split: sum.splits)

section \<open>The three formats\<close>

lemma valid_domain_plain: "is_valid_domain d \<Longrightarrow> c \<in> set d \<Longrightarrow> plain_char c"
  by (auto simp: is_valid_domain_def list_all_iff plain_char_def is_ascii_alphanumeric_def
        is_ascii_digit_def is_ascii_upper_def)

lemma alphanumeric_lower: "is_ascii_alphanumeric (to_ascii_lower c) = is_ascii_alphanumeric c"
proof (cases "is_ascii_upper c")
  case True
  then show ?thesis
    by (simp add: is_ascii_alphanumeric_def of_char_lower_upper) (simp add: is_ascii_upper_def)
next
  case False
  then show ?thesis by (simp add: to_ascii_lower_id)
qed

lemma lower_dash_iff [simp]: "to_ascii_lower c = CHR ''-'' \<longleftrightarrow> c = CHR ''-''"
  by (rule to_ascii_lower_eq_iff) (simp_all add: is_ascii_upper_def)

lemma valid_domain_lowercase [simp]: "is_valid_domain (to_ascii_lowercase d) = is_valid_domain d"
  by (auto simp: is_valid_domain_def to_ascii_lowercase_def list_all_iff alphanumeric_lower image_iff)
     (metis to_ascii_lower_dot_iff)+

lemma valid_domain_no_bars:
  assumes "is_valid_domain d" "c \<in> set d"
  shows "c \<noteq> CHR ''^'' \<and> c \<noteq> CHR ''|'' \<and> c \<noteq> CHR ''@'' \<and> c \<noteq> CHR ''#'' \<and> c \<noteq> CHR ''!'' \<and> c \<noteq> CHR '' ''"
  using assms by (auto simp: is_valid_domain_def list_all_iff is_ascii_alphanumeric_def
      is_ascii_digit_def is_ascii_upper_def)

lemma valid_domain_localhost [simp]: "\<not> is_valid_domain ''localhost''"
  by (simp add: is_valid_domain_def)

lemma entry_of_bare_domain:
  assumes "is_valid_domain d"
  shows "entry_of_line d = Some (Exact (to_ascii_lowercase d))"
proof -
  have plain: "\<forall>c \<in> set d. plain_char c" using valid_domain_plain [OF assms] by blast
  have ne: "d \<noteq> []" using assms by (simp add: is_valid_domain_def)
  then have hd: "hd d \<in> set d" by simp
  have "strip_prefix ''||'' d = None" "\<not> starts_with ''@@'' d" "\<not> starts_with ''#'' d" "\<not> starts_with ''!'' d"
    using valid_domain_no_bars [OF assms hd] ne
    by (cases d; auto simp: strip_prefix_def starts_with_def)+
  then show ?thesis
    using assms ne by (simp add: entry_of_line_def trim_plain [OF plain] parse_line_def
        split_whitespace_plain [OF plain ne])
qed

lemma entry_of_adblock_line:
  assumes "is_valid_domain d"
  shows "entry_of_line (''||'' @ d @ ''^'') = Some (DomainAndSubs (to_ascii_lowercase d))"
proof -
  have plain: "\<forall>c \<in> set d. plain_char c" using valid_domain_plain [OF assms] by blast
  then have "\<forall>c \<in> set (''||'' @ d @ ''^''). plain_char c" by (auto simp: plain_char_def)
  then have "trim (''||'' @ d @ ''^'') = ''||'' @ d @ ''^''" by (rule trim_plain)
  moreover have "trim_end_matches (\<lambda>c. c = CHR ''^'' \<or> c = CHR ''|'') (d @ ''^'') = d"
  proof -
    have ne: "d \<noteq> []" using assms by (simp add: is_valid_domain_def)
    then have "last d \<in> set d" by simp
    then show ?thesis
      using valid_domain_no_bars [OF assms]
      by (simp add: trim_end_matches_append) (auto intro: trim_end_matches_id)
  qed
  moreover have "strip_prefix ''||'' (''||'' @ d @ ''^'') = Some (d @ ''^'')"
    by (simp add: strip_prefix_Some_iff)
  ultimately show ?thesis
    using assms by (simp add: entry_of_line_def parse_line_def starts_with_def trim_plain [OF plain])
qed

lemma entry_of_hosts_line:
  assumes "is_valid_domain d" "\<forall>c \<in> set ip. plain_char c" "is_ascii_digit (hd ip)" "ip \<noteq> []"
  shows "entry_of_line (ip @ '' '' @ d) = Some (Exact (to_ascii_lowercase d))"
proof -
  have plain: "\<forall>c \<in> set d. plain_char c" using valid_domain_plain [OF assms(1)] by blast
  have ne: "d \<noteq> []" using assms by (simp add: is_valid_domain_def)
  obtain c ip' where ip: "ip = c # ip'" and c: "is_ascii_digit c" using assms(3,4) by (cases ip) auto
  have start: "trim_start (ip @ '' '' @ d) = ip @ '' '' @ d"
    using assms(2) ip by (subst trim_start.simps) simp
  have "plain_char (last d)" using plain ne by simp
  then have "trim_rev (rev (ip @ '' '' @ d)) = rev (ip @ '' '' @ d)"
    using ne by (subst trim_rev.simps) (cases d rule: rev_cases; simp)
  with start have tr: "trim (ip @ '' '' @ d) = ip @ '' '' @ d" by (simp add: trim_def)
  have no: "strip_prefix ''||'' (ip @ '' '' @ d) = None" "\<not> starts_with ''@@'' (ip @ '' '' @ d)"
    "\<not> starts_with ''#'' (ip @ '' '' @ d)" "\<not> starts_with ''!'' (ip @ '' '' @ d)"
    using c by (auto simp: ip strip_prefix_def starts_with_def is_ascii_digit_def)
  have sp: "split_whitespace (ip @ '' '' @ d) = [ip, d]"
    by (rule split_whitespace_two) (use assms plain ne in auto)
  have "to_ascii_lowercase d \<noteq> ''localhost''"
    using assms(1) valid_domain_lowercase [of d] valid_domain_localhost by metis
  moreover have "looks_like_ip ip" using c by (simp add: ip looks_like_ip_def)
  ultimately show ?thesis
    using assms(1,4) tr no sp by (simp add: entry_of_line_def parse_line_def Let_def)
qed

text \<open>Reading a text gives its lines back, when they are printable.\<close>

definition unlines :: "string list \<Rightarrow> string" where
  "unlines ls = concat (map (\<lambda>l. l @ ''\<newline>'') ls)"

lemma good_lines_unlines: "list_all printable ls \<Longrightarrow> good_lines (as_bytes (unlines ls)) = ls"
proof (induction ls)
  case (Cons l ls)
  have b: "as_bytes (unlines (l # ls)) = as_bytes l @ 10 # as_bytes (unlines ls)"
    by (simp add: unlines_def as_bytes_def byte_of_def)
  have "next_line (as_bytes (unlines (l # ls))) = (Line l, as_bytes (unlines ls))"
    using printable_bytes [of l] Cons.prems unfolding b
    by (auto simp: next_line_def split_line_newline strip_eol_def ascii_valid Let_def dest: last_in_set)
  then show ?case using Cons by (subst good_lines.simps) (simp add: b)
qed (simp add: unlines_def good_lines.simps as_bytes_def)

section \<open>Printed lists\<close>

text \<open>The lines list files are made of, and how they are written.\<close>

datatype list_line =
    HostsLine string string
  | DomainLine string
  | AdblockLine string
  | CommentLine string
  | BlankLine

fun render_line :: "list_line \<Rightarrow> string" where
  "render_line (HostsLine ip d) = ip @ '' '' @ d"
| "render_line (DomainLine d) = d"
| "render_line (AdblockLine d) = ''||'' @ d @ ''^''"
| "render_line (CommentLine c) = ''#'' @ c"
| "render_line BlankLine = []"

fun line_ok :: "list_line \<Rightarrow> bool" where
  "line_ok (HostsLine ip d) \<longleftrightarrow> is_valid_domain d \<and> ip \<noteq> [] \<and> list_all plain_char ip \<and> is_ascii_digit (hd ip)"
| "line_ok (DomainLine d) \<longleftrightarrow> is_valid_domain d"
| "line_ok (AdblockLine d) \<longleftrightarrow> is_valid_domain d"
| "line_ok (CommentLine c) \<longleftrightarrow> printable c"
| "line_ok BlankLine \<longleftrightarrow> True"

fun line_entry :: "list_line \<Rightarrow> blocklist_entry option" where
  "line_entry (HostsLine ip d) = Some (Exact (to_ascii_lowercase d))"
| "line_entry (DomainLine d) = Some (Exact (to_ascii_lowercase d))"
| "line_entry (AdblockLine d) = Some (DomainAndSubs (to_ascii_lowercase d))"
| "line_entry _ = None"

lemma plain_printable: "plain_char c \<Longrightarrow> printable [c]"
  by (simp add: plain_char_def printable_def)

lemma printable_append [simp]: "printable (s @ t) \<longleftrightarrow> printable s \<and> printable t"
  by (simp add: printable_def)

lemma valid_domain_printable: "is_valid_domain d \<Longrightarrow> printable d"
  using valid_domain_plain [of d] by (fastforce simp: plain_char_def printable_def list_all_iff)

lemma render_printable: "line_ok l \<Longrightarrow> printable (render_line l)"
proof (cases l)
  case (HostsLine ip d)
  assume "line_ok l"
  then show ?thesis
    using HostsLine valid_domain_printable [of d] by (auto simp: printable_def plain_char_def list_all_iff)
qed (auto dest: valid_domain_printable simp: printable_def)

lemma trim_rev_keeps_first:
  "printable r \<Longrightarrow> plain_char x \<Longrightarrow> \<exists>r'. trim_rev (r @ [x]) = r' @ [x]"
proof (induction r)
  case Nil
  then show ?case by (subst trim_rev.simps) simp
next
  case (Cons c r)
  then have "ws_suffix (c # r @ [x]) = (if (of_char c :: nat) = 32 then 1 else 0)"
    by (auto simp: ws_suffix_def byte_at_def ws1_def ws2_def ws3_def printable_def)
  then show ?case using Cons by (subst trim_rev.simps) (auto simp: printable_def)
qed

lemma comment_skipped: "printable c \<Longrightarrow> entry_of_line (''#'' @ c) = None"
proof -
  assume "printable c"
  then obtain r where "trim_rev (rev c @ [CHR ''#'']) = r @ [CHR ''#'']"
    using trim_rev_keeps_first [of "rev c" "CHR ''#''"] by (auto simp: printable_def plain_char_def)
  moreover have "trim_start (''#'' @ c) = ''#'' @ c"
    by (subst trim_start.simps) (simp add: plain_char_def)
  ultimately have "trim (''#'' @ c) = CHR ''#'' # rev r" by (simp add: trim_def)
  then show ?thesis by (simp add: entry_of_line_def starts_with_def)
qed

lemma entry_of_rendered: "line_ok l \<Longrightarrow> entry_of_line (render_line l) = line_entry l"
proof (cases l)
  case BlankLine
  have "entry_of_line [] = None" by code_simp
  with BlankLine show ?thesis by simp
next
  case (HostsLine ip d)
  assume "line_ok l"
  with HostsLine show ?thesis using entry_of_hosts_line [of d ip] by (auto simp: list_all_iff)
qed (use entry_of_bare_domain entry_of_adblock_line comment_skipped in \<open>auto\<close>)

section \<open>Properties\<close>

text \<open>
  (C12) The lookup that strips one label at a time answers as the plain reading of the list does:
  the name is listed exactly, or it is a listed domain or lies below one.
\<close>

theorem contains_iff_listed:
  "contains bl h \<longleftrightarrow>
     to_ascii_lowercase h \<in> exact bl \<or>
     (\<exists>d \<in> suffixes bl. to_ascii_lowercase h = d \<or> (\<exists>sub. to_ascii_lowercase h = sub @ ''.'' @ d))"
  by (simp add: contains_entries entries_def bex_Un)

text \<open>
  (C29) Loading a file always returns a list. It has exactly the entries of the file's readable lines:
  a domain is listed exactly, or with its subdomains, if and only if a line says so, and nothing else
  is listed, whatever the order of the lines. All entries are lower-case valid domain names, and a
  query on the list is answered by them.
\<close>

theorem blocklist_file_contract:
  "\<exists>bl. blocklist_parse next_line bs nm = Some bl \<and>
     bl = \<lparr>exact = {d. \<exists>l. l \<in> set (good_lines bs) \<and> entry_of_line l = Some (Exact d)},
           suffixes = {d. \<exists>l. l \<in> set (good_lines bs) \<and> entry_of_line l = Some (DomainAndSubs d)},
           bl_name = nm\<rparr> \<and>
     wf_blocklist bl \<and>
     (\<forall>h. contains bl h \<longleftrightarrow>
        (\<exists>l e. l \<in> set (good_lines bs) \<and> entry_of_line l = Some e \<and>
               entry_blocks e (to_ascii_lowercase h)))"
proof -
  obtain bl where bl: "blocklist_parse next_line bs nm = Some bl"
    using file_lines.blocklist_parse_returns by blast
  moreover from bl have "bl = \<lparr>exact = {d. \<exists>l. l \<in> set (good_lines bs) \<and> entry_of_line l = Some (Exact d)},
      suffixes = {d. \<exists>l. l \<in> set (good_lines bs) \<and> entry_of_line l = Some (DomainAndSubs d)}, bl_name = nm\<rparr>"
    by (simp add: blocklist_parse_file Bex_def)
  moreover have "contains bl h \<longleftrightarrow>
      (\<exists>l e. l \<in> set (good_lines bs) \<and> entry_of_line l = Some e \<and> entry_blocks e (to_ascii_lowercase h))" for h
    using entries_blocklist_parse_file [OF bl] by (auto simp: contains_entries)
  ultimately show ?thesis using blocklist_parse_wf [OF bl] by metis
qed

text \<open>
  (C30) A list that is written out and loaded comes back: for any sequence of hosts-file, bare-domain
  and AdBlock lines with valid domains, comments and blank lines, loading the file returns a list
  with exactly the entries the lines stand for, and comments and blank lines leave no trace.
\<close>

theorem printed_list_loads:
  assumes "list_all line_ok ls"
  shows "blocklist_parse next_line (as_bytes (unlines (map render_line ls))) nm =
     Some \<lparr>exact = {d. Some (Exact d) \<in> line_entry ` set ls},
           suffixes = {d. Some (DomainAndSubs d) \<in> line_entry ` set ls}, bl_name = nm\<rparr>"
proof -
  have "list_all printable (map render_line ls)"
    using assms render_printable by (auto simp: list_all_iff)
  then have "good_lines (as_bytes (unlines (map render_line ls))) = map render_line ls"
    by (rule good_lines_unlines)
  then show ?thesis
    using assms entry_of_rendered by (auto simp: blocklist_parse_file list_all_iff image_iff) (metis, metis)+
qed

theorem printed_list_loads_witness:
  "blocklist_parse next_line (as_bytes (unlines [''# ads'', ''0.0.0.0 ad.test'', [], ''||Track.test^''])) ''x'' =
     Some \<lparr>exact = {''ad.test''}, suffixes = {''track.test''}, bl_name = ''x''\<rparr>"
proof -
  let ?ls = "[CommentLine '' ads'', HostsLine ''0.0.0.0'' ''ad.test'', BlankLine, AdblockLine ''Track.test'']"
  have "list_all line_ok ?ls" by code_simp
  moreover have "to_ascii_lowercase ''ad.test'' = ''ad.test''" "to_ascii_lowercase ''Track.test'' = ''track.test''"
    by code_simp+
  ultimately show ?thesis using printed_list_loads [of ?ls "''x''"] by simp
qed

text \<open>
  (C31) Loading never returns when the opened file can only be read with an error, as a directory
  is: every failed read is skipped and tried again.
\<close>

theorem blocklist_load_never_returns:
  assumes "open_file path = Inr r" "rd r = (ReadError, r)"
  shows "blocklist_load open_file rd path nm = None"
  using assms by (simp add: blocklist_load_def blocklist_parse_def parse_lines_stuck)

theorem blocklist_load_never_returns_witness:
  "blocklist_load (\<lambda>_. Inr ()) (\<lambda>_. (ReadError, ())) ''/etc/deezns/lists'' ''lists'' = None"
  by (rule blocklist_load_never_returns [where r = "()"]) simp_all

end
