(* ===== verification/Net.thy ===== *)
theory Net
  imports Prelude
begin

text \<open>
  The address types of \<open>std::net\<close> the sources use: IPv4 and IPv6 addresses as 32 and 128 bit
  words, socket addresses, and the operations on them (octets, IPv4-mapped addresses, the
  unspecified address).
\<close>

datatype ip_addr = V4 "32 word" | V6 "128 word"

record socket_addr =
  sa_ip :: ip_addr
  sa_port :: u16

definition ipv4_new :: "byte \<Rightarrow> byte \<Rightarrow> byte \<Rightarrow> byte \<Rightarrow> 32 word" where
  "ipv4_new a b c d = from_be_bytes [a, b, c, d]"

definition octets :: "ip_addr \<Rightarrow> bytes" where
  "octets ip = (case ip of V4 a \<Rightarrow> to_be_bytes 4 a | V6 a \<Rightarrow> to_be_bytes 16 a)"

definition is_ipv4 :: "ip_addr \<Rightarrow> bool" where
  "is_ipv4 ip \<longleftrightarrow> (case ip of V4 _ \<Rightarrow> True | V6 _ \<Rightarrow> False)"

definition is_unspecified :: "ip_addr \<Rightarrow> bool" where
  "is_unspecified ip \<longleftrightarrow> (case ip of V4 a \<Rightarrow> a = 0 | V6 a \<Rightarrow> a = 0)"

text \<open>\<open>::ffff:a.b.c.d\<close> is the IPv4 address \<open>a.b.c.d\<close>.\<close>

definition to_canonical :: "ip_addr \<Rightarrow> ip_addr" where
  "to_canonical ip =
     (case ip of
        V4 a \<Rightarrow> V4 a
      | V6 a \<Rightarrow> if drop_bit 32 a = 0xFFFF then V4 (ucast a) else V6 a)"

lemma length_octets: "length (octets ip) = (if is_ipv4 ip then 4 else 16)"
  by (simp add: octets_def is_ipv4_def split: ip_addr.split)

lemma to_canonical_idem [simp]: "to_canonical (to_canonical ip) = to_canonical ip"
  by (simp add: to_canonical_def split: ip_addr.split)

definition to_ipv6_mapped :: "32 word \<Rightarrow> 128 word" where
  "to_ipv6_mapped a = push_bit 32 0xFFFF OR ucast a"

lemma drop_bit_ucast32: "drop_bit 32 (ucast (a :: 32 word) :: 128 word) = 0"
  by (rule bit_word_eqI) (auto simp: bit_drop_bit_eq bit_ucast_iff dest: bit_imp_le_length)

lemma ucast_push_or: "ucast (push_bit 32 (x :: 128 word) OR ucast (a :: 32 word)) = a"
  by (rule bit_word_eqI) (auto simp: bit_ucast_iff bit_or_iff bit_push_bit_iff)

lemma to_canonical_mapped: "to_canonical (V6 (to_ipv6_mapped a)) = V4 a"
proof -
  have "drop_bit 32 (push_bit 32 (0xFFFF :: 128 word)) = 0xFFFF" by simp
  then have hi: "drop_bit 32 (to_ipv6_mapped a) = 0xFFFF"
    by (simp add: to_ipv6_mapped_def drop_bit_or drop_bit_ucast32)
  have lo: "ucast (to_ipv6_mapped a) = a"
    unfolding to_ipv6_mapped_def by (rule ucast_push_or)
  from hi lo show ?thesis by (simp add: to_canonical_def)
qed

end
