(* ===== verification/Policy.thy ===== *)
theory Policy
  imports Blocklist Net
begin

text \<open>
  The policy engine (\<open>src/policy.rs\<close>): the configuration types, the canonical form of host names,
  the caller's identity as rules see it, and the compiled engine with its first-match evaluation.
  The CEL interpreter and the TOML parser are not part of the repository: compiled programs are a
  type variable, and compiling, executing and parsing are parameters of the definitions. The
  interface \<open>policy_judge\<close> is what the front-ends rely on.
\<close>

section \<open>Configuration\<close>

datatype default_verdict = DefaultPassthrough | DefaultDeny

datatype rule_verdict = RuleAllow | RuleDeny | RulePassthrough

record rule_config =
  rc_note :: string
  rc_expr :: string
  rc_verdict :: rule_verdict

record blocklist_config =
  bc_name :: string
  bc_path :: string

definition enabled :: bool where
  "enabled = True"

record nscd_frontend_config =
  nf_enable :: bool
  nf_listen :: string
  nf_upstream :: string

record dns_frontend_config =
  df_enable :: bool
  df_listen :: socket_addr
  df_upstream :: "socket_addr option"
  df_upstream_timeout_ms :: u64
  df_identify_processes :: bool

record nss_frontend_config =
  ns_enable :: bool

definition default_upstream_timeout_ms :: u64 where
  "default_upstream_timeout_ms = 5000"

definition default_passthrough :: default_verdict where
  "default_passthrough = DefaultPassthrough"

record policy_config =
  pc_default_verdict :: default_verdict
  pc_blocklists :: "blocklist_config list"
  pc_rules :: "rule_config list"
  pc_nscd_user :: "string option"
  pc_nscd_frontend :: "nscd_frontend_config option"
  pc_dns_frontend :: "dns_frontend_config option"
  pc_nss_frontend :: "nss_frontend_config option"

text \<open>The configuration of a file that sets nothing.\<close>

definition empty_config :: policy_config where
  "empty_config =
     \<lparr>pc_default_verdict = default_passthrough, pc_blocklists = [], pc_rules = [],
      pc_nscd_user = None, pc_nscd_frontend = None, pc_dns_frontend = None,
      pc_nss_frontend = None\<rparr>"

datatype 't config_file_error = ReadFailed io_error | TomlFailed 't

definition config_from_path ::
  "(string \<Rightarrow> string io_result) \<Rightarrow> (string \<Rightarrow> 't + policy_config) \<Rightarrow> string
     \<Rightarrow> 't config_file_error + policy_config"
where
  "config_from_path read_to_string toml path =
     (case read_to_string path of
        Inl e \<Rightarrow> Inl (ReadFailed e)
      | Inr txt \<Rightarrow> (case toml txt of Inl e \<Rightarrow> Inl (TomlFailed e) | Inr cfg \<Rightarrow> Inr cfg))"

definition filter_option :: "('a \<Rightarrow> bool) \<Rightarrow> 'a option \<Rightarrow> 'a option" where
  "filter_option P x = (case x of Some a \<Rightarrow> if P a then Some a else None | None \<Rightarrow> None)"

definition config_nscd :: "policy_config \<Rightarrow> nscd_frontend_config option" where
  "config_nscd cfg = filter_option nf_enable (pc_nscd_frontend cfg)"

definition config_dns :: "policy_config \<Rightarrow> dns_frontend_config option" where
  "config_dns cfg = filter_option df_enable (pc_dns_frontend cfg)"

definition config_nss :: "policy_config \<Rightarrow> bool" where
  "config_nss cfg = (case pc_nss_frontend cfg of Some front \<Rightarrow> ns_enable front | None \<Rightarrow> False)"

section \<open>Names and callers\<close>

definition canonical_hostname :: "string \<Rightarrow> string" where
  "canonical_hostname nm =
     (let lower = to_ascii_lowercase nm;
          trimmed = trim_end_matches (\<lambda>c. c = CHR ''.'') lower
      in if trimmed = [] then ''.'' else trimmed)"

record caller =
  uid :: "u32 option"
  gid :: "u32 option"
  pid :: "i32 option"

definition caller_new :: "u32 \<Rightarrow> u32 \<Rightarrow> i32 \<Rightarrow> caller" where
  "caller_new u g p = \<lparr>uid = Some u, gid = Some g, pid = Some p\<rparr>"

definition caller_unknown :: caller where
  "caller_unknown = \<lparr>uid = None, gid = None, pid = None\<rparr>"

text \<open>The 64-bit integers rules see; an unknown id is \<open>-1\<close>.\<close>

definition uid_value :: "caller \<Rightarrow> int" where
  "uid_value c = (case uid c of None \<Rightarrow> -1 | Some u \<Rightarrow> uint u)"

definition gid_value :: "caller \<Rightarrow> int" where
  "gid_value c = (case gid c of None \<Rightarrow> -1 | Some g \<Rightarrow> uint g)"

definition pid_value :: "caller \<Rightarrow> int" where
  "pid_value c = (case pid c of None \<Rightarrow> -1 | Some p \<Rightarrow> sint p)"

section \<open>The compiled engine\<close>

datatype policy_verdict = Denied string | PassThrough | Allowed

text \<open>
  Values of the CEL interpreter: the engine tells \<open>Value::Bool\<close> from every other variant. The
  context is what a rule can refer to: four variables and one function.
\<close>

datatype 'v cel_value = CelBool bool | CelOther 'v

record cel_context =
  cx_hostname :: string
  cx_uid :: int
  cx_gid :: int
  cx_pid :: int
  cx_blocked_by :: "string \<Rightarrow> bool"

type_synonym ('p, 'e, 'v) cel_execute = "'p \<Rightarrow> cel_context \<Rightarrow> 'e + 'v cel_value"

record 'p compiled_rule =
  cr_note :: string
  cr_program :: 'p
  cr_verdict :: rule_verdict

record 'p policy_engine =
  pe_rules :: "'p compiled_rule list"
  pe_blocklists :: "string \<rightharpoonup> blocklist"
  pe_default_verdict :: default_verdict

datatype 'e engine_error = LoadError io_error | CompileError nat string 'e

fun load_blocklists ::
  "(string \<Rightarrow> 'r io_result) \<Rightarrow> ('r \<Rightarrow> line_read \<times> 'r) \<Rightarrow> blocklist_config list
     \<Rightarrow> (string \<rightharpoonup> blocklist) \<Rightarrow> ('e engine_error + (string \<rightharpoonup> blocklist)) option"
where
  "load_blocklists open_file rd [] m = Some (Inr m)"
| "load_blocklists open_file rd (c # cs) m =
     (case blocklist_load open_file rd (bc_path c) (bc_name c) of
        None \<Rightarrow> None
      | Some (Inl e) \<Rightarrow> Some (Inl (LoadError e))
      | Some (Inr bl) \<Rightarrow> load_blocklists open_file rd cs (m(bc_name c \<mapsto> bl)))"

fun compile_rules ::
  "(string \<Rightarrow> 'e + 'p) \<Rightarrow> nat \<Rightarrow> rule_config list \<Rightarrow> 'e engine_error + 'p compiled_rule list"
where
  "compile_rules compile i [] = Inr []"
| "compile_rules compile i (r # rs) =
     (case compile (rc_expr r) of
        Inl e \<Rightarrow> Inl (CompileError i (rc_note r) e)
      | Inr p \<Rightarrow>
          (case compile_rules compile (i + 1) rs of
             Inl e \<Rightarrow> Inl e
           | Inr crs \<Rightarrow>
               Inr (\<lparr>cr_note = rc_note r, cr_program = p, cr_verdict = rc_verdict r\<rparr> # crs)))"

definition engine_from_config ::
  "(string \<Rightarrow> 'r io_result) \<Rightarrow> ('r \<Rightarrow> line_read \<times> 'r) \<Rightarrow> (string \<Rightarrow> 'e + 'p) \<Rightarrow> policy_config
     \<Rightarrow> ('e engine_error + 'p policy_engine) option"
where
  "engine_from_config open_file rd compile cfg =
     (case load_blocklists open_file rd (pc_blocklists cfg) Map.empty of
        None \<Rightarrow> None
      | Some (Inl e) \<Rightarrow> Some (Inl e)
      | Some (Inr m) \<Rightarrow>
          (case compile_rules compile 0 (pc_rules cfg) of
             Inl e \<Rightarrow> Some (Inl e)
           | Inr rules \<Rightarrow>
               Some (Inr \<lparr>pe_rules = rules, pe_blocklists = m,
                          pe_default_verdict = pc_default_verdict cfg\<rparr>)))"

text \<open>Membership of the queried name in every list, computed before any rule runs.\<close>

definition bl_results :: "'p policy_engine \<Rightarrow> string \<Rightarrow> (string \<rightharpoonup> bool)" where
  "bl_results eng hostname = (\<lambda>nm. map_option (\<lambda>bl. contains bl hostname) (pe_blocklists eng nm))"

definition cel_context_for :: "'p policy_engine \<Rightarrow> string \<Rightarrow> caller \<Rightarrow> cel_context" where
  "cel_context_for eng hostname c =
     \<lparr>cx_hostname = hostname, cx_uid = uid_value c, cx_gid = gid_value c, cx_pid = pid_value c,
      cx_blocked_by =
        (\<lambda>nm. case bl_results eng hostname nm of Some b \<Rightarrow> b | None \<Rightarrow> False)\<rparr>"

definition rule_outcome :: "'p compiled_rule \<Rightarrow> policy_verdict" where
  "rule_outcome r =
     (case cr_verdict r of
        RuleAllow \<Rightarrow> Allowed
      | RuleDeny \<Rightarrow> Denied (''matched rule: '' @ cr_note r)
      | RulePassthrough \<Rightarrow> PassThrough)"

fun evaluate_rules ::
  "('p, 'e, 'v) cel_execute \<Rightarrow> cel_context \<Rightarrow> 'p compiled_rule list \<Rightarrow> policy_verdict option"
where
  "evaluate_rules execute ctx [] = None"
| "evaluate_rules execute ctx (r # rs) =
     (case execute (cr_program r) ctx of
        Inr (CelBool True) \<Rightarrow> Some (rule_outcome r)
      | Inr _ \<Rightarrow> evaluate_rules execute ctx rs
      | Inl e \<Rightarrow> evaluate_rules execute ctx rs)"

definition evaluate_for ::
  "('p, 'e, 'v) cel_execute \<Rightarrow> 'p policy_engine \<Rightarrow> string \<Rightarrow> caller \<Rightarrow> policy_verdict"
where
  "evaluate_for execute eng hostname c =
     (let hostname_lower = canonical_hostname hostname in
      case evaluate_rules execute (cel_context_for eng hostname_lower c) (pe_rules eng) of
        Some v \<Rightarrow> v
      | None \<Rightarrow>
          (case pe_default_verdict eng of
             DefaultPassthrough \<Rightarrow> PassThrough
           | DefaultDeny \<Rightarrow> Denied (hostname_lower @ '' denied by default policy'')))"

definition evaluate ::
  "('p, 'e, 'v) cel_execute \<Rightarrow> 'p policy_engine \<Rightarrow> string \<Rightarrow> u32 \<Rightarrow> u32 \<Rightarrow> i32 \<Rightarrow> policy_verdict"
where
  "evaluate execute eng hostname u g p = evaluate_for execute eng hostname (caller_new u g p)"

section \<open>Canonical names\<close>

lemma lowercase_trim_dots:
  "to_ascii_lowercase (trim_end_matches (\<lambda>c. c = CHR ''.'') s) =
     trim_end_matches (\<lambda>c. c = CHR ''.'') (to_ascii_lowercase s)"
  by (simp add: trim_end_matches_def to_ascii_lowercase_def rev_map dropWhile_map comp_def)

lemma lower_dot [simp]: "to_ascii_lower CHR ''.'' = CHR ''.''"
  by (simp add: to_ascii_lower_id is_ascii_upper_def)

lemma canonical_hostname_root [simp]: "canonical_hostname ''.'' = ''.''"
  by (simp add: canonical_hostname_def trim_end_matches_def)

lemma canonical_hostname_idem [simp]:
  "canonical_hostname (canonical_hostname h) = canonical_hostname h"
proof (cases "trim_end_matches (\<lambda>c. c = CHR ''.'') (to_ascii_lowercase h) = []")
  case True
  then have "canonical_hostname h = ''.''" by (simp add: canonical_hostname_def)
  then show ?thesis by simp
next
  case False
  then have "canonical_hostname h = trim_end_matches (\<lambda>c. c = CHR ''.'') (to_ascii_lowercase h)"
    by (simp add: canonical_hostname_def)
  with False show ?thesis
    by (simp add: canonical_hostname_def Let_def lowercase_trim_dots)
qed

lemma canonical_hostname_lowercase:
  "to_ascii_lowercase (canonical_hostname h) = canonical_hostname h"
  by (simp add: canonical_hostname_def Let_def lowercase_trim_dots to_ascii_lower_id is_ascii_upper_def)

lemma canonical_hostname_of_lowercase [simp]:
  "canonical_hostname (to_ascii_lowercase h) = canonical_hostname h"
  by (simp add: canonical_hostname_def)

lemma canonical_hostname_dot [simp]: "canonical_hostname (h @ ''.'') = canonical_hostname h"
  by (simp add: canonical_hostname_def Let_def trim_end_matches_append to_ascii_lower_id is_ascii_upper_def)

lemma canonical_hostname_ne [simp]: "canonical_hostname h \<noteq> []"
  by (simp add: canonical_hostname_def Let_def)

lemma canonical_hostname_last:
  "canonical_hostname h \<noteq> ''.'' \<Longrightarrow> last (canonical_hostname h) \<noteq> CHR ''.''"
  using trim_end_matches_last [of "\<lambda>c. c = CHR ''.''" "to_ascii_lowercase h"]
  by (auto simp: canonical_hostname_def Let_def split: if_splits)

lemma canonical_hostname_fixed:
  "\<forall>c \<in> set h. \<not> is_ascii_upper c \<Longrightarrow> h \<noteq> [] \<Longrightarrow> last h \<noteq> CHR ''.'' \<Longrightarrow> canonical_hostname h = h"
  using to_ascii_lowercase_id_iff [of h]
  by (simp add: canonical_hostname_def Let_def trim_end_matches_id)

section \<open>What callers look like to rules\<close>

lemma uint32_bounds: "0 \<le> uint (w :: u32) \<and> uint w < 2 ^ 32"
  using uint_bounded [of w] by auto

lemma sint32_bounds: "- (2 ^ 31) \<le> sint (w :: i32) \<and> sint w < 2 ^ 31"
  using sint_greater_eq [of w] sint_less [of w] by simp

lemma uint_not_minus_one: "uint (w :: 'a::len word) \<noteq> -1"
  using unsigned_greater_eq [of w, where 'a = int] by linarith

lemma uid_value_unknown_iff: "uid_value c = -1 \<longleftrightarrow> uid c = None"
  by (simp add: uid_value_def uint_not_minus_one split: option.splits)

lemma gid_value_unknown_iff: "gid_value c = -1 \<longleftrightarrow> gid c = None"
  by (simp add: gid_value_def uint_not_minus_one split: option.splits)

section \<open>First match wins\<close>

definition fires :: "('p, 'e, 'v) cel_execute \<Rightarrow> cel_context \<Rightarrow> 'p compiled_rule \<Rightarrow> bool" where
  "fires execute ctx r \<longleftrightarrow> execute (cr_program r) ctx = Inr (CelBool True)"

definition default_outcome :: "default_verdict \<Rightarrow> string \<Rightarrow> policy_verdict" where
  "default_outcome dv h =
     (case dv of DefaultPassthrough \<Rightarrow> PassThrough
      | DefaultDeny \<Rightarrow> Denied (h @ '' denied by default policy''))"

lemma evaluate_rules_find:
  "evaluate_rules execute ctx rs = map_option rule_outcome (find (fires execute ctx) rs)"
  by (induction rs) (auto simp: fires_def split: sum.split cel_value.split bool.split)

lemma evaluate_for_find:
  "evaluate_for execute eng h c =
     (case find (fires execute (cel_context_for eng (canonical_hostname h) c)) (pe_rules eng) of
        Some r \<Rightarrow> rule_outcome r
      | None \<Rightarrow> default_outcome (pe_default_verdict eng) (canonical_hostname h))"
  by (simp add: evaluate_for_def evaluate_rules_find default_outcome_def Let_def split: option.split)

lemma find_filter_same: "(\<And>x. P x \<Longrightarrow> Q x) \<Longrightarrow> find P (filter Q xs) = find P xs"
  by (induction xs) auto

lemma find_append: "find P (xs @ ys) = (case find P xs of None \<Rightarrow> find P ys | Some x \<Rightarrow> Some x)"
  by (induction xs) simp_all

lemma find_split: "\<forall>x \<in> set pre. \<not> P x \<Longrightarrow> P r \<Longrightarrow> find P (pre @ r # post) = Some r"
  by (induction pre) auto

lemma find_None: "\<forall>x \<in> set xs. \<not> P x \<Longrightarrow> find P xs = None"
  by (simp add: find_None_iff)

section \<open>The interface of the front-ends\<close>

text \<open>
  A front-end asks one question of the policy: the verdict on a name for a caller. It relies on
  the verdict being about the canonical name, however the client spelled it.
\<close>

locale policy_judge =
  fixes judge :: "string \<Rightarrow> caller \<Rightarrow> policy_verdict"
    and canon :: "string \<Rightarrow> string"
  assumes judge_canon: "judge (canon h) c = judge h c"
begin

lemma same_name: "canon h = canon h' \<Longrightarrow> judge h c = judge h' c"
  by (metis judge_canon)

end

lemma evaluate_for_canonical:
  "evaluate_for execute eng (canonical_hostname h) c = evaluate_for execute eng h c"
  by (simp add: evaluate_for_def)

interpretation engine_judge: policy_judge "evaluate_for execute eng" canonical_hostname
  for execute eng
  by unfold_locales (rule evaluate_for_canonical)

text \<open>
  The contract of a front-end over the judge: a request that asks about a name is answered, for a
  caller to whom that name is denied, by a refusal, and nothing is sent anywhere. \<open>asked\<close> is the
  name of a request that is subject to the policy, \<open>respond\<close> what the front-end sends to its
  upstream and what it answers.
\<close>

locale policy_frontend = policy_judge judge canon
  for judge :: "string \<Rightarrow> caller \<Rightarrow> policy_verdict" and canon :: "string \<Rightarrow> string" +
  fixes asked :: "'req \<Rightarrow> caller \<Rightarrow> string option"
    and respond :: "'req \<Rightarrow> caller \<Rightarrow> 'event list \<times> 'reply"
    and refusal :: "'req \<Rightarrow> string \<Rightarrow> 'reply"
  assumes denied: "asked r c = Some h \<Longrightarrow> judge h c = Denied why \<Longrightarrow> respond r c = ([], refusal r why)"
begin

lemma refused_any_spelling:
  "asked r c = Some h \<Longrightarrow> canon h = canon h' \<Longrightarrow> judge h' c = Denied why \<Longrightarrow>
     respond r c = ([], refusal r why)"
  using denied same_name by metis

lemma sent_not_denied:
  "fst (respond r c) \<noteq> [] \<Longrightarrow> asked r c = Some h \<Longrightarrow> judge h c \<noteq> Denied why"
  using denied by fastforce

end

section \<open>Loading an engine\<close>

lemma blocklist_load_file:
  "blocklist_load open_file next_line path nm =
     Some (case open_file path of Inl e \<Rightarrow> Inl e | Inr bs \<Rightarrow> Inr (the (blocklist_parse next_line bs nm)))"
  by (auto simp: blocklist_load_def blocklist_parse_file split: sum.split)

lemma load_blocklists_file:
  fixes open_file :: "string \<Rightarrow> bytes io_result"
  shows "\<exists>res :: 'e engine_error + (string \<rightharpoonup> blocklist).
     load_blocklists open_file next_line cs m = Some res \<and>
     isl res = list_ex (\<lambda>c. isl (open_file (bc_path c))) cs"
  by (induction cs arbitrary: m) (auto simp: blocklist_load_file split: sum.split)

lemma compile_rules_isl:
  "isl (compile_rules compile i rs) = list_ex (\<lambda>r. isl (compile (rc_expr r))) rs"
proof (induction rs arbitrary: i)
  case (Cons r rs)
  show ?case using Cons.IH [of "Suc i"] by (auto split: sum.split)
qed simp

lemma compile_rules_Inr:
  "compile_rules compile i rs = Inr crs \<Longrightarrow>
     map cr_note crs = map rc_note rs \<and> map cr_verdict crs = map rc_verdict rs \<and>
     map (Inr \<circ> cr_program) crs = map (compile \<circ> rc_expr) rs"
  by (induction rs arbitrary: i crs) (auto split: sum.splits)

lemma engine_from_config_rules:
  "engine_from_config open_file rd compile cfg = Some (Inr eng) \<Longrightarrow>
     compile_rules compile 0 (pc_rules cfg) = Inr (pe_rules eng) \<and>
     pe_default_verdict eng = pc_default_verdict cfg"
  by (auto simp: engine_from_config_def split: option.splits sum.splits)

text \<open>
  The type of a loaded engine: every list is filed under its own name and holds lower-case valid
  domains only.
\<close>

definition wf_engine :: "'p policy_engine \<Rightarrow> bool" where
  "wf_engine eng \<longleftrightarrow> (\<forall>nm bl. pe_blocklists eng nm = Some bl \<longrightarrow> bl_name bl = nm \<and> wf_blocklist bl)"

text \<open>The list a name stands for: the last one configured under it.\<close>

definition configured :: "blocklist_config list \<Rightarrow> string \<Rightarrow> blocklist_config option" where
  "configured cs nm = find (\<lambda>c. bc_name c = nm) (rev cs)"

lemma load_blocklists_loaded:
  "load_blocklists open_file rd cs m = Some (Inr m' :: 'e engine_error + (string \<rightharpoonup> blocklist)) \<Longrightarrow>
     m' nm = (case configured cs nm of
        None \<Rightarrow> m nm
      | Some c \<Rightarrow> (case blocklist_load open_file rd (bc_path c) nm of Some (Inr bl) \<Rightarrow> Some bl | _ \<Rightarrow> None))"
proof (induction cs arbitrary: m)
  case (Cons c cs)
  then obtain bl where "blocklist_load open_file rd (bc_path c) (bc_name c) = Some (Inr bl)"
    "load_blocklists open_file rd cs (m(bc_name c \<mapsto> bl)) = Some (Inr m' :: 'e engine_error + (string \<rightharpoonup> blocklist))"
    by (auto split: option.splits sum.splits)
  with Cons.IH [OF this(2)] show ?case
    by (auto simp: configured_def find_append split: option.splits)
qed (simp add: configured_def)

lemma load_blocklists_all:
  "load_blocklists open_file rd cs m = Some (Inr m') \<Longrightarrow> c \<in> set cs \<Longrightarrow>
     \<exists>bl. blocklist_load open_file rd (bc_path c) (bc_name c) = Some (Inr bl)"
  by (induction cs arbitrary: m) (auto split: option.splits sum.splits)

lemma configured_Some: "configured cs nm = Some c \<Longrightarrow> c \<in> set cs \<and> bc_name c = nm"
  by (auto simp: configured_def find_Some_iff in_set_conv_nth [of _ "rev cs", simplified])

lemma engine_from_config_lists:
  fixes compile :: "string \<Rightarrow> 'e + 'p"
  assumes "engine_from_config open_file rd compile cfg = Some (Inr eng)"
  shows "case configured (pc_blocklists cfg) nm of
     None \<Rightarrow> pe_blocklists eng nm = None
   | Some c \<Rightarrow> \<exists>bl. blocklist_load open_file rd (bc_path c) nm = Some (Inr bl) \<and> pe_blocklists eng nm = Some bl"
proof -
  have l: "load_blocklists open_file rd (pc_blocklists cfg) Map.empty = 
      Some (Inr (pe_blocklists eng) :: 'e engine_error + (string \<rightharpoonup> blocklist))"
    using assms by (auto simp: engine_from_config_def split: option.splits sum.splits)
  show ?thesis
  proof (cases "configured (pc_blocklists cfg) nm")
    case (Some c)
    with configured_Some load_blocklists_all [OF l, of c]
    obtain bl where "blocklist_load open_file rd (bc_path c) nm = Some (Inr bl)" by metis
    with Some show ?thesis using load_blocklists_loaded [OF l, of nm] by simp
  qed (use load_blocklists_loaded [OF l, of nm] in simp)
qed

lemma engine_from_config_wf:
  assumes "engine_from_config open_file rd compile cfg = Some (Inr eng)"
  shows "wf_engine eng"
  unfolding wf_engine_def
proof (intro allI impI)
  fix nm bl assume "pe_blocklists eng nm = Some bl"
  with engine_from_config_lists [OF assms, of nm]
  show "bl_name bl = nm \<and> wf_blocklist bl" by (auto dest: blocklist_load_wf split: option.splits)
qed

section \<open>Properties\<close>

text \<open>
  (C7) Rules are judged in order and the first whose expression evaluates to the boolean true
  decides; an engine without such a rule gives its default verdict.
\<close>

theorem evaluate_first_match:
  "evaluate_for execute eng h c =
     (case find (fires execute (cel_context_for eng (canonical_hostname h) c)) (pe_rules eng) of
        Some r \<Rightarrow> rule_outcome r
      | None \<Rightarrow> default_outcome (pe_default_verdict eng) (canonical_hostname h))"
  by (rule evaluate_for_find)

text \<open>
  A rule whose expression fails to evaluate, or evaluates to anything but the boolean true,
  has no influence on the verdict: deleting all such rules leaves it unchanged.
\<close>

theorem evaluate_skips_other_rules:
  "evaluate_for execute eng h c =
     evaluate_for execute
       (eng\<lparr>pe_rules :=
          filter (fires execute (cel_context_for eng (canonical_hostname h) c)) (pe_rules eng)\<rparr>) h c"
proof -
  have "cel_context_for (eng\<lparr>pe_rules := rs\<rparr>) x y = cel_context_for eng x y" for rs x y
    by (simp add: cel_context_for_def bl_results_def)
  then show ?thesis by (simp add: evaluate_for_find find_filter_same split: option.split)
qed

text \<open>
  All spellings of a host name get the same verdict: upper or lower case, with or without
  trailing dots.
\<close>

theorem evaluate_spelling:
  "canonical_hostname h = canonical_hostname h' \<Longrightarrow>
     evaluate_for execute eng h c = evaluate_for execute eng h' c"
  by (rule engine_judge.same_name)

theorem evaluate_spelling_witness:
  "evaluate_for (\<lambda>p ctx. (p ctx :: unit + unit cel_value))
     \<lparr>pe_rules = [\<lparr>cr_note = ''blocked'',
        cr_program = (\<lambda>ctx. Inr (CelBool (cx_hostname ctx = ''blocked.test''))),
        cr_verdict = RuleDeny\<rparr>],
      pe_blocklists = Map.empty, pe_default_verdict = DefaultPassthrough\<rparr>
     ''Blocked.Test..'' caller_unknown = Denied ''matched rule: blocked''"
proof -
  have c: "canonical_hostname ''Blocked.Test..'' = canonical_hostname ''blocked.test''" by code_simp
  show ?thesis
    unfolding evaluate_spelling [OF c]
    by (simp add: evaluate_for_def cel_context_for_def canonical_hostname_fixed is_ascii_upper_def
          rule_outcome_def)
qed

text \<open>
  What a rule sees of the caller: an id that is not known is \<open>-1\<close>, no known user or group
  id is, and every value fits the signed 64-bit integers of CEL.
\<close>

theorem unknown_ids_are_minus_one:
  "(uid_value c = -1 \<longleftrightarrow> uid c = None) \<and> (gid_value c = -1 \<longleftrightarrow> gid c = None) \<and>
   (pid_value c = -1 \<longleftrightarrow> pid c = None \<or> pid c = Some (-1)) \<and>
   uid_value c \<in> {-1 ..< 2 ^ 32} \<and> gid_value c \<in> {-1 ..< 2 ^ 32} \<and>
   pid_value c \<in> {- (2 ^ 31) ..< 2 ^ 31}"
proof -
  have "pid_value c = -1 \<longleftrightarrow> pid c = None \<or> pid c = Some (-1)"
    by (auto simp: pid_value_def split: option.splits) (metis sint_n1 signed_word_eqI)
  moreover have "pid_value c \<in> {- (2 ^ 31) ..< 2 ^ 31}"
    using sint32_bounds by (auto simp: pid_value_def split: option.splits)
  moreover have "uid_value c \<in> {-1 ..< 2 ^ 32}"
    using uint32_bounds by (auto simp: uid_value_def split: option.splits intro: order_trans [of _ 0])
  moreover have "gid_value c \<in> {-1 ..< 2 ^ 32}"
    using uint32_bounds by (auto simp: gid_value_def split: option.splits intro: order_trans [of _ 0])
  ultimately show ?thesis by (simp add: uid_value_unknown_iff gid_value_unknown_iff)
qed

text \<open>
  The CEL function \<open>blocked_by\<close> tells whether the named list exists and one of its entries
  blocks the canonical host name; a name no list has is blocked by nothing.
\<close>

theorem blocked_by_entries:
  "cx_blocked_by (cel_context_for eng (canonical_hostname h) c) nm \<longleftrightarrow>
     (\<exists>bl. pe_blocklists eng nm = Some bl \<and>
        (\<exists>e \<in> entries bl. entry_blocks e (canonical_hostname h)))"
  by (auto simp: cel_context_for_def bl_results_def contains_entries canonical_hostname_lowercase
        split: option.split)

text \<open>
  (C28) Loading an engine from a configuration whose lists are files always returns; it yields an
  engine exactly when every list can be opened and every expression compiles.
\<close>

theorem engine_loads_iff:
  fixes open_file :: "string \<Rightarrow> bytes io_result" and compile :: "string \<Rightarrow> 'e + 'p"
  shows "\<exists>res. engine_from_config open_file next_line compile cfg = Some res \<and>
     isl res = (list_ex (\<lambda>b. isl (open_file (bc_path b))) (pc_blocklists cfg) \<or>
                list_ex (\<lambda>r. isl (compile (rc_expr r))) (pc_rules cfg))"
proof -
  obtain res :: "'e engine_error + (string \<rightharpoonup> blocklist)" where
    res: "load_blocklists open_file next_line (pc_blocklists cfg) Map.empty = Some res"
    and isl: "isl res = list_ex (\<lambda>b. isl (open_file (bc_path b))) (pc_blocklists cfg)"
    using load_blocklists_file by blast
  show ?thesis
    using res isl compile_rules_isl [of compile 0 "pc_rules cfg"]
    by (cases res; cases "compile_rules compile 0 (pc_rules cfg)")
       (auto simp: engine_from_config_def)
qed

text \<open>
  (C20) A loaded engine is well formed, whatever its lists are read from, and is the configured one:
  every list is filed under its own name and holds lower-case valid domains only, a name stands for
  the last list configured under it and for nothing else, the rules are the configured ones,
  compiled, in order, and so is the default verdict.
\<close>

theorem engine_well_formed:
  assumes "engine_from_config open_file rd compile cfg = Some (Inr eng)"
  shows "wf_engine eng \<and>
         dom (pe_blocklists eng) = bc_name ` set (pc_blocklists cfg) \<and>
         (configured (pc_blocklists cfg) nm = Some c \<longrightarrow>
            blocklist_load open_file rd (bc_path c) nm = Some (Inr (the (pe_blocklists eng nm)))) \<and>
         map cr_note (pe_rules eng) = map rc_note (pc_rules cfg) \<and>
         map cr_verdict (pe_rules eng) = map rc_verdict (pc_rules cfg) \<and>
         map (Inr \<circ> cr_program) (pe_rules eng) = map (compile \<circ> rc_expr) (pc_rules cfg) \<and>
         pe_default_verdict eng = pc_default_verdict cfg"
proof -
  note lists = engine_from_config_lists [OF assms]
  have "x \<in> dom (pe_blocklists eng) \<longleftrightarrow> configured (pc_blocklists cfg) x \<noteq> None" for x
    using lists [of x] by (auto split: option.splits)
  moreover have "configured (pc_blocklists cfg) x \<noteq> None \<longleftrightarrow> x \<in> bc_name ` set (pc_blocklists cfg)" for x
    by (auto simp: configured_def find_None_iff image_iff)
  ultimately have "dom (pe_blocklists eng) = bc_name ` set (pc_blocklists cfg)" by blast
  then show ?thesis
    using engine_from_config_wf [OF assms] lists [of nm] engine_from_config_rules [OF assms]
      compile_rules_Inr [of compile 0 "pc_rules cfg"]
    by auto
qed

theorem engine_well_formed_witness:
  "\<exists>eng. engine_from_config (\<lambda>p. Inr (if p = ''1'' then [] else as_bytes ''a.test'')) next_line
       (\<lambda>e. Inr e :: unit + string)
       (empty_config\<lparr>pc_blocklists := [\<lparr>bc_name = ''x'', bc_path = ''1''\<rparr>, \<lparr>bc_name = ''x'', bc_path = ''2''\<rparr>]\<rparr>)
       = Some (Inr eng) \<and> wf_engine eng \<and> contains (the (pe_blocklists eng ''x'')) ''a.test''"
proof -
  let ?open = "\<lambda>p. Inr (if p = ''1'' then [] else as_bytes ''a.test'') :: bytes io_result"
  let ?cfg = "empty_config\<lparr>pc_blocklists := [\<lparr>bc_name = ''x'', bc_path = ''1''\<rparr>, \<lparr>bc_name = ''x'', bc_path = ''2''\<rparr>]\<rparr>"
  obtain eng where eng: "engine_from_config ?open next_line (\<lambda>e. Inr e :: unit + string) ?cfg = Some (Inr eng)"
    by (simp add: engine_from_config_def blocklist_load_file empty_config_def)
  have "configured (pc_blocklists ?cfg) ''x'' = Some \<lparr>bc_name = ''x'', bc_path = ''2''\<rparr>"
    by (simp add: configured_def empty_config_def)
  with engine_well_formed [OF eng, of "''x''" "\<lparr>bc_name = ''x'', bc_path = ''2''\<rparr>"]
  have "wf_engine eng" "the (pe_blocklists eng ''x'') = the (blocklist_parse next_line (as_bytes ''a.test'') ''x'')"
    by (simp_all add: blocklist_load_file)
  moreover have "contains (the (blocklist_parse next_line (as_bytes ''a.test'') ''x'')) ''a.test''"
  proof -
    have "good_lines (as_bytes ''a.test'') = [''a.test'']" by code_simp
    moreover have "entry_of_line ''a.test'' = Some (Exact ''a.test'')" by code_simp
    moreover have "to_ascii_lowercase ''a.test'' = ''a.test''" by code_simp
    ultimately show ?thesis by (simp add: blocklist_parse_file contains_def)
  qed
  ultimately show ?thesis using eng by auto
qed

text \<open>
  A listed domain written with a trailing dot is accepted as an entry, dot included, and then
  blocks no host name a rule can ask about, since those never end in a dot.
\<close>

theorem dotted_entry_blocks_nothing:
  assumes "is_valid_domain (d @ ''.'')" "d \<noteq> []"
  shows "entry_of_line (d @ ''.'') = Some (Exact (to_ascii_lowercase d @ ''.'')) \<and>
         \<not> entry_blocks (Exact (to_ascii_lowercase d @ ''.'')) (canonical_hostname h) \<and>
         \<not> entry_blocks (DomainAndSubs (to_ascii_lowercase d @ ''.'')) (canonical_hostname h)"
proof -
  have "canonical_hostname h \<noteq> x @ y @ ''.''" if "y \<noteq> []" for x y
    using canonical_hostname_last [of h] that by (cases "canonical_hostname h = ''.''") auto
  from this [of "to_ascii_lowercase d" "[]"] this [of "to_ascii_lowercase d" "_ @ ''.''"] assms(2)
  show ?thesis
    using entry_of_bare_domain [OF assms(1)] by (auto simp: to_ascii_lower_id is_ascii_upper_def)
qed

theorem dotted_entry_blocks_nothing_witness:
  "entry_of_line ''ad.example.com.'' = Some (Exact ''ad.example.com.'') \<and>
   \<not> entry_blocks (Exact ''ad.example.com.'') (canonical_hostname ''ad.example.com'')"
proof -
  have v: "is_valid_domain (''ad.example.com'' @ ''.'')" by code_simp
  show ?thesis
    using dotted_entry_blocks_nothing [OF v, of "''ad.example.com''"] by simp
qed

end
