(* ===== verification/Relay.thy ===== *)
theory Relay
  imports Policy
begin

text \<open>
  Relays (\<open>src/relay.rs\<close>): the users whose lookups a listener passes through unjudged, resolved
  from the configuration at startup. The password database is a parameter: what \<open>getpwnam_r\<close>
  answers for a name and a buffer size. The loop that doubles the buffer ends only if the database
  eventually accepts it, so resolving may not return (\<open>None\<close>).
\<close>

record relays =
  rl_uids :: "u32 set"

definition relays_default :: relays where
  "relays_default = \<lparr>rl_uids = {}\<rparr>"

datatype pw_result = PwFound u32 | PwAbsent | PwErrno int

text \<open>\<open>libc::ERANGE\<close> on Linux: the buffer is too small.\<close>

definition ERANGE :: int where
  "ERANGE = 34"

partial_function (option) uid_of_loop ::
  "(string \<Rightarrow> usize \<Rightarrow> pw_result) \<Rightarrow> string \<Rightarrow> usize \<Rightarrow> u32 option io_result option"
where
  "uid_of_loop getpwnam_r nm len =
     (case getpwnam_r nm len of
        PwAbsent \<Rightarrow> Some (Inr None)
      | PwFound u \<Rightarrow> Some (Inr (Some u))
      | PwErrno errno \<Rightarrow>
          if errno = ERANGE then uid_of_loop getpwnam_r nm (len * 2)
          else Some (Inl (RawOs errno)))"

text \<open>A name with a NUL byte is no C string.\<close>

definition uid_of :: "(string \<Rightarrow> usize \<Rightarrow> pw_result) \<Rightarrow> string \<Rightarrow> u32 option io_result option" where
  "uid_of getpwnam_r user =
     (if char_of (0 :: nat) \<in> set user then Some (Inl KInvalidInput)
      else uid_of_loop getpwnam_r user 1024)"

fun resolve_uids :: "(string \<Rightarrow> usize \<Rightarrow> pw_result) \<Rightarrow> string list \<Rightarrow> u32 set io_result option" where
  "resolve_uids getpwnam_r [] = Some (Inr {})"
| "resolve_uids getpwnam_r (user # users) =
     (case uid_of getpwnam_r user of
        None \<Rightarrow> None
      | Some (Inl e) \<Rightarrow> Some (Inl e)
      | Some (Inr None) \<Rightarrow> Some (Inl KNotFound)
      | Some (Inr (Some u)) \<Rightarrow>
          (case resolve_uids getpwnam_r users of
             None \<Rightarrow> None
           | Some (Inl e) \<Rightarrow> Some (Inl e)
           | Some (Inr us) \<Rightarrow> Some (Inr (insert u us))))"

definition relays_resolve :: "(string \<Rightarrow> usize \<Rightarrow> pw_result) \<Rightarrow> string list \<Rightarrow> relays io_result option" where
  "relays_resolve getpwnam_r users =
     map_option (map_sum id (\<lambda>us. \<lparr>rl_uids = us\<rparr>)) (resolve_uids getpwnam_r users)"

definition relays_contains :: "relays \<Rightarrow> caller \<Rightarrow> bool" where
  "relays_contains rs c = (case uid c of Some u \<Rightarrow> u \<in> rl_uids rs | None \<Rightarrow> False)"

record listener_relays =
  lr_policy_socket :: relays
  lr_dns :: relays

definition relaying :: "policy_config \<Rightarrow> bool \<times> bool" where
  "relaying cfg =
     (let nscd = (config_nscd cfg \<noteq> None) in (nscd, nscd \<or> config_nss cfg))"

definition relays_for_config ::
  "(string \<Rightarrow> usize \<Rightarrow> pw_result) \<Rightarrow> policy_config \<Rightarrow> listener_relays io_result option"
where
  "relays_for_config getpwnam_r cfg =
     (let (policy_socket, dns) = relaying cfg;
          nscd = (case pc_nscd_user cfg of
                    Some user \<Rightarrow>
                      if policy_socket \<or> dns then relays_resolve getpwnam_r [user]
                      else Some (Inr relays_default)
                  | None \<Rightarrow> Some (Inr relays_default))
      in map_option (map_sum id (\<lambda>rs.
           \<lparr>lr_policy_socket = (if policy_socket then rs else relays_default),
            lr_dns = (if dns then rs else relays_default)\<rparr>)) nscd)"

section \<open>Resolving users\<close>

lemma uid_of_loop_returns:
  assumes enough: "\<And>len. limit \<le> len \<Longrightarrow> getpwnam_r nm len \<noteq> PwErrno ERANGE" and "0 < len"
  shows "\<exists>res. uid_of_loop getpwnam_r nm len = Some res"
  using assms(2)
proof (induction "limit - len" arbitrary: len rule: less_induct)
  case less
  show ?case
  proof (cases "getpwnam_r nm len = PwErrno ERANGE")
    case True
    then have "len < limit" using enough [of len] by (meson not_less)
    then have "limit - len * 2 < limit - len" using less.prems by simp
    then obtain res where "uid_of_loop getpwnam_r nm (len * 2) = Some res"
      using less.hyps [of "len * 2"] less.prems by auto
    then show ?thesis using True by (subst uid_of_loop.simps) simp
  next
    case False
    then show ?thesis by (subst uid_of_loop.simps) (auto split: pw_result.split)
  qed
qed

lemma uid_of_loop_diverges:
  assumes "\<And>len. getpwnam_r nm len = PwErrno ERANGE"
  shows "uid_of_loop getpwnam_r nm len = None"
proof (rule ccontr)
  assume "uid_of_loop getpwnam_r nm len \<noteq> None"
  then obtain res where ret: "uid_of_loop getpwnam_r nm len = Some res" by auto
  have "\<not> (\<forall>len. getpwnam_r nm len = PwErrno ERANGE)"
    by (rule uid_of_loop.raw_induct
          [where P = "\<lambda>getpwnam_r nm len res. \<not> (\<forall>len. getpwnam_r nm len = PwErrno ERANGE)", OF _ ret])
       (rename_tac f g n l r, case_tac "g n l"; force split: if_splits)
  with assms show False by simp
qed

lemma relays_resolve_singleton:
  "relays_resolve getpwnam_r [user] =
     (case uid_of getpwnam_r user of
        None \<Rightarrow> None
      | Some (Inl e) \<Rightarrow> Some (Inl e)
      | Some (Inr None) \<Rightarrow> Some (Inl KNotFound)
      | Some (Inr (Some u)) \<Rightarrow> Some (Inr \<lparr>rl_uids = {u}\<rparr>))"
  by (simp add: relays_resolve_def split: option.split sum.split)

lemma relays_contains_default [simp]: "\<not> relays_contains relays_default c"
  by (simp add: relays_contains_def relays_default_def split: option.split)

lemma relays_contains_unknown [simp]: "\<not> relays_contains rs caller_unknown"
  by (simp add: relays_contains_def caller_unknown_def)

lemma relays_contains_uid: "relays_contains rs c \<longleftrightarrow> (\<exists>u. uid c = Some u \<and> u \<in> rl_uids rs)"
  by (simp add: relays_contains_def split: option.split)

lemma relays_for_config_members:
  assumes "relays_for_config getpwnam_r cfg = Some (Inr lr)"
  shows "relays_contains (lr_policy_socket lr) c \<longleftrightarrow>
           config_nscd cfg \<noteq> None \<and>
           (\<exists>user u. pc_nscd_user cfg = Some user \<and> uid c = Some u \<and>
                     uid_of getpwnam_r user = Some (Inr (Some u)))"
    and "relays_contains (lr_dns lr) c \<longleftrightarrow>
           (config_nscd cfg \<noteq> None \<or> config_nss cfg) \<and>
           (\<exists>user u. pc_nscd_user cfg = Some user \<and> uid c = Some u \<and>
                     uid_of getpwnam_r user = Some (Inr (Some u)))"
  using assms
  by (auto simp: relays_for_config_def relaying_def Let_def relays_resolve_singleton relays_contains_uid
        relays_default_def split: option.splits sum.splits if_splits)

section \<open>Properties\<close>

text \<open>
  Who relays where: on the policy socket, the user named \<open>nscd_user\<close> when the nscd front-end
  is enabled; on the DNS front-end, that user when the nscd front-end or the NSS module is. Nobody
  else relays, so whoever relays on the policy socket also relays on the DNS front-end.
\<close>

theorem relays_match_config:
  assumes "relays_for_config getpwnam_r cfg = Some (Inr lr)"
  shows "(relays_contains (lr_policy_socket lr) c \<longleftrightarrow>
            config_nscd cfg \<noteq> None \<and>
            (\<exists>user u. pc_nscd_user cfg = Some user \<and> uid c = Some u \<and>
                      uid_of getpwnam_r user = Some (Inr (Some u)))) \<and>
         (relays_contains (lr_dns lr) c \<longleftrightarrow>
            (config_nscd cfg \<noteq> None \<or> config_nss cfg) \<and>
            (\<exists>user u. pc_nscd_user cfg = Some user \<and> uid c = Some u \<and>
                      uid_of getpwnam_r user = Some (Inr (Some u))))"
  using relays_for_config_members [OF assms] by blast

theorem relays_match_config_witness:
  "\<exists>lr. relays_for_config (\<lambda>nm len. if nm = ''nscd'' then PwFound 28 else PwAbsent)
       (empty_config\<lparr>pc_nscd_user := Some ''nscd'',
          pc_nss_frontend := Some \<lparr>ns_enable = True\<rparr>\<rparr>) = Some (Inr lr) \<and>
     \<not> relays_contains (lr_policy_socket lr) (caller_new 28 28 1) \<and>
     relays_contains (lr_dns lr) (caller_new 28 28 1)"
proof -
  let ?pw = "\<lambda>nm (len :: usize). if nm = ''nscd'' then PwFound 28 else PwAbsent"
  let ?cfg = "empty_config\<lparr>pc_nscd_user := Some ''nscd'', pc_nss_frontend := Some \<lparr>ns_enable = True\<rparr>\<rparr>"
  have nul: "char_of (0 :: nat) \<notin> set ''nscd''" by code_simp
  have u: "uid_of ?pw ''nscd'' = Some (Inr (Some 28))"
    unfolding uid_of_def using nul by (subst uid_of_loop.simps) simp
  then obtain lr where lr: "relays_for_config ?pw ?cfg = Some (Inr lr)"
    by (simp add: relays_for_config_def relaying_def config_nscd_def filter_option_def empty_config_def
          config_nss_def relays_resolve_singleton)
  show ?thesis
    using lr relays_match_config [OF lr, of "caller_new 28 28 1"] u
    by (auto simp: config_nscd_def filter_option_def empty_config_def config_nss_def caller_new_def)
qed

text \<open>
  A configured relay user that does not exist stops the daemon with "not found", unless no
  enabled front-end puts nscd behind it, in which case the user is not looked up at all.
\<close>

theorem unknown_relay_user:
  assumes "pc_nscd_user cfg = Some user" "uid_of getpwnam_r user = Some (Inr None)"
  shows "relays_for_config getpwnam_r cfg =
           (if config_nscd cfg \<noteq> None \<or> config_nss cfg then Some (Inl KNotFound)
            else Some (Inr \<lparr>lr_policy_socket = relays_default, lr_dns = relays_default\<rparr>))"
  using assms by (simp add: relays_for_config_def relaying_def relays_resolve_singleton)

theorem unknown_relay_user_witness:
  "relays_for_config (\<lambda>nm len. PwAbsent)
     (empty_config\<lparr>pc_nscd_user := Some ''nobody'', pc_nss_frontend := Some \<lparr>ns_enable = True\<rparr>\<rparr>)
     = Some (Inl KNotFound)"
proof -
  have nul: "char_of (0 :: nat) \<notin> set ''nobody''" by code_simp
  have u: "uid_of (\<lambda>nm len. PwAbsent) ''nobody'' = Some (Inr None)"
    unfolding uid_of_def using nul by (subst uid_of_loop.simps) simp
  show ?thesis
    using unknown_relay_user [OF _ u] by (simp add: config_nss_def)
qed

text \<open>
  Looking a user up returns as soon as some buffer size is large enough for the database, and
  never returns if none is: the buffer is doubled without a limit.
\<close>

theorem uid_of_returns:
  assumes "char_of (0 :: nat) \<notin> set user"
  shows "((\<exists>limit. \<forall>len. limit \<le> len \<longrightarrow> getpwnam_r user len \<noteq> PwErrno ERANGE) \<longrightarrow>
            (\<exists>res. uid_of getpwnam_r user = Some res)) \<and>
         ((\<forall>len. getpwnam_r user len = PwErrno ERANGE) \<longrightarrow> uid_of getpwnam_r user = None)"
  using assms uid_of_loop_returns [of _ getpwnam_r user 1024] uid_of_loop_diverges [of getpwnam_r user 1024]
  by (auto simp: uid_of_def)

theorem uid_of_returns_witness:
  "(\<exists>res. uid_of (\<lambda>nm len. if len < 5000 then PwErrno ERANGE else PwFound 7) ''nscd'' = Some res) \<and>
   uid_of (\<lambda>nm len. PwErrno ERANGE) ''nscd'' = None"
proof -
  have nul: "char_of (0 :: nat) \<notin> set ''nscd''" by code_simp
  have "\<exists>limit. \<forall>len. limit \<le> len \<longrightarrow>
      (if len < (5000 :: usize) then PwErrno ERANGE else PwFound 7) \<noteq> PwErrno ERANGE"
    by (rule exI [of _ 5000]) auto
  then show ?thesis
    using uid_of_returns [OF nul, of "\<lambda>nm len. if len < 5000 then PwErrno ERANGE else PwFound 7"]
      uid_of_returns [OF nul, of "\<lambda>nm len. PwErrno ERANGE"] by simp
qed

end
