(* ===== verification/Protocol.thy ===== *)
theory Protocol
  imports Policy
begin

text \<open>
  The small modules every front-end shares: the messages of the policy socket
  (\<open>src/protocol.rs\<close>, with the path \<open>build.rs\<close> gives it), the daemon's own records (\<open>src/upstream.rs\<close>) and the credentials of a
  Unix peer (\<open>src/peercred.rs\<close>). The kernel's answer to \<open>getsockopt\<close> is a parameter.
\<close>

section \<open>The build script\<close>

text \<open>
  The path of the policy socket is fixed by the build script (\<open>build.rs\<close>) from its environment, in a
  directive to cargo: \<open>std::env::var\<close> fails for a variable that is not set and for one that is not
  Unicode.
\<close>

datatype env_var = Present string | NotPresent | NotUnicode bytes

definition build_socket_path :: "env_var \<Rightarrow> string" where
  "build_socket_path var = (case var of Present p \<Rightarrow> p | _ \<Rightarrow> ''/run/deezns/resolve.sock'')"

definition build_script :: "env_var \<Rightarrow> string list" where
  "build_script var =
     [''cargo:rustc-env=DEEZNS_SOCKET_PATH='' @ build_socket_path var,
      ''cargo:rerun-if-env-changed=DEEZNS_SOCKET_PATH'']"

text \<open>The first directive carries the path verbatim, and never an empty one by default.\<close>

lemma build_script_path:
  "strip_prefix ''cargo:rustc-env=DEEZNS_SOCKET_PATH='' (hd (build_script var)) = Some (build_socket_path var)"
  by (simp add: build_script_def strip_prefix_Some_iff)

section \<open>Messages, own records and credentials\<close>

record resolve_request =
  rq_hostname :: string

datatype resolve_response =
    RDenied string
  | RPassThrough
  | RResolved "ip_addr list"

definition upstream_resolve :: "string \<Rightarrow> ip_addr list" where
  "upstream_resolve hostname =
     (if hostname = ''example.local'' then [V4 (ipv4_new 10 0 0 1)] else [])"

record ucred =
  cred_pid :: i32
  cred_uid :: u32
  cred_gid :: u32

text \<open>\<open>Inl\<close> is the error number of a failed \<open>getsockopt(SO_PEERCRED)\<close>.\<close>

definition peer_caller :: "int + ucred \<Rightarrow> caller io_result" where
  "peer_caller sockopt =
     (case sockopt of
        Inl errno \<Rightarrow> Inl (RawOs errno)
      | Inr cred \<Rightarrow> Inr (caller_new (cred_uid cred) (cred_gid cred) (cred_pid cred)))"

lemma length_upstream_resolve: "length (upstream_resolve h) \<le> 1"
  by (simp add: upstream_resolve_def)

lemma upstream_resolve_ipv4: "ip \<in> set (upstream_resolve h) \<Longrightarrow> is_ipv4 ip"
  by (auto simp: upstream_resolve_def is_ipv4_def split: if_splits)

lemma upstream_resolve_records [simp]:
  "upstream_resolve h = [] \<longleftrightarrow> h \<noteq> ''example.local''"
  by (simp add: upstream_resolve_def)

lemma peer_caller_known: "peer_caller s = Inr c \<Longrightarrow> uid c \<noteq> None \<and> gid c \<noteq> None \<and> pid c \<noteq> None"
  by (auto simp: peer_caller_def caller_new_def split: sum.splits)

section \<open>Decisions\<close>

text \<open>
  The abstract specification all front-ends implement: what becomes of a lookup of a name by a
  caller. A relay's lookup is forwarded; otherwise the verdict decides, and an allowed name is
  answered from the daemon's own records if there are any.
\<close>

datatype decision = Refuse string | Forward | Own "ip_addr list"

definition lookup_decision ::
  "(string \<Rightarrow> caller \<Rightarrow> policy_verdict) \<Rightarrow> (caller \<Rightarrow> bool) \<Rightarrow> string \<Rightarrow> caller \<Rightarrow> decision"
where
  "lookup_decision judge relayed h c =
     (if relayed c then Forward
      else
        case judge h c of
          Denied why \<Rightarrow> Refuse why
        | PassThrough \<Rightarrow> Forward
        | Allowed \<Rightarrow> if upstream_resolve h = [] then Forward else Own (upstream_resolve h))"

text \<open>
  A front-end that implements the specification: \<open>subject\<close> is the name a request is about, if the
  policy applies to it, and \<open>realise\<close> how a decision on it is carried out; refusing and answering
  send nothing to an upstream.
\<close>

locale policy_resolver = policy_judge judge canon
  for judge :: "string \<Rightarrow> caller \<Rightarrow> policy_verdict" and canon :: "string \<Rightarrow> string" +
  fixes relayed :: "caller \<Rightarrow> bool"
    and subject :: "'req \<Rightarrow> string option"
    and realise :: "'req \<Rightarrow> decision \<Rightarrow> 'event list \<times> 'reply"
    and respond :: "'req \<Rightarrow> caller \<Rightarrow> 'event list \<times> 'reply"
  assumes respond_realises: "subject r = Some h \<Longrightarrow> respond r c = realise r (lookup_decision judge relayed h c)"
    and refuse_silent: "fst (realise r (Refuse why)) = []"
    and own_silent: "fst (realise r (Own addrs)) = []"

sublocale policy_resolver \<subseteq> policy_frontend judge canon "\<lambda>r c. if relayed c then None else subject r" respond
  "\<lambda>r why. snd (realise r (Refuse why))"
proof
  fix r c h why
  assume "(if relayed c then None else subject r) = Some h" "judge h c = Denied why"
  then have "respond r c = realise r (Refuse why)"
    using respond_realises [of r h c] by (simp add: lookup_decision_def split: if_splits)
  then show "respond r c = ([], snd (realise r (Refuse why)))"
    using refuse_silent [of r why] by (simp add: prod_eq_iff)
qed

context policy_resolver
begin

lemma refused:
  "subject r = Some h \<Longrightarrow> \<not> relayed c \<Longrightarrow> canon h = canon h' \<Longrightarrow> judge h' c = Denied why \<Longrightarrow>
     respond r c = ([], snd (realise r (Refuse why)))"
  using refused_any_spelling [of c r h h' why] by simp

lemma contacted_forward:
  "subject r = Some h \<Longrightarrow> fst (respond r c) \<noteq> [] \<Longrightarrow>
     lookup_decision judge relayed h c = Forward \<and> respond r c = realise r Forward"
  using respond_realises [of r h c] refuse_silent own_silent
  by (cases "lookup_decision judge relayed h c") auto

end

text \<open>An engine that denies everything, for concrete instances.\<close>

definition failing_execute :: "(unit, unit, unit) cel_execute" where
  "failing_execute = (\<lambda>p ctx. Inl ())"

definition deny_all :: "unit policy_engine" where
  "deny_all = \<lparr>pe_rules = [], pe_blocklists = Map.empty, pe_default_verdict = DefaultDeny\<rparr>"

lemma deny_all_denies:
  "evaluate_for execute deny_all h c = Denied (canonical_hostname h @ '' denied by default policy'')"
  by (simp add: evaluate_for_def deny_all_def)

end
