(* ===== verification/Policy_Socket.thy ===== *)
theory Policy_Socket
  imports Utf8 Relay Protocol
begin

text \<open>
  The policy socket (\<open>handle_connection\<close> of \<open>src/daemon.rs\<close>): one JSON request per line, judged
  for the peer of the Unix connection, one JSON response per line. The JSON forms of the messages
  are serde's: decoding a line and encoding a response are parameters. Nothing bounds the time a
  client may take, so a handler can wait forever (\<open>Stalled\<close>).
\<close>

section \<open>Lines of a connection\<close>

definition decode_line :: "bytes \<Rightarrow> string option await" where
  "decode_line l = (case from_utf8 (strip_eol l) of Some s \<Rightarrow> Ready (Some s) | None \<Rightarrow> Failed KInvalidData)"

text \<open>\<open>Lines::next_line\<close>: a last line without a newline counts at the end of the stream.\<close>

definition stream_next_line :: "stream \<Rightarrow> string option await \<times> stream" where
  "stream_next_line st =
     (if 10 \<in> set (inbuf st) then
        (let (l, rest) = split_line (inbuf st) in (decode_line l, st\<lparr>inbuf := rest\<rparr>))
      else
        (case at_end st of
           Silent \<Rightarrow> (Stalled, st\<lparr>inbuf := []\<rparr>)
         | Broken e \<Rightarrow> (Failed e, st\<lparr>inbuf := []\<rparr>)
         | Closed \<Rightarrow>
             if inbuf st = [] then (Ready None, st) else (decode_line (inbuf st), st\<lparr>inbuf := []\<rparr>)))"

lemma stream_next_line_shorter:
  "stream_next_line st = (Ready (Some l), st') \<Longrightarrow> length (inbuf st') < length (inbuf st)"
  by (auto simp: stream_next_line_def split_line_def Let_def dest: length_pos_if_in_set
        split: if_splits stream_end.splits)

section \<open>Judging a request\<close>

definition verdict_response ::
  "('p, 'e, 'v) cel_execute \<Rightarrow> 'p policy_engine \<Rightarrow> resolve_request \<Rightarrow> caller \<Rightarrow> resolve_response"
where
  "verdict_response execute eng req c =
     (case evaluate_for execute eng (rq_hostname req) c of
        Denied reason \<Rightarrow> RDenied reason
      | PassThrough \<Rightarrow> RPassThrough
      | Allowed \<Rightarrow>
          let addrs = upstream_resolve (rq_hostname req) in
          if addrs = [] then RPassThrough else RResolved addrs)"

definition socket_response ::
  "('p, 'e, 'v) cel_execute \<Rightarrow> 'p policy_engine \<Rightarrow> relays \<Rightarrow> resolve_request \<Rightarrow> caller \<Rightarrow> resolve_response"
where
  "socket_response execute eng rs req c =
     (if relays_contains rs c then RPassThrough else verdict_response execute eng req c)"

section \<open>The connection handler\<close>

text \<open>
  \<open>wr n\<close> is the fate of the n-th response. The result lists the responses written, in order.
\<close>

function request_loop ::
  "(string \<Rightarrow> 'j + resolve_request) \<Rightarrow> (resolve_response \<Rightarrow> bytes io_result) \<Rightarrow>
   (resolve_request \<Rightarrow> resolve_response) \<Rightarrow> (nat \<Rightarrow> unit await) \<Rightarrow> stream \<Rightarrow> nat \<Rightarrow> bytes list \<times> unit await"
where
  "request_loop from_json to_json reply wr st n =
     (case stream_next_line st of
        (Stalled, st') \<Rightarrow> ([], Stalled)
      | (Failed e, st') \<Rightarrow> ([], Failed e)
      | (Ready None, st') \<Rightarrow> ([], Ready ())
      | (Ready (Some line), st') \<Rightarrow>
          (case from_json line of
             Inl e \<Rightarrow> request_loop from_json to_json reply wr st' n
           | Inr req \<Rightarrow>
               (case to_json (reply req) of
                  Inl e \<Rightarrow> ([], Failed e)
                | Inr buf \<Rightarrow>
                    (case wr n of
                       Failed e \<Rightarrow> ([buf @ [10]], Failed e)
                     | Stalled \<Rightarrow> ([buf @ [10]], Stalled)
                     | Ready _ \<Rightarrow>
                         let (out, res) = request_loop from_json to_json reply wr st' (n + 1)
                         in ((buf @ [10]) # out, res)))))"
  by pat_completeness auto
termination
  by (relation "measure (\<lambda>(from_json, to_json, reply, wr, st, n). length (inbuf st))")
     (auto dest!: stream_next_line_shorter [OF sym])

declare request_loop.simps [simp del]

record policy_client =
  pl_cred :: "int + ucred"
  pl_incoming :: stream
  pl_write :: "nat \<Rightarrow> unit await"

definition handle_connection ::
  "(string \<Rightarrow> 'j + resolve_request) \<Rightarrow> (resolve_response \<Rightarrow> bytes io_result) \<Rightarrow>
   ('p, 'e, 'v) cel_execute \<Rightarrow> 'p policy_engine \<Rightarrow> relays \<Rightarrow> policy_client \<Rightarrow> bytes list \<times> unit await"
where
  "handle_connection from_json to_json execute eng rs cl =
     (case peer_caller (pl_cred cl) of
        Inl e \<Rightarrow> ([], Failed e)
      | Inr c \<Rightarrow>
          request_loop from_json to_json (\<lambda>req. socket_response execute eng rs req c)
            (pl_write cl) (pl_incoming cl) 0)"

section \<open>What a connection answers\<close>

text \<open>The specification, implemented; the policy socket has no upstream to send anything to.\<close>

definition socket_realise :: "resolve_request \<Rightarrow> decision \<Rightarrow> unit list \<times> resolve_response" where
  "socket_realise req d =
     ([], case d of Refuse why \<Rightarrow> RDenied why | Forward \<Rightarrow> RPassThrough | Own addrs \<Rightarrow> RResolved addrs)"

interpretation policy_front: policy_resolver
  "evaluate_for execute eng" canonical_hostname "relays_contains rs"
  "\<lambda>req. Some (rq_hostname req)" socket_realise "\<lambda>req c. ([], socket_response execute eng rs req c)"
  for execute eng rs
  by unfold_locales
     (auto simp: socket_realise_def socket_response_def verdict_response_def lookup_decision_def Let_def
        split: policy_verdict.split)

text \<open>The request lines of a stream: encoded requests, or text that is no request.\<close>

definition line_bytes :: "string \<Rightarrow> bytes" where
  "line_bytes l = as_bytes l @ [10]"

definition plain_line :: "string \<Rightarrow> bool" where
  "plain_line l \<longleftrightarrow> 10 \<notin> set (as_bytes l) \<and> (l = [] \<or> last (as_bytes l) \<noteq> 13) \<and> utf8_valid (as_bytes l)"

lemma stream_next_plain:
  assumes "plain_line l"
  shows "stream_next_line \<lparr>inbuf = line_bytes l @ rest, at_end = e\<rparr> =
           (Ready (Some l), \<lparr>inbuf = rest, at_end = e\<rparr>)"
  using assms split_line_newline [of "as_bytes l" rest]
  by (auto simp: stream_next_line_def line_bytes_def plain_line_def decode_line_def strip_eol_def
        from_utf8_def butlast_append Let_def as_bytes_def
        str_of_as_bytes [unfolded as_bytes_def])

definition responses ::
  "(string \<Rightarrow> 'j + resolve_request) \<Rightarrow> (resolve_request \<Rightarrow> resolve_response) \<Rightarrow> string list
     \<Rightarrow> resolve_response list"
where
  "responses from_json reply ls =
     List.map_filter (\<lambda>l. case from_json l of Inr req \<Rightarrow> Some (reply req) | Inl _ \<Rightarrow> None) ls"

lemma request_loop_lines:
  assumes "list_all plain_line ls" "\<And>k. wr k = Ready ()"
    and "\<And>r. to_json r = Inr (enc r)"
  shows "request_loop from_json to_json reply wr
           \<lparr>inbuf = concat (map line_bytes ls), at_end = Closed\<rparr> n =
         (map (\<lambda>r. enc r @ [10]) (responses from_json reply ls), Ready ())"
  using assms(1)
proof (induction ls arbitrary: n)
  case Nil
  show ?case
    by (subst request_loop.simps) (simp add: stream_next_line_def responses_def List.map_filter_def)
next
  case (Cons l ls)
  have IH: "request_loop from_json to_json reply wr
      \<lparr>inbuf = concat (map line_bytes ls), at_end = Closed\<rparr> k =
      (map (\<lambda>r. enc r @ [10]) (responses from_json reply ls), Ready ())" for k
    using Cons by simp
  have "stream_next_line \<lparr>inbuf = concat (map line_bytes (l # ls)), at_end = Closed\<rparr> =
      (Ready (Some l), \<lparr>inbuf = concat (map line_bytes ls), at_end = Closed\<rparr>)"
    using stream_next_plain [of l "concat (map line_bytes ls)" Closed] Cons.prems by simp
  then show ?case
    using assms(2,3) IH
    by (subst request_loop.simps)
       (simp add: responses_def List.map_filter_simps split: sum.split)
qed

section \<open>Properties\<close>

text \<open>
  (C21) A connection to the policy socket answers every request it sends, in order, each with the
  verdict on its name for the peer of the connection, and skips lines that are no request.
\<close>

theorem policy_socket_answers:
  assumes "peer_caller (pl_cred cl) = Inr c" "pl_write cl = (\<lambda>_. Ready ())"
    and "pl_incoming cl = \<lparr>inbuf = concat (map line_bytes ls), at_end = Closed\<rparr>" "list_all plain_line ls"
    and "\<And>r. to_json r = Inr (enc r)"
  shows "handle_connection from_json to_json execute eng rs cl =
     (map (\<lambda>r. enc r @ [10])
        (responses from_json (\<lambda>req. socket_response execute eng rs req c) ls), Ready ())"
  using assms request_loop_lines [OF assms(4), of "\<lambda>_. Ready ()" to_json enc]
  by (simp add: handle_connection_def)

theorem policy_socket_answers_witness:
  "handle_connection (\<lambda>l. if l = ''?'' then Inl () else Inr \<lparr>rq_hostname = l\<rparr>)
     (\<lambda>r. Inr (case r of RDenied s \<Rightarrow> [68] | RPassThrough \<Rightarrow> [80] | RResolved _ \<Rightarrow> [82]))
     failing_execute deny_all \<lparr>rl_uids = {}\<rparr>
     \<lparr>pl_cred = Inr \<lparr>cred_pid = 1, cred_uid = 2, cred_gid = 3\<rparr>,
      pl_incoming = \<lparr>inbuf = concat (map line_bytes [''?'', ''a'']), at_end = Closed\<rparr>,
      pl_write = (\<lambda>_. Ready ())\<rparr> = ([[68, 10]], Ready ())"
proof -
  let ?enc = "\<lambda>r :: resolve_response.
    (case r of RDenied s \<Rightarrow> [68] | RPassThrough \<Rightarrow> [80] | RResolved _ \<Rightarrow> [82]) :: bytes"
  let ?from = "\<lambda>l. if l = ''?'' then Inl () else Inr \<lparr>rq_hostname = l\<rparr>"
  let ?cl = "\<lparr>pl_cred = Inr \<lparr>cred_pid = 1, cred_uid = 2, cred_gid = 3\<rparr>,
      pl_incoming = \<lparr>inbuf = concat (map line_bytes [''?'', ''a'']), at_end = Closed\<rparr>,
      pl_write = (\<lambda>_. Ready ())\<rparr>"
  have c: "peer_caller (pl_cred ?cl) = Inr (caller_new 2 3 1)" by (simp add: peer_caller_def)
  have l: "list_all plain_line [''?'', ''a'']" by code_simp
  show ?thesis
    using policy_socket_answers [OF c _ _ l, of "\<lambda>r. Inr (?enc r)" ?enc ?from failing_execute deny_all
        "\<lparr>rl_uids = {}\<rparr>"]
    by (simp add: responses_def List.map_filter_simps socket_response_def relays_contains_def
          caller_new_def verdict_response_def deny_all_denies)
qed

end
