(* ===== verification/Nscd_Wire.thy ===== *)
theory Nscd_Wire
  imports Utf8 Net
begin

text \<open>
  The wire protocol of glibc's nscd, version 2, as \<open>src/nscd.rs\<close> speaks it: request types and
  requests with their encoder and parser, the positive and negative replies to host requests, and
  the check applied to the replies of the real nscd. Integers are native-endian, so every
  definition takes the byte order of the machine; the theorems hold for both.
\<close>

section \<open>Constants\<close>

definition VERSION :: i32 where "VERSION = 2"
definition MAX_KEY_LEN :: usize where "MAX_KEY_LEN = 1024"
definition HEADER_LEN :: usize where "HEADER_LEN = 12"
definition HOST_NOT_FOUND :: i32 where "HOST_NOT_FOUND = 1"
definition TRY_AGAIN :: i32 where "TRY_AGAIN = 2"
definition NO_DATA :: i32 where "NO_DATA = 4"
definition AI_HEADER_LEN :: usize where "AI_HEADER_LEN = 24"
definition HST_HEADER_LEN :: usize where "HST_HEADER_LEN = 32"

lemmas nscd_consts =
  VERSION_def MAX_KEY_LEN_def HEADER_LEN_def HOST_NOT_FOUND_def TRY_AGAIN_def NO_DATA_def
  AI_HEADER_LEN_def HST_HEADER_LEN_def

text \<open>\<open>libc::AF_INET\<close> and \<open>libc::AF_INET6\<close> on Linux.\<close>

definition AF_INET :: i32 where "AF_INET = 2"
definition AF_INET6 :: i32 where "AF_INET6 = 10"

section \<open>Requests\<close>

datatype request_type =
    GetPwByName | GetPwByUid | GetGrByName | GetGrByGid | GetHostByName | GetHostByNameV6
  | GetHostByAddr | GetHostByAddrV6 | Shutdown | GetStat | Invalidate | GetFdPw | GetFdGr
  | GetFdHst | GetAi | InitGroups | GetServByName | GetServByPort | GetFdServ | GetNetGrEnt
  | InNetGr | GetFdNetGr

definition ALL_TYPES :: "request_type list" where
  "ALL_TYPES =
     [GetPwByName, GetPwByUid, GetGrByName, GetGrByGid, GetHostByName, GetHostByNameV6,
      GetHostByAddr, GetHostByAddrV6, Shutdown, GetStat, Invalidate, GetFdPw, GetFdGr, GetFdHst,
      GetAi, InitGroups, GetServByName, GetServByPort, GetFdServ, GetNetGrEnt, InNetGr, GetFdNetGr]"

text \<open>\<open>usize::try_from\<close> on a signed 32-bit integer.\<close>

definition usize_try_from :: "i32 \<Rightarrow> usize option" where
  "usize_try_from v = (if 0 \<le> sint v then Some (nat (sint v)) else None)"

definition from_i32 :: "i32 \<Rightarrow> request_type option" where
  "from_i32 v = Option.bind (usize_try_from v) (get ALL_TYPES)"

fun position :: "('a \<Rightarrow> bool) \<Rightarrow> 'a list \<Rightarrow> usize option" where
  "position P [] = None"
| "position P (x # xs) = (if P x then Some 0 else map_option Suc (position P xs))"

definition as_i32 :: "request_type \<Rightarrow> i32" where
  "as_i32 t = word_of_nat (the (position (\<lambda>u. u = t) ALL_TYPES))"

definition is_host_lookup :: "request_type \<Rightarrow> bool" where
  "is_host_lookup t \<longleftrightarrow> t = GetHostByName \<or> t = GetHostByNameV6 \<or> t = GetAi"

record request =
  ty :: request_type
  key :: bytes
  raw :: bytes

definition encode :: "endianness \<Rightarrow> request_type \<Rightarrow> bytes \<Rightarrow> bytes" where
  "encode en t k =
     to_ne_bytes en 4 VERSION @ to_ne_bytes en 4 (as_i32 t) @
     to_ne_bytes en 4 (word_of_nat (length k) :: i32) @ k"

datatype request_error =
    TooShort usize
  | UnsupportedVersion i32
  | UnknownType i32
  | NegativeKeyLength
  | KeyTooLong usize
  | KeyLengthMismatch usize usize

definition int_at :: "endianness \<Rightarrow> bytes \<Rightarrow> usize \<Rightarrow> i32" where
  "int_at en bs at = from_ne_bytes en (take 4 (drop at bs))"

definition parse :: "endianness \<Rightarrow> bytes \<Rightarrow> request_error + request" where
  "parse en bs =
     (if length bs < HEADER_LEN then Inl (TooShort (length bs))
      else
        let version = int_at en bs 0 in
        if version \<noteq> VERSION then Inl (UnsupportedVersion version)
        else
          case from_i32 (int_at en bs 4) of
            None \<Rightarrow> Inl (UnknownType (int_at en bs 4))
          | Some t \<Rightarrow>
              (case usize_try_from (int_at en bs 8) of
                 None \<Rightarrow> Inl NegativeKeyLength
               | Some key_len \<Rightarrow>
                   if key_len > MAX_KEY_LEN then Inl (KeyTooLong key_len)
                   else if length bs \<noteq> HEADER_LEN + key_len
                   then Inl (KeyLengthMismatch key_len (length bs - HEADER_LEN))
                   else Inr \<lparr>ty = t, key = drop HEADER_LEN bs, raw = bs\<rparr>))"

definition strip_nul :: "bytes \<Rightarrow> bytes" where
  "strip_nul bs = (if bs \<noteq> [] \<and> last bs = 0 then butlast bs else bs)"

definition hostname :: "request \<Rightarrow> string option" where
  "hostname r =
     (case from_utf8 (strip_nul (key r)) of
        Some s \<Rightarrow> if s \<noteq> [] then Some s else None
      | None \<Rightarrow> None)"

text \<open>
  Reading one request from a connection; the second component is what is left of the stream.
\<close>

definition read_request :: "endianness \<Rightarrow> stream \<Rightarrow> request await \<times> stream" where
  "read_request en st =
     (case read_exact HEADER_LEN st of
        (Ready header, st1) \<Rightarrow>
          (case usize_try_from (int_at en header 8) of
             Some key_len \<Rightarrow>
               if key_len \<le> MAX_KEY_LEN then
                 (case read_exact key_len st1 of
                    (Ready k, st2) \<Rightarrow>
                      (case parse en (header @ k) of
                         Inr r \<Rightarrow> (Ready r, st2)
                       | Inl _ \<Rightarrow> (Failed KInvalidData, st2))
                  | (Failed e, st2) \<Rightarrow> (Failed e, st2)
                  | (Stalled, st2) \<Rightarrow> (Stalled, st2))
               else (Failed KInvalidData, st1)
           | None \<Rightarrow> (Failed KInvalidData, st1))
      | (Failed e, st1) \<Rightarrow> (Failed e, st1)
      | (Stalled, st1) \<Rightarrow> (Stalled, st1))"

section \<open>Replies\<close>

definition push_i32 :: "endianness \<Rightarrow> bytes \<Rightarrow> i32 \<Rightarrow> bytes" where
  "push_i32 en buf v = buf @ to_ne_bytes en 4 v"

definition address_bytes :: "ip_addr \<Rightarrow> bytes" where
  "address_bytes a = octets a"

definition address_family :: "ip_addr \<Rightarrow> i32" where
  "address_family a = (case a of V4 _ \<Rightarrow> AF_INET | V6 _ \<Rightarrow> AF_INET6)"

definition ai_reply :: "endianness \<Rightarrow> i32 \<Rightarrow> i32 \<Rightarrow> string \<Rightarrow> ip_addr list \<Rightarrow> bytes" where
  "ai_reply en fnd err canon addrs =
     (let packed = concat (map address_bytes addrs);
          families = map (\<lambda>a. ucast (address_family a) :: byte) addrs;
          canon_len = (if fnd = 1 then length canon + 1 else 0);
          buf = push_i32 en [] VERSION;
          buf = push_i32 en buf fnd;
          buf = push_i32 en buf (word_of_nat (length addrs));
          buf = push_i32 en buf (word_of_nat (length packed));
          buf = push_i32 en buf (word_of_nat canon_len);
          buf = push_i32 en buf err
      in if fnd = 1 then buf @ packed @ families @ as_bytes canon @ [0] else buf)"

definition ai_not_found :: "endianness \<Rightarrow> i32 \<Rightarrow> bytes" where
  "ai_not_found en err = ai_reply en 0 err [] []"

definition ai_found :: "endianness \<Rightarrow> string \<Rightarrow> ip_addr list \<Rightarrow> bytes" where
  "ai_found en canon addrs = ai_reply en 1 0 canon addrs"

definition hst_reply ::
  "endianness \<Rightarrow> i32 \<Rightarrow> i32 \<Rightarrow> string \<Rightarrow> i32 \<Rightarrow> ip_addr list \<Rightarrow> bytes"
where
  "hst_reply en fnd err nm family addrs =
     (let len = (if family = AF_INET6 then 16 else 4) :: i32;
          buf = push_i32 en [] VERSION;
          buf = push_i32 en buf fnd;
          buf = push_i32 en buf (if fnd = 1 then word_of_nat (length nm) + 1 else 0);
          buf = push_i32 en buf 0;
          buf = push_i32 en buf (if fnd = 1 then family else -1);
          buf = push_i32 en buf (if fnd = 1 then len else -1);
          buf = push_i32 en buf (if fnd = 1 then word_of_nat (length addrs) else 0);
          buf = push_i32 en buf err
      in if fnd = 1 then buf @ as_bytes nm @ [0] @ concat (map address_bytes addrs) else buf)"

definition hst_not_found :: "endianness \<Rightarrow> i32 \<Rightarrow> bytes" where
  "hst_not_found en err = hst_reply en 0 err [] (-1) []"

definition hst_found :: "endianness \<Rightarrow> string \<Rightarrow> i32 \<Rightarrow> ip_addr list \<Rightarrow> bytes option" where
  "hst_found en nm family addrs =
     (let matching = filter (\<lambda>a. address_family a = family) addrs
      in if matching = [] then None else Some (hst_reply en 1 0 nm family matching))"

text \<open>
  The check of a reply, over the integers; \<open>valid_host_reply_i64\<close> below is the same check at the
  width of the source, and the two are shown to agree.
\<close>

definition valid_host_reply :: "endianness \<Rightarrow> request_type \<Rightarrow> bytes \<Rightarrow> bool" where
  "valid_host_reply en t reply =
     (let num = (\<lambda>at. map_option (\<lambda>b. sint (from_ne_bytes en b :: i32)) (slice reply at (at + 4)));
          len = int (length reply)
      in case (num 0, num 4) of
           (Some version, Some fnd) \<Rightarrow>
             version = sint VERSION \<and>
             (case t of
                GetAi \<Rightarrow>
                  int AI_HEADER_LEN \<le> len \<and>
                  (if fnd = 0 then True
                   else if fnd = 1 then
                     (case (num 8, num 12, num 16) of
                        (Some naddrs, Some addrslen, Some canonlen) \<Rightarrow>
                          naddrs \<ge> 0 \<and> addrslen \<ge> 0 \<and> canonlen \<ge> 0 \<and>
                          len = int AI_HEADER_LEN + naddrs + addrslen + canonlen
                      | _ \<Rightarrow> False)
                   else False)
              | _ \<Rightarrow>
                  int HST_HEADER_LEN \<le> len \<and>
                  (if fnd = 0 then True
                   else if fnd = 1 then
                     (case (num 8, num 12, num 20, num 24) of
                        (Some name_len, Some aliases_cnt, Some len1, Some addr_cnt) \<Rightarrow>
                          name_len \<ge> 0 \<and> aliases_cnt \<ge> 0 \<and> addr_cnt \<ge> 0 \<and> (len1 = 4 \<or> len1 = 16) \<and>
                          len \<ge> int HST_HEADER_LEN + name_len + aliases_cnt * 4 + addr_cnt * len1
                      | _ \<Rightarrow> False)
                   else False))
         | _ \<Rightarrow> False)"

definition valid_host_reply_i64 :: "endianness \<Rightarrow> request_type \<Rightarrow> bytes \<Rightarrow> bool" where
  "valid_host_reply_i64 en t reply =
     (let num = (\<lambda>at. map_option (\<lambda>b. scast (from_ne_bytes en b :: i32) :: i64) (slice reply at (at + 4)));
          len = word_of_nat (length reply) :: i64
      in case (num 0, num 4) of
           (Some version, Some fnd) \<Rightarrow>
             version = scast VERSION \<and>
             (case t of
                GetAi \<Rightarrow>
                  \<not> len <s word_of_nat AI_HEADER_LEN \<and>
                  (if fnd = 0 then True
                   else if fnd = 1 then
                     (case (num 8, num 12, num 16) of
                        (Some naddrs, Some addrslen, Some canonlen) \<Rightarrow>
                          0 \<le>s naddrs \<and> 0 \<le>s addrslen \<and> 0 \<le>s canonlen \<and>
                          len = word_of_nat AI_HEADER_LEN + naddrs + addrslen + canonlen
                      | _ \<Rightarrow> False)
                   else False)
              | _ \<Rightarrow>
                  \<not> len <s word_of_nat HST_HEADER_LEN \<and>
                  (if fnd = 0 then True
                   else if fnd = 1 then
                     (case (num 8, num 12, num 20, num 24) of
                        (Some name_len, Some aliases_cnt, Some len1, Some addr_cnt) \<Rightarrow>
                          0 \<le>s name_len \<and> 0 \<le>s aliases_cnt \<and> 0 \<le>s addr_cnt \<and> (len1 = 4 \<or> len1 = 16) \<and>
                          word_of_nat HST_HEADER_LEN + name_len + aliases_cnt * 4 + addr_cnt * len1 \<le>s len
                      | _ \<Rightarrow> False)
                   else False))
         | _ \<Rightarrow> False)"

definition not_found :: "endianness \<Rightarrow> request_type \<Rightarrow> i32 \<Rightarrow> bytes" where
  "not_found en t err = (case t of GetAi \<Rightarrow> ai_not_found en err | _ \<Rightarrow> hst_not_found en err)"

definition found :: "endianness \<Rightarrow> request_type \<Rightarrow> string \<Rightarrow> ip_addr list \<Rightarrow> bytes" where
  "found en t nm addrs =
     (case t of
        GetAi \<Rightarrow> ai_found en nm addrs
      | GetHostByName \<Rightarrow>
          (case hst_found en nm AF_INET addrs of Some b \<Rightarrow> b | None \<Rightarrow> hst_not_found en NO_DATA)
      | _ \<Rightarrow>
          (case hst_found en nm AF_INET6 addrs of Some b \<Rightarrow> b | None \<Rightarrow> hst_not_found en NO_DATA))"

section \<open>Request types\<close>

lemma position_nth: "distinct xs \<Longrightarrow> i < length xs \<Longrightarrow> position (\<lambda>u. u = xs ! i) xs = Some i"
  by (induction xs arbitrary: i) (auto simp: nth_Cons split: nat.splits)

lemma set_ALL_TYPES: "set ALL_TYPES = UNIV"
proof (rule set_eqI)
  show "t \<in> set ALL_TYPES \<longleftrightarrow> t \<in> UNIV" for t by (cases t) (simp_all add: ALL_TYPES_def)
qed

lemma distinct_ALL_TYPES: "distinct ALL_TYPES"
  by (simp add: ALL_TYPES_def)

lemma length_ALL_TYPES [simp]: "length ALL_TYPES = 22"
  by (simp add: ALL_TYPES_def)

text \<open>The array \<open>ALL\<close> enumerates the type.\<close>

instantiation request_type :: enum
begin

definition enum_request_type :: "request_type list" where
  "enum_request_type = ALL_TYPES"

definition enum_all_request_type :: "(request_type \<Rightarrow> bool) \<Rightarrow> bool" where
  "enum_all_request_type P \<longleftrightarrow> list_all P ALL_TYPES"

definition enum_ex_request_type :: "(request_type \<Rightarrow> bool) \<Rightarrow> bool" where
  "enum_ex_request_type P \<longleftrightarrow> list_ex P ALL_TYPES"

instance
  by intro_classes
     (simp_all add: enum_request_type_def enum_all_request_type_def enum_ex_request_type_def
        set_ALL_TYPES distinct_ALL_TYPES list_all_iff list_ex_iff)

end

lemma usize_try_from_Some_iff:
  "usize_try_from w = Some n \<longleftrightarrow> n < 2 ^ 31 \<and> w = word_of_nat n"
proof
  assume "usize_try_from w = Some n"
  then have w: "0 \<le> sint w" "n = nat (sint w)" by (auto simp: usize_try_from_def split: if_splits)
  then have "n < 2 ^ 31" using sint_less [of w] by simp
  moreover have "word_of_nat n = w" using w by simp
  ultimately show "n < 2 ^ 31 \<and> w = word_of_nat n" by simp
next
  assume n: "n < 2 ^ 31 \<and> w = word_of_nat n"
  then have "sint w = int n"
    by (simp add: signed_of_nat signed_take_bit_int_eq_self)
  then show "usize_try_from w = Some n" by (simp add: usize_try_from_def)
qed

lemma as_i32_nth: "i < 22 \<Longrightarrow> as_i32 (ALL_TYPES ! i) = word_of_nat i"
  by (simp add: as_i32_def position_nth distinct_ALL_TYPES)

lemma type_index: "\<exists>i < 22. t = ALL_TYPES ! i"
  using set_ALL_TYPES by (metis UNIV_I in_set_conv_nth length_ALL_TYPES)

lemma from_i32_Some_iff: "from_i32 v = Some t \<longleftrightarrow> v = as_i32 t"
proof
  assume "from_i32 v = Some t"
  then obtain n where n: "usize_try_from v = Some n" "get ALL_TYPES n = Some t"
    by (auto simp: from_i32_def Option.bind_eq_Some_conv)
  then show "v = as_i32 t"
    using as_i32_nth [of n] by (auto simp: usize_try_from_Some_iff get_Some_iff)
next
  assume v: "v = as_i32 t"
  obtain i where i: "i < 22" "t = ALL_TYPES ! i" using type_index by blast
  then have "usize_try_from v = Some i" using as_i32_nth [of i] v by (simp add: usize_try_from_Some_iff)
  then show "from_i32 v = Some t" using i by (simp add: from_i32_def get_def)
qed

section \<open>Requests on the wire\<close>

lemma int_at_enc:
  "length pre = at \<Longrightarrow> int_at en (pre @ to_ne_bytes en 4 w @ post) at = w"
  using i32ne.dec_enc [of en w] by (simp add: int_at_def)

lemma enc_int_at:
  "at + 4 \<le> length bs \<Longrightarrow> to_ne_bytes en 4 (int_at en bs at) = take 4 (drop at bs)"
  unfolding int_at_def by (rule i32ne.enc_dec) simp

lemma length_encode: "length (encode en t k) = 12 + length k"
  by (simp add: encode_def)

lemma int_at_encode:
  "int_at en (encode en t k) 0 = VERSION"
  "int_at en (encode en t k) 4 = as_i32 t"
  "int_at en (encode en t k) 8 = word_of_nat (length k)"
  using int_at_enc [of "[]" 0 en VERSION]
    int_at_enc [of "to_ne_bytes en 4 VERSION" 4 en "as_i32 t"]
    int_at_enc [of "to_ne_bytes en 4 VERSION @ to_ne_bytes en 4 (as_i32 t)" 8 en "word_of_nat (length k)"]
  by (simp_all add: encode_def)

lemma drop_encode: "drop 12 (encode en t k) = k"
  by (simp add: encode_def)

lemma split_header:
  "bs = take 4 bs @ take 4 (drop 4 bs) @ take 4 (drop 8 bs) @ drop 12 bs"
  using append_take_drop_id [of 4 bs] append_take_drop_id [of 4 "drop 4 bs"]
    append_take_drop_id [of 4 "drop 8 bs"] by simp

lemma parse_Inr_iff:
  "parse en bs = Inr r \<longleftrightarrow>
     raw r = bs \<and> bs = encode en (ty r) (key r) \<and> length (key r) \<le> MAX_KEY_LEN"
proof
  assume p: "parse en bs = Inr r"
  then have len: "12 \<le> length bs" and v: "int_at en bs 0 = VERSION"
    and t: "int_at en bs 4 = as_i32 (ty r)" and r: "raw r = bs" "key r = drop 12 bs"
    and k: "int_at en bs 8 = word_of_nat (length (key r))" "length (key r) \<le> MAX_KEY_LEN"
    by (auto simp: parse_def Let_def from_i32_Some_iff usize_try_from_Some_iff HEADER_LEN_def
          split: if_splits option.splits)
  have eq: "encode en (ty r) (key r) = take 4 bs @ take 4 (drop 4 bs) @ take 4 (drop 8 bs) @ drop 12 bs"
    unfolding encode_def v [symmetric] t [symmetric] k(1) [symmetric] unfolding r(2)
    using len by (simp add: enc_int_at)
  have "bs = encode en (ty r) (key r)" by (rule trans [OF split_header eq [symmetric]])
  with r k show "raw r = bs \<and> bs = encode en (ty r) (key r) \<and> length (key r) \<le> MAX_KEY_LEN"
    by blast
next
  assume r: "raw r = bs \<and> bs = encode en (ty r) (key r) \<and> length (key r) \<le> MAX_KEY_LEN"
  define t k where "t = ty r" and "k = key r"
  have t: "from_i32 (as_i32 t) = Some t" by (simp add: from_i32_Some_iff)
  have "usize_try_from (word_of_nat (length k)) = Some (length k)"
    using r by (auto simp: usize_try_from_Some_iff MAX_KEY_LEN_def k_def)
  with t r have "parse en (encode en t k) = Inr \<lparr>ty = t, key = k, raw = encode en t k\<rparr>"
    by (simp add: parse_def int_at_encode length_encode HEADER_LEN_def drop_encode t_def k_def)
  then show "parse en bs = Inr r" using r by (simp add: t_def k_def)
qed

lemma int_at_take: "at + 4 \<le> n \<Longrightarrow> int_at en (take n bs) at = int_at en bs at"
  by (simp add: int_at_def drop_take min_def)

lemma int_at_append: "at + 4 \<le> length bs \<Longrightarrow> int_at en (bs @ cs) at = int_at en bs at"
  by (simp add: int_at_def)

lemma read_request_Ready_iff:
  "read_request en st = (Ready r, st') \<longleftrightarrow>
     inbuf st = raw r @ inbuf st' \<and> at_end st' = at_end st \<and> parse en (raw r) = Inr r"
proof
  assume "read_request en st = (Ready r, st')"
  then obtain header st1 n k where h: "read_exact 12 st = (Ready header, st1)"
    and k: "read_exact n st1 = (Ready k, st')" and p: "parse en (header @ k) = Inr r"
    by (auto simp: read_request_def HEADER_LEN_def
          split: prod.splits await.splits if_splits option.splits sum.splits)
  then have "raw r = header @ k" by (simp add: parse_Inr_iff)
  with h k p show "inbuf st = raw r @ inbuf st' \<and> at_end st' = at_end st \<and> parse en (raw r) = Inr r"
    by (auto dest!: read_exact_ReadyD)
next
  assume a: "inbuf st = raw r @ inbuf st' \<and> at_end st' = at_end st \<and> parse en (raw r) = Inr r"
  then have r: "raw r = encode en (ty r) (key r)" "length (key r) \<le> MAX_KEY_LEN"
    by (auto simp: parse_Inr_iff)
  have len: "length (raw r) = 12 + length (key r)" by (simp add: r(1) length_encode)
  have "int_at en (take 12 (raw r)) 8 = word_of_nat (length (key r))"
    using int_at_encode(3) [of en "ty r" "key r"] by (simp add: int_at_take flip: r(1))
  then have u: "usize_try_from (int_at en (take 12 (raw r)) 8) = Some (length (key r))"
    using r(2) by (simp add: usize_try_from_Some_iff MAX_KEY_LEN_def)
  have "read_exact 12 st = (Ready (take 12 (raw r)), st\<lparr>inbuf := drop 12 (raw r) @ inbuf st'\<rparr>)"
    using a len by (simp add: read_exact_def)
  moreover have "read_exact (length (key r)) (st\<lparr>inbuf := drop 12 (raw r) @ inbuf st'\<rparr>) =
      (Ready (drop 12 (raw r)), st')"
    using a len by (simp add: read_exact_def)
  ultimately show "read_request en st = (Ready r, st')"
    using u r(2) a by (simp add: read_request_def HEADER_LEN_def)
qed

section \<open>Replies on the wire\<close>

lemma sint_small: "n < 2 ^ 31 \<Longrightarrow> sint (word_of_nat n :: i32) = int n"
  using usize_try_from_Some_iff [of "word_of_nat n" n] by (auto simp: usize_try_from_def split: if_splits)

lemma length_address_bytes:
  "length (address_bytes a) = (if address_family a = AF_INET6 then 16 else 4)"
  by (simp add: address_bytes_def address_family_def length_octets is_ipv4_def AF_INET_def AF_INET6_def
        split: ip_addr.split)

lemma length_packed_le: "length (concat (map address_bytes addrs)) \<le> 16 * length addrs"
  by (induction addrs) (auto simp: length_address_bytes)

lemma length_packed_family:
  "list_all (\<lambda>a. address_family a = family) addrs \<Longrightarrow>
     length (concat (map address_bytes addrs)) = (if family = AF_INET6 then 16 else 4) * length addrs"
  by (induction addrs) (auto simp: length_address_bytes)

lemma slice_field:
  "map_option (\<lambda>b. sint (from_ne_bytes en b :: i32)) (slice bs at (at + 4)) =
     (if at + 4 \<le> length bs then Some (sint (int_at en bs at)) else None)"
  by (simp add: slice_def int_at_def)

text \<open>The check, in terms of the integers of a reply.\<close>

lemma valid_ai_iff:
  "valid_host_reply en GetAi b \<longleftrightarrow>
     24 \<le> length b \<and> int_at en b 0 = VERSION \<and>
     (int_at en b 4 = 0 \<or>
      int_at en b 4 = 1 \<and> 0 \<le> sint (int_at en b 8) \<and> 0 \<le> sint (int_at en b 12) \<and>
      0 \<le> sint (int_at en b 16) \<and>
      int (length b) = 24 + sint (int_at en b 8) + sint (int_at en b 12) + sint (int_at en b 16))"
proof -
  have "sint (w :: i32) = sint v \<longleftrightarrow> w = v" for w v by (metis signed_word_eqI)
  from this [of _ VERSION] this [of _ 0] this [of _ 1] show ?thesis
    unfolding valid_host_reply_def Let_def slice_field by (auto simp: nscd_consts)
qed

lemma valid_hst_iff:
  "t \<noteq> GetAi \<Longrightarrow> valid_host_reply en t b \<longleftrightarrow>
     32 \<le> length b \<and> int_at en b 0 = VERSION \<and>
     (int_at en b 4 = 0 \<or>
      int_at en b 4 = 1 \<and> 0 \<le> sint (int_at en b 8) \<and> 0 \<le> sint (int_at en b 12) \<and>
      0 \<le> sint (int_at en b 24) \<and> (int_at en b 20 = 4 \<or> int_at en b 20 = 16) \<and>
      int (length b) \<ge> 32 + sint (int_at en b 8) + sint (int_at en b 12) * 4 +
        sint (int_at en b 24) * sint (int_at en b 20))"
proof -
  assume t: "t \<noteq> GetAi"
  then have case_t: "(case t of GetAi \<Rightarrow> A | _ \<Rightarrow> B) = B" for A B :: bool by (cases t) simp_all
  have "sint (w :: i32) = sint v \<longleftrightarrow> w = v" for w v by (metis signed_word_eqI)
  from this [of _ VERSION] this [of _ 0] this [of _ 1] this [of _ 4] this [of _ 16] show ?thesis
    unfolding valid_host_reply_def Let_def slice_field case_t by (auto simp: nscd_consts)
qed

lemma ai_fields:
  "int_at en (ai_reply en f e canon addrs) 0 = VERSION"
  "int_at en (ai_reply en f e canon addrs) 4 = f"
  "int_at en (ai_reply en f e canon addrs) 8 = word_of_nat (length addrs)"
  "int_at en (ai_reply en f e canon addrs) 12 = word_of_nat (length (concat (map address_bytes addrs)))"
  "int_at en (ai_reply en f e canon addrs) 16 = word_of_nat (if f = 1 then length canon + 1 else 0)"
  "int_at en (ai_reply en f e canon addrs) 20 = e"
  by (simp_all add: ai_reply_def Let_def push_i32_def int_at_def i32ne.dec_enc)

lemma ai_body:
  "drop 24 (ai_reply en f e canon addrs) =
     (if f = 1 then concat (map address_bytes addrs) @ map (\<lambda>a. ucast (address_family a)) addrs @
        as_bytes canon @ [0] else [])"
  by (simp add: ai_reply_def Let_def push_i32_def)

lemma length_ai_reply: "24 \<le> length (ai_reply en f e canon addrs)"
  by (simp add: ai_reply_def Let_def push_i32_def)

lemma hst_fields:
  "int_at en (hst_reply en f e nm family addrs) 0 = VERSION"
  "int_at en (hst_reply en f e nm family addrs) 4 = f"
  "int_at en (hst_reply en f e nm family addrs) 8 = (if f = 1 then word_of_nat (length nm) + 1 else 0)"
  "int_at en (hst_reply en f e nm family addrs) 12 = 0"
  "int_at en (hst_reply en f e nm family addrs) 16 = (if f = 1 then family else -1)"
  "int_at en (hst_reply en f e nm family addrs) 20 =
     (if f = 1 then if family = AF_INET6 then 16 else 4 else -1)"
  "int_at en (hst_reply en f e nm family addrs) 24 = (if f = 1 then word_of_nat (length addrs) else 0)"
  "int_at en (hst_reply en f e nm family addrs) 28 = e"
  by (simp_all add: hst_reply_def Let_def push_i32_def int_at_def i32ne.dec_enc)

lemma hst_body:
  "drop 32 (hst_reply en f e nm family addrs) =
     (if f = 1 then as_bytes nm @ [0] @ concat (map address_bytes addrs) else [])"
  by (simp add: hst_reply_def Let_def push_i32_def)

lemma length_hst_reply: "32 \<le> length (hst_reply en f e nm family addrs)"
  by (simp add: hst_reply_def Let_def push_i32_def)

lemmas reply_layout = ai_fields ai_body hst_fields hst_body

lemma not_found_cases:
  "not_found en t err = (if t = GetAi then ai_not_found en err else hst_not_found en err)"
  by (cases t) (simp_all add: not_found_def)

lemma not_found_valid: "valid_host_reply en t (not_found en t err)"
  by (cases "t = GetAi")
     (simp_all add: not_found_cases valid_ai_iff valid_hst_iff ai_not_found_def hst_not_found_def
        ai_fields hst_fields length_ai_reply length_hst_reply)

lemma length_from_header: "n \<le> length b \<Longrightarrow> length b = n + length (drop n b)"
  by simp

lemma ai_found_valid:
  assumes "length canon < 2 ^ 30" "length addrs < 2 ^ 26"
  shows "valid_host_reply en GetAi (ai_found en canon addrs)"
proof -
  have p: "length (concat (map address_bytes addrs)) < 2 ^ 31"
    using length_packed_le [of addrs] assms(2) by simp
  have c: "length canon + 1 < 2 ^ 31" and a: "length addrs < 2 ^ 31" using assms by simp_all
  have "length (ai_found en canon addrs) =
      24 + length addrs + length (concat (map address_bytes addrs)) + (length canon + 1)"
    using length_from_header [OF length_ai_reply, of en 1 0 canon addrs]
    by (simp add: ai_found_def ai_body)
  then show ?thesis
    using length_ai_reply [of en 1 0 canon addrs] sint_small [OF p] sint_small [OF c] sint_small [OF a]
    by (simp add: valid_ai_iff ai_found_def ai_fields)
qed

lemma hst_found_valid:
  assumes "hst_found en nm family addrs = Some b" "t \<noteq> GetAi" "length nm < 2 ^ 30" "length addrs < 2 ^ 26"
  shows "valid_host_reply en t b"
proof -
  define m where "m = filter (\<lambda>a. address_family a = family) addrs"
  have b: "b = hst_reply en 1 0 nm family m"
    using assms(1) by (auto simp: hst_found_def Let_def m_def split: if_splits)
  have "length m \<le> length addrs" by (simp add: m_def)
  then have a: "length m < 2 ^ 31" using assms(4) by simp
  have c: "length nm + 1 < 2 ^ 31" using assms(3) by simp
  have w: "word_of_nat (length nm) + 1 = (word_of_nat (length nm + 1) :: i32)" by simp
  have "list_all (\<lambda>a. address_family a = family) m" by (simp add: m_def list_all_iff)
  from length_packed_family [OF this]
  have "length b = 32 + (length nm + 1) + (if family = AF_INET6 then 16 else 4) * length m"
    using length_from_header [OF length_hst_reply, of en 1 0 nm family m] by (simp add: b hst_body)
  then show ?thesis
    using length_hst_reply [of en 1 0 nm family m] sint_small [OF c] sint_small [OF a]
    by (simp add: valid_hst_iff assms(2) b hst_fields w del: of_nat_add)
qed

lemma found_valid:
  assumes "length nm < 2 ^ 30" "length addrs < 2 ^ 26"
  shows "valid_host_reply en t (found en t nm addrs)"
proof (cases "t = GetAi")
  case True
  then show ?thesis using ai_found_valid [OF assms] by (simp add: found_def)
next
  case False
  then obtain family where f: "found en t nm addrs =
      (case hst_found en nm family addrs of Some b \<Rightarrow> b | None \<Rightarrow> hst_not_found en NO_DATA)"
    by (cases t) (auto simp: found_def)
  show ?thesis
    using False hst_found_valid [OF _ False assms] not_found_valid [of en t NO_DATA]
    by (cases "hst_found en nm family addrs") (simp_all add: f not_found_cases)
qed

section \<open>The check at 64 bits\<close>

lemma sint_i32_bounds: "- (2 ^ 31) \<le> sint (w :: i32)" "sint (w :: i32) < 2 ^ 31"
  using sint_greater_eq [of w] sint_less [of w] by simp_all

lemma sint_scast_i64 [simp]: "sint (scast (w :: i32) :: i64) = sint w"
  using sint_i32_bounds [of w] by (simp add: signed_scast_eq signed_take_bit_int_eq_self)

lemma sint_i64_add: "- (2 ^ 63) \<le> sint a + sint b \<Longrightarrow> sint a + sint b < 2 ^ 63 \<Longrightarrow> sint (a + b :: i64) = sint a + sint b"
  by (simp add: sint_word_ariths signed_take_bit_int_eq_self)

lemma sint_i64_mult: "- (2 ^ 63) \<le> sint a * sint b \<Longrightarrow> sint a * sint b < 2 ^ 63 \<Longrightarrow> sint (a * b :: i64) = sint a * sint b"
  by (simp add: sint_word_ariths signed_take_bit_int_eq_self)

lemma sint_i64_of_nat: "n < 2 ^ 63 \<Longrightarrow> sint (word_of_nat n :: i64) = int n"
  by (simp add: signed_of_nat signed_take_bit_int_eq_self)

lemma i64_eq_iff: "(a :: i64) = b \<longleftrightarrow> sint a = sint b"
  by (metis signed_word_eqI)

lemma scast_i64_eq: "(scast (a :: i32) :: i64) = b \<longleftrightarrow> sint a = sint b"
  by (simp add: i64_eq_iff)

text \<open>A sum of four terms that cannot leave the range, added one after the other.\<close>

lemma sint_i64_sum4:
  assumes "0 \<le> sint a" "0 \<le> sint b" "0 \<le> sint c" "0 \<le> sint d"
    and "sint a < 2 ^ 40" "sint b < 2 ^ 40" "sint c < 2 ^ 40" "sint d < 2 ^ 40"
  shows "sint (a + b + c + d :: i64) = sint a + sint b + sint c + sint d"
  using assms by (simp add: sint_i64_add)

lemma ai_sum:
  assumes "0 \<le> sint a" "0 \<le> sint b" "0 \<le> sint c"
  shows "sint (24 + scast (a :: i32) + scast (b :: i32) + scast (c :: i32) :: i64) = 24 + sint a + sint b + sint c"
  using sint_i64_sum4 [of 24 "scast a" "scast b" "scast c"] assms sint_i32_bounds(2) [of a]
    sint_i32_bounds(2) [of b] sint_i32_bounds(2) [of c] by simp

lemma hst_sum:
  assumes "0 \<le> sint a" "0 \<le> sint b" "0 \<le> sint c" "sint l = 4 \<or> sint l = 16"
  shows "sint (32 + scast (a :: i32) + scast (b :: i32) * 4 + scast (c :: i32) * scast (l :: i32) :: i64) =
     32 + sint a + sint b * 4 + sint c * sint l"
proof -
  note le = sint_i32_bounds(2)
  have "sint (scast b * 4 :: i64) = sint b * 4"
    using sint_i64_mult [of "scast b" 4] assms(2) le [of b] by simp
  moreover have "sint (scast c * scast l :: i64) = sint c * sint l"
    using sint_i64_mult [of "scast c" "scast l"] assms(3,4) le [of c] by auto
  moreover have "sint c * sint l < 2 ^ 40" "0 \<le> sint c * sint l" using assms(3,4) le [of c] by auto
  ultimately show ?thesis
    using sint_i64_sum4 [of 32 "scast a" "scast b * 4" "scast c * scast l"] assms(1,2) le [of a] le [of b] by simp
qed

lemmas hst_sums = hst_sum [where l = 4, simplified] hst_sum [where l = 16, simplified]

lemma slice_field_i64:
  "map_option (\<lambda>b. scast (from_ne_bytes en b :: i32) :: i64) (slice reply at (at + 4)) =
     (if at + 4 \<le> length reply then Some (scast (int_at en reply at)) else None)"
  by (simp add: slice_def int_at_def)

lemma scast_i64_inject: "(scast (w :: i32) :: i64) = scast v \<longleftrightarrow> w = v"
  unfolding i64_eq_iff sint_scast_i64 by (metis signed_word_eqI)

lemmas scast_i64_consts = scast_i64_inject [of _ 0, simplified] scast_i64_inject [of _ 1, simplified]


lemma scast_i64_small:
  "(scast (w :: i32) :: i64) = 2 \<longleftrightarrow> w = 2" "(scast (w :: i32) :: i64) = 4 \<longleftrightarrow> w = 4"
  "(scast (w :: i32) :: i64) = 16 \<longleftrightarrow> w = 16"
  using scast_i64_inject [of w 2] scast_i64_inject [of w 4] scast_i64_inject [of w 16] by simp_all

lemma valid_host_reply_i64_eq:
  assumes "length reply < 2 ^ 63"
  shows "valid_host_reply_i64 en t reply = valid_host_reply en t reply"
proof (cases "t = GetAi")
  case True
  have len: "sint (word_of_nat (length reply) :: i64) = int (length reply)"
    using sint_i64_of_nat [OF assms] .
  show ?thesis
    unfolding True valid_ai_iff valid_host_reply_i64_def Let_def slice_field_i64 
    by (auto simp: word_sle_eq word_sless_alt len scast_i64_consts scast_i64_small i64_eq_iff [of "word_of_nat (length reply)"]
          ai_sum nscd_consts)
next
  case False
  have len: "sint (word_of_nat (length reply) :: i64) = int (length reply)"
    using sint_i64_of_nat [OF assms] .
  have case_t: "(case t of GetAi \<Rightarrow> A | _ \<Rightarrow> B) = B" for A B :: bool using False by (cases t) simp_all
  show ?thesis
    unfolding valid_hst_iff [OF False] valid_host_reply_i64_def Let_def slice_field_i64 case_t
    by (auto simp: word_sle_eq word_sless_alt len scast_i64_consts scast_i64_small 
          hst_sums nscd_consts)
qed
section \<open>Properties\<close>

lemma from_i32_None_iff: "from_i32 v = None \<longleftrightarrow> sint v < 0 \<or> 22 \<le> sint v"
  by (auto simp: from_i32_def usize_try_from_def get_def)

text \<open>
  The number of a request type on the wire is its place in glibc's enumeration: each number
  names at most one type and each type has one number, and the numbers outside 0 to 21, negative
  ones included, name none.
\<close>

theorem request_type_numbers:
  "(from_i32 v = Some t \<longleftrightarrow> v = as_i32 t) \<and> (from_i32 v = None \<longleftrightarrow> sint v < 0 \<or> 22 \<le> sint v)"
  by (simp add: from_i32_Some_iff from_i32_None_iff)

text \<open>
  (C27) Parsing and printing requests are inverse: the parser accepts exactly the encodings of a
  request type and a key of at most 1024 bytes, and keeps the bytes it was given.
\<close>

theorem request_round_trip:
  "parse en bs = Inr r \<longleftrightarrow>
     raw r = bs \<and> bs = encode en (ty r) (key r) \<and> length (key r) \<le> MAX_KEY_LEN"
  by (rule parse_Inr_iff)

text \<open>
  Reading a request from a connection consumes exactly the bytes of that request and leaves
  the rest of the stream; whatever the client sends, no more than a header and the longest key is
  ever taken from it.
\<close>

theorem read_request_exact:
  "(read_request en st = (Ready r, st') \<longleftrightarrow>
      inbuf st = raw r @ inbuf st' \<and> at_end st' = at_end st \<and> parse en (raw r) = Inr r) \<and>
   (\<exists>taken. length taken \<le> HEADER_LEN + MAX_KEY_LEN \<and>
      inbuf st = taken @ inbuf (snd (read_request en st)))"
proof -
  have taken: "\<exists>taken. length taken \<le> n \<and> inbuf st = taken @ inbuf (snd (read_exact n st))" for n st
    by (auto simp: read_exact_def intro: exI [of _ "take n (inbuf st)"])
  have rd: "snd (read_request en st) = snd (read_exact HEADER_LEN st) \<or>
    (\<exists>n \<le> MAX_KEY_LEN. snd (read_request en st) = snd (read_exact n (snd (read_exact HEADER_LEN st))))"
    by (auto simp: read_request_def
          split: prod.split await.split option.split sum.split)
  obtain a where a: "length a \<le> HEADER_LEN" "inbuf st = a @ inbuf (snd (read_exact HEADER_LEN st))"
    using taken by blast
  have "\<exists>taken. length taken \<le> HEADER_LEN + MAX_KEY_LEN \<and>
      inbuf st = taken @ inbuf (snd (read_request en st))"
    using rd
  proof (elim disjE exE conjE)
    assume "snd (read_request en st) = snd (read_exact HEADER_LEN st)"
    then show ?thesis using a by (intro exI [of _ a]) simp
  next
    fix n assume n: "n \<le> MAX_KEY_LEN"
      "snd (read_request en st) = snd (read_exact n (snd (read_exact HEADER_LEN st)))"
    obtain b where "length b \<le> n"
      "inbuf (snd (read_exact HEADER_LEN st)) = b @ inbuf (snd (read_request en st))"
      using taken n(2) by metis
    then show ?thesis using a n(1) by (intro exI [of _ "a @ b"]) simp
  qed
  then show ?thesis using read_request_Ready_iff by blast
qed

text \<open>
  A positive answer to a host request carries what was looked up: the name, and all addresses
  (\<open>GETAI\<close>) or those of the requested family, each in network order, with their count; without an
  address of that family the answer is "no data".
\<close>

theorem found_carries_addresses:
  "drop AI_HEADER_LEN (found en GetAi nm addrs) =
     concat (map octets addrs) @ map (\<lambda>a. if is_ipv4 a then 2 else 10) addrs @ as_bytes nm @ [0] \<and>
   (let v4 = filter is_ipv4 addrs in
    if v4 = [] then found en GetHostByName nm addrs = not_found en GetHostByName NO_DATA
    else drop HST_HEADER_LEN (found en GetHostByName nm addrs) =
           as_bytes nm @ [0] @ concat (map octets v4) \<and>
         int_at en (found en GetHostByName nm addrs) 24 = word_of_nat (length v4)) \<and>
   (let v6 = filter (\<lambda>a. \<not> is_ipv4 a) addrs in
    if v6 = [] then found en GetHostByNameV6 nm addrs = not_found en GetHostByNameV6 NO_DATA
    else drop HST_HEADER_LEN (found en GetHostByNameV6 nm addrs) =
           as_bytes nm @ [0] @ concat (map octets v6) \<and>
         int_at en (found en GetHostByNameV6 nm addrs) 24 = word_of_nat (length v6))"
proof -
  have fam: "address_family a = AF_INET \<longleftrightarrow> is_ipv4 a" "address_family a = AF_INET6 \<longleftrightarrow> \<not> is_ipv4 a"
    "(ucast (address_family a) :: byte) = (if is_ipv4 a then 2 else 10)" for a
    by (simp_all add: address_family_def is_ipv4_def AF_INET_def AF_INET6_def split: ip_addr.split)
  have bytes: "address_bytes = octets" by (rule ext) (simp add: address_bytes_def)
  show ?thesis
    by (simp add: found_def ai_found_def hst_found_def Let_def not_found_cases AI_HEADER_LEN_def
          HST_HEADER_LEN_def ai_body hst_body hst_fields fam bytes)
qed

text \<open>
  (C34) The check applied to the replies of the real nscd does its arithmetic in 64 bits, on counts and
  lengths an arbitrary peer chose; none of it overflows: for every reply a slice can hold the check
  gives the answer it gives over unbounded integers.
\<close>

theorem host_reply_check_exact:
  assumes "length reply < 2 ^ 63"
  shows "valid_host_reply_i64 en t reply = valid_host_reply en t reply"
  using assms by (rule valid_host_reply_i64_eq)

theorem host_reply_check_exact_witness:
  "\<not> valid_host_reply_i64 Little GetHostByName
     (concat (map (to_ne_bytes Little 4) [2, 1, 0x7FFFFFFF, 0x7FFFFFFF, 2, 16, 0x7FFFFFFF, 0 :: i32]))"
proof -
  let ?b = "concat (map (to_ne_bytes Little 4) [2, 1, 0x7FFFFFFF, 0x7FFFFFFF, 2, 16, 0x7FFFFFFF, 0 :: i32])"
  have "\<not> valid_host_reply Little GetHostByName ?b" by code_simp
  then show ?thesis using host_reply_check_exact [of ?b Little GetHostByName] by simp
qed

end
