(* ===== verification/Nscd_Frontend.thy ===== *)
theory Nscd_Frontend
  imports Nscd_Wire Protocol
begin

text \<open>
  The nscd front-end (\<open>src/nscd.rs\<close>): it answers host requests under the policy and forwards
  everything else to the real nscd. The outside world is a parameter: the client's connection
  (credentials, incoming bytes, what writing and shutting down do) and the Unix socket of the real
  nscd (what connecting, writing and reading give before a deadline). Operations return what they
  wrote, in order, beside their result.
\<close>

section \<open>State and environment\<close>

text \<open>Deadlines are in milliseconds; \<open>nf_slots\<close> is the size of the semaphore.\<close>

record 'p nscd_frontend =
  fe_listen :: string
  fe_upstream :: string
  fe_read_timeout :: nat
  fe_upstream_timeout :: nat
  fe_slots :: usize
  fe_engine :: "'p policy_engine"

definition NSCD_MAX_CONNECTIONS :: usize where "NSCD_MAX_CONNECTIONS = 512"
definition NSCD_READ_TIMEOUT :: nat where "NSCD_READ_TIMEOUT = 5000"
definition NSCD_UPSTREAM_TIMEOUT :: nat where "NSCD_UPSTREAM_TIMEOUT = 5000"

definition nscd_with_limits ::
  "nscd_frontend_config \<Rightarrow> 'p policy_engine \<Rightarrow> nat \<Rightarrow> nat \<Rightarrow> usize \<Rightarrow> 'p nscd_frontend"
where
  "nscd_with_limits cfg eng read_timeout upstream_timeout max_connections =
     \<lparr>fe_listen = nf_listen cfg, fe_upstream = nf_upstream cfg, fe_read_timeout = read_timeout,
      fe_upstream_timeout = upstream_timeout, fe_slots = max_connections, fe_engine = eng\<rparr>"

definition nscd_new :: "nscd_frontend_config \<Rightarrow> 'p policy_engine \<Rightarrow> 'p nscd_frontend" where
  "nscd_new cfg eng =
     nscd_with_limits cfg eng NSCD_READ_TIMEOUT NSCD_UPSTREAM_TIMEOUT NSCD_MAX_CONNECTIONS"

datatype reply = Bytes bytes | Close

datatype nscd_event = SentUpstream string bytes | SentClient bytes | ShutDown

text \<open>
  A connection to the real nscd: the fate of a write, and the stream that answers the bytes
  written. Connecting is a function of the deadline and the path.
\<close>

record unix_conn =
  uc_write :: "bytes \<Rightarrow> unit await"
  uc_answer :: "bytes \<Rightarrow> stream"

type_synonym unix_net = "nat \<Rightarrow> string \<Rightarrow> unix_conn await"

text \<open>A client: a write that stalls never completes, since nothing bounds it.\<close>

record nscd_client =
  cl_cred :: "int + ucred"
  cl_incoming :: "nat \<Rightarrow> stream"
  cl_write :: "bytes \<Rightarrow> unit await"
  cl_shutdown :: "unit await"

section \<open>Operations\<close>

definition forward ::
  "unix_net \<Rightarrow> 'p nscd_frontend \<Rightarrow> request \<Rightarrow> nscd_event list \<times> bytes io_result"
where
  "forward net fe req =
     (let (sent, result) =
        (case net (fe_upstream_timeout fe) (fe_upstream fe) of
           Failed e \<Rightarrow> ([], Failed e)
         | Stalled \<Rightarrow> ([], Stalled)
         | Ready upstream \<Rightarrow>
             ([SentUpstream (fe_upstream fe) (raw req)],
              await_bind (uc_write upstream (raw req))
                (\<lambda>_. read_to_end (uc_answer upstream (raw req)))))
      in (sent, case timeout result of Some r \<Rightarrow> r | None \<Rightarrow> Inl KTimedOut))"

definition forward_host ::
  "endianness \<Rightarrow> unix_net \<Rightarrow> 'p nscd_frontend \<Rightarrow> request \<Rightarrow> nscd_event list \<times> reply"
where
  "forward_host en net fe req =
     (case forward net fe req of
        (sent, Inr bytes) \<Rightarrow>
          if valid_host_reply en (ty req) bytes then (sent, Bytes bytes)
          else (sent, Bytes (not_found en (ty req) TRY_AGAIN))
      | (sent, Inl e) \<Rightarrow> (sent, Bytes (not_found en (ty req) TRY_AGAIN)))"

definition reply_for ::
  "endianness \<Rightarrow> ('p, 'e, 'v) cel_execute \<Rightarrow> unix_net \<Rightarrow> 'p nscd_frontend \<Rightarrow> request \<Rightarrow> caller
     \<Rightarrow> nscd_event list \<times> reply"
where
  "reply_for en execute net fe req c =
     (if \<not> is_host_lookup (ty req) then
        (case forward net fe req of
           (sent, Inr bytes) \<Rightarrow> (sent, Bytes bytes)
         | (sent, Inl e) \<Rightarrow> (sent, Close))
      else
        case hostname req of
          None \<Rightarrow> ([], Close)
        | Some nm \<Rightarrow>
            (case evaluate_for execute (fe_engine fe) nm c of
               Denied reason \<Rightarrow> ([], Bytes (not_found en (ty req) HOST_NOT_FOUND))
             | PassThrough \<Rightarrow> forward_host en net fe req
             | Allowed \<Rightarrow>
                 let addrs = upstream_resolve nm in
                 if addrs = [] then forward_host en net fe req
                 else ([], Bytes (found en (ty req) nm addrs))))"

definition handle ::
  "endianness \<Rightarrow> ('p, 'e, 'v) cel_execute \<Rightarrow> unix_net \<Rightarrow> 'p nscd_frontend \<Rightarrow> nscd_client
     \<Rightarrow> nscd_event list \<times> unit await"
where
  "handle en execute net fe cl =
     (case peer_caller (cl_cred cl) of
        Inl e \<Rightarrow> ([], Failed e)
      | Inr c \<Rightarrow>
          (case timeout (fst (read_request en (cl_incoming cl (fe_read_timeout fe)))) of
             Some (Inl e) \<Rightarrow> ([], Ready ())
           | None \<Rightarrow> ([], Ready ())
           | Some (Inr req) \<Rightarrow>
               (case reply_for en execute net fe req c of
                  (sent, Bytes bytes) \<Rightarrow>
                    (case cl_write cl bytes of
                       Ready _ \<Rightarrow> (sent @ [SentClient bytes, ShutDown], cl_shutdown cl)
                     | Failed e \<Rightarrow> (sent @ [SentClient bytes], Failed e)
                     | Stalled \<Rightarrow> (sent @ [SentClient bytes], Stalled))
                | (sent, Close) \<Rightarrow> (sent @ [ShutDown], cl_shutdown cl))))"

section \<open>What a forwarded request does\<close>

lemma forward_sends:
  "fst (forward net fe req) = [] \<or> fst (forward net fe req) = [SentUpstream (fe_upstream fe) (raw req)]"
  by (auto simp: forward_def split: await.split)

lemma within_deadline:
  "(case timeout a of Some r \<Rightarrow> r | None \<Rightarrow> Inl KTimedOut) = Inr x \<longleftrightarrow> a = Ready x"
  by (cases a) auto

lemma read_to_end_Ready_iff: "read_to_end st = Ready b \<longleftrightarrow> st = \<lparr>inbuf = b, at_end = Closed\<rparr>"
  by (cases st) (auto simp: read_to_end_def split: stream_end.split)

lemma forward_Inr_iff:
  "forward net fe req = (sent, Inr b) \<longleftrightarrow>
     sent = [SentUpstream (fe_upstream fe) (raw req)] \<and>
     (\<exists>up. net (fe_upstream_timeout fe) (fe_upstream fe) = Ready up \<and> uc_write up (raw req) = Ready () \<and>
           uc_answer up (raw req) = \<lparr>inbuf = b, at_end = Closed\<rparr>)"
  by (cases "net (fe_upstream_timeout fe) (fe_upstream fe)")
     (auto simp: forward_def within_deadline await_bind_Ready_iff read_to_end_Ready_iff)

lemma forward_host_sends: "fst (forward_host en net fe req) = fst (forward net fe req)"
  by (simp add: forward_host_def split: prod.split sum.split)

lemma forward_host_valid: "\<exists>b. snd (forward_host en net fe req) = Bytes b \<and> valid_host_reply en (ty req) b"
  by (auto simp: forward_host_def not_found_valid split: prod.split sum.split)

lemma parse_raw_length: "parse en bs = Inr r \<Longrightarrow> length (key r) \<le> 1024"
  by (simp add: parse_Inr_iff MAX_KEY_LEN_def)

lemma hostname_length: "hostname r = Some nm \<Longrightarrow> length nm \<le> length (key r)"
  by (auto simp: hostname_def from_utf8_def strip_nul_def split: option.splits if_splits)

lemma reply_for_sends:
  "fst (reply_for en execute net fe req c) = [] \<or>
   fst (reply_for en execute net fe req c) = [SentUpstream (fe_upstream fe) (raw req)]"
  using forward_sends [of net fe req] forward_host_sends [of en net fe req]
  by (auto simp: reply_for_def Let_def split: prod.split sum.split option.split policy_verdict.split)

lemma reply_for_valid:
  assumes "is_host_lookup (ty req)" "hostname req = Some nm" "length (key req) \<le> MAX_KEY_LEN"
  shows "\<exists>b. snd (reply_for en execute net fe req c) = Bytes b \<and> valid_host_reply en (ty req) b"
proof -
  have "length nm < 2 ^ 30"
    using hostname_length [OF assms(2)] assms(3) by (simp add: MAX_KEY_LEN_def)
  moreover have "length (upstream_resolve nm) < 2 ^ 26"
    using length_upstream_resolve [of nm] by simp
  ultimately have "valid_host_reply en (ty req) (found en (ty req) nm (upstream_resolve nm))"
    by (rule found_valid)
  then show ?thesis
    using assms(1,2) forward_host_valid [of en net fe req] not_found_valid
    by (auto simp: reply_for_def Let_def split: policy_verdict.split)
qed

text \<open>Only the client can keep a handler from returning: everything else has a deadline.\<close>

lemma handle_stalled:
  "snd (handle en execute net fe cl) = Stalled \<Longrightarrow> (\<exists>b. cl_write cl b = Stalled) \<or> cl_shutdown cl = Stalled"
  by (auto simp: handle_def split: sum.splits option.splits prod.splits reply.splits await.splits)

text \<open>The specification, implemented for any machine, rule interpreter, network and engine.\<close>

definition nscd_subject :: "request \<Rightarrow> string option" where
  "nscd_subject req = (if is_host_lookup (ty req) then hostname req else None)"

definition nscd_realise ::
  "endianness \<Rightarrow> unix_net \<Rightarrow> 'p nscd_frontend \<Rightarrow> request \<Rightarrow> decision \<Rightarrow> nscd_event list \<times> reply"
where
  "nscd_realise en net fe req d =
     (case d of
        Refuse why \<Rightarrow> ([], Bytes (not_found en (ty req) HOST_NOT_FOUND))
      | Forward \<Rightarrow> forward_host en net fe req
      | Own addrs \<Rightarrow>
          ([], case hostname req of Some nm \<Rightarrow> Bytes (found en (ty req) nm addrs) | None \<Rightarrow> Close))"

interpretation nscd_front: policy_resolver
  "evaluate_for execute (fe_engine fe)" canonical_hostname "\<lambda>_. False" nscd_subject
  "nscd_realise en net fe" "reply_for en execute net fe"
  for en execute net fe
  by unfold_locales
     (auto simp: nscd_subject_def nscd_realise_def reply_for_def lookup_decision_def Let_def
        split: if_splits policy_verdict.splits)

lemma read_one_request:
  "parse en bs = Inr req \<Longrightarrow>
     read_request en \<lparr>inbuf = bs @ rest, at_end = e\<rparr> = (Ready req, \<lparr>inbuf = rest, at_end = e\<rparr>)"
  using read_request_Ready_iff [of en "\<lparr>inbuf = bs @ rest, at_end = e\<rparr>" req "\<lparr>inbuf = rest, at_end = e\<rparr>"]
  by (auto simp: parse_Inr_iff)

text \<open>
  What justifies sending bytes to the real nscd for a client: they are the request it sent, and a
  host request is forwarded only by the decision on its name for this client.
\<close>

definition nscd_justified ::
  "endianness \<Rightarrow> (string \<Rightarrow> caller \<Rightarrow> policy_verdict) \<Rightarrow> nscd_client \<Rightarrow> bytes \<Rightarrow> bool"
where
  "nscd_justified en judge cl b \<longleftrightarrow>
     (\<exists>c req. peer_caller (cl_cred cl) = Inr c \<and> parse en b = Inr req \<and>
        (is_host_lookup (ty req) \<longrightarrow>
           (\<exists>nm. hostname req = Some nm \<and> lookup_decision judge (\<lambda>_. False) nm c = Forward)))"

lemma reply_for_upstream:
  assumes "fst (reply_for en execute net fe req c) \<noteq> []" "is_host_lookup (ty req)"
  shows "\<exists>nm. hostname req = Some nm \<and>
     lookup_decision (evaluate_for execute (fe_engine fe)) (\<lambda>_. False) nm c = Forward"
proof (cases "hostname req")
  case (Some nm)
  then show ?thesis
    using nscd_front.contacted_forward [of req nm en execute net fe c] assms by (simp add: nscd_subject_def)
qed (use assms in \<open>simp add: reply_for_def\<close>)

lemma handle_upstream:
  assumes "SentUpstream up b \<in> set (fst (handle en execute net fe cl))"
  shows "up = fe_upstream fe \<and> nscd_justified en (evaluate_for execute (fe_engine fe)) cl b \<and>
         (\<exists>rest. inbuf (cl_incoming cl (fe_read_timeout fe)) = b @ rest)"
proof -
  let ?st = "cl_incoming cl (fe_read_timeout fe)"
  obtain c req where c: "peer_caller (cl_cred cl) = Inr c" and r: "fst (read_request en ?st) = Ready req"
    and ev: "SentUpstream up b \<in> set (fst (reply_for en execute net fe req c))"
    using assms
    by (cases "fst (read_request en ?st)")
       (auto simp: handle_def split: sum.splits prod.splits reply.splits await.splits)
  then have "read_request en ?st = (Ready req, snd (read_request en ?st))" by (metis prod.collapse)
  then have "inbuf ?st = raw req @ inbuf (snd (read_request en ?st))" "parse en (raw req) = Inr req"
    by (simp_all add: read_request_Ready_iff)
  moreover have "up = fe_upstream fe" "b = raw req" "fst (reply_for en execute net fe req c) \<noteq> []"
    using ev reply_for_sends [of en execute net fe req c] by auto
  ultimately show ?thesis using c reply_for_upstream by (auto simp: nscd_justified_def)
qed

section \<open>Properties\<close>

text \<open>
  (C4) A host request whose name is denied to the caller, under any spelling of the name, is
  answered "host not found" by a complete negative reply, and nothing is sent to the real nscd.
\<close>

theorem nscd_denied:
  assumes "is_host_lookup (ty req)" "hostname req = Some nm"
    and "canonical_hostname nm = canonical_hostname nm'"
    and "evaluate_for execute (fe_engine fe) nm' c = Denied why"
  shows "reply_for en execute net fe req c = ([], Bytes (not_found en (ty req) HOST_NOT_FOUND)) \<and>
         int_at en (not_found en (ty req) HOST_NOT_FOUND) 4 = 0 \<and>
         int_at en (not_found en (ty req) HOST_NOT_FOUND) (if ty req = GetAi then 20 else 28)
           = HOST_NOT_FOUND"
proof -
  have "nscd_subject req = Some nm" using assms(1,2) by (simp add: nscd_subject_def)
  from nscd_front.refused [OF this _ assms(3,4)] show ?thesis
    by (simp add: nscd_realise_def not_found_cases ai_not_found_def hst_not_found_def ai_fields hst_fields)
qed

text \<open>
  (C9) The reply to a host request that names a host never looks to glibc like the absence of
  nscd: whatever the policy says and whatever the real nscd does (unreachable, silent, failing,
  truncated or malformed replies, \<open>found = -1\<close>), the client is sent a complete reply whose
  \<open>found\<close> is 0 or 1.
\<close>

theorem nscd_host_reply_valid:
  assumes "parse en bs = Inr req" "is_host_lookup (ty req)" "hostname req = Some nm"
  shows "\<exists>b. snd (reply_for en execute net fe req c) = Bytes b \<and> valid_host_reply en (ty req) b \<and>
             (int_at en b 4 = 0 \<or> int_at en b 4 = 1)"
proof -
  have "length (key req) \<le> MAX_KEY_LEN" using assms(1) by (simp add: parse_Inr_iff)
  from reply_for_valid [OF assms(2,3) this, of en execute net fe c] obtain b where
    "snd (reply_for en execute net fe req c) = Bytes b" "valid_host_reply en (ty req) b" by blast
  then show ?thesis
    by (cases "ty req = GetAi") (auto simp: valid_ai_iff valid_hst_iff)
qed

text \<open>
  Whatever reaches the real nscd is a request of the client, byte for byte, and at most once
  per connection: everything a connection sends upstream is the prefix of the client's bytes that
  parsed.
\<close>

theorem nscd_forwards_verbatim:
  "(\<exists>bs. filter (\<lambda>e. case e of SentUpstream _ _ \<Rightarrow> True | _ \<Rightarrow> False) (fst (handle en execute net fe cl))
      = [SentUpstream (fe_upstream fe) bs] \<and>
      (\<exists>rest. inbuf (cl_incoming cl (fe_read_timeout fe)) = bs @ rest) \<and> (\<exists>req. parse en bs = Inr req)) \<or>
   filter (\<lambda>e. case e of SentUpstream _ _ \<Rightarrow> True | _ \<Rightarrow> False) (fst (handle en execute net fe cl)) = []"
proof (cases "peer_caller (cl_cred cl)")
  case (Inr c)
  let ?st = "cl_incoming cl (fe_read_timeout fe)"
  show ?thesis
  proof (cases "fst (read_request en ?st)")
    case (Ready req)
    then have "read_request en ?st = (Ready req, snd (read_request en ?st))" by (metis prod.collapse)
    then have r: "inbuf ?st = raw req @ inbuf (snd (read_request en ?st))" "parse en (raw req) = Inr req"
      by (simp_all add: read_request_Ready_iff)
    show ?thesis
      using reply_for_sends [of en execute net fe req c] r Inr Ready
      by (auto simp: handle_def split: prod.split reply.split await.split)
  qed (simp_all add: handle_def Inr)
qed (simp add: handle_def)

text \<open>
  (C35) What a malformed or nameless request gets: a connection whose bytes are no request, end early
  or stay away until the deadline is dropped without a byte; a host request whose key is empty or
  not UTF-8 is closed without a reply. Neither reaches the real nscd.
\<close>

theorem nscd_unusable_requests:
  assumes "peer_caller (cl_cred cl) = Inr c"
  shows "((\<nexists>req. fst (read_request en (cl_incoming cl (fe_read_timeout fe))) = Ready req) \<longrightarrow>
            handle en execute net fe cl = ([], Ready ())) \<and>
         (fst (read_request en (cl_incoming cl (fe_read_timeout fe))) = Ready req \<longrightarrow>
            is_host_lookup (ty req) \<longrightarrow> strip_nul (key req) = [] \<or> \<not> utf8_valid (strip_nul (key req)) \<longrightarrow>
            handle en execute net fe cl = ([ShutDown], cl_shutdown cl))"
proof (intro conjI impI)
  let ?r = "fst (read_request en (cl_incoming cl (fe_read_timeout fe)))"
  assume "\<nexists>req. ?r = Ready req"
  then show "handle en execute net fe cl = ([], Ready ())" using assms by (cases ?r) (auto simp: handle_def)
next
  assume "fst (read_request en (cl_incoming cl (fe_read_timeout fe))) = Ready req" "is_host_lookup (ty req)"
    "strip_nul (key req) = [] \<or> \<not> utf8_valid (strip_nul (key req))"
  moreover from this(3) have "hostname req = None" by (auto simp: hostname_def from_utf8_def str_of_bytes_def)
  ultimately show "handle en execute net fe cl = ([ShutDown], cl_shutdown cl)"
    using assms by (simp add: handle_def reply_for_def)
qed

text \<open>
  Requests that are not host lookups are not judged: what the real nscd sends before it closes
  is relayed unchanged, and if it cannot be reached, fails or exceeds the deadline the connection is
  closed without a reply.
\<close>

theorem nscd_other_requests_relayed:
  assumes "\<not> is_host_lookup (ty req)"
  shows "reply_for en execute net fe req c = apsnd (case_sum (\<lambda>_. Close) Bytes) (forward net fe req) \<and>
         (forward net fe req = (sent, Inr b) \<longleftrightarrow>
            sent = [SentUpstream (fe_upstream fe) (raw req)] \<and>
            (\<exists>up. net (fe_upstream_timeout fe) (fe_upstream fe) = Ready up \<and> uc_write up (raw req) = Ready () \<and>
                  uc_answer up (raw req) = \<lparr>inbuf = b, at_end = Closed\<rparr>))"
  using assms forward_Inr_iff [of net fe req sent b]
  by (simp add: reply_for_def split: prod.split sum.split)

section \<open>Witnesses\<close>

definition ai_request_a :: request where
  "ai_request_a = \<lparr>ty = GetAi, key = [97, 0], raw = encode Little GetAi [97, 0]\<rparr>"

definition front_deny_all :: "unit nscd_frontend" where
  "front_deny_all = nscd_new \<lparr>nf_enable = True, nf_listen = ''l'', nf_upstream = ''u''\<rparr> deny_all"

lemma parse_ai_request_a: "parse Little (encode Little GetAi [97, 0]) = Inr ai_request_a"
  by (simp add: parse_Inr_iff ai_request_a_def MAX_KEY_LEN_def)

lemma hostname_ai_request_a: "hostname ai_request_a = Some ''a''"
  by code_simp

lemma host_lookup_ai_request_a: "is_host_lookup (ty ai_request_a)"
  by (simp add: ai_request_a_def is_host_lookup_def)

theorem nscd_denied_witness:
  "reply_for Little failing_execute (\<lambda>_ _. Stalled) front_deny_all ai_request_a caller_unknown =
     ([], Bytes (not_found Little GetAi HOST_NOT_FOUND))"
proof -
  have c: "canonical_hostname ''a'' = canonical_hostname ''A.''" by code_simp
  have d: "evaluate_for failing_execute (fe_engine front_deny_all) ''A.'' caller_unknown =
      Denied (canonical_hostname ''A.'' @ '' denied by default policy'')"
    by (simp add: evaluate_for_def front_deny_all_def nscd_new_def nscd_with_limits_def deny_all_def)
  show ?thesis
    using nscd_denied [OF host_lookup_ai_request_a hostname_ai_request_a c d, of Little "\<lambda>_ _. Stalled"]
    by (simp add: ai_request_a_def)
qed

theorem nscd_host_reply_valid_witness:
  "\<exists>b. snd (reply_for Little failing_execute
        (\<lambda>_ _. Ready \<lparr>uc_write = (\<lambda>_. Ready ()), uc_answer = (\<lambda>_. \<lparr>inbuf = [1, 2, 3], at_end = Closed\<rparr>)\<rparr>)
        front_deny_all ai_request_a caller_unknown) = Bytes b \<and> valid_host_reply Little (ty ai_request_a) b"
  using nscd_host_reply_valid [OF parse_ai_request_a host_lookup_ai_request_a hostname_ai_request_a]
  by blast

theorem nscd_other_requests_relayed_witness:
  "reply_for Little failing_execute
     (\<lambda>_ _. Ready \<lparr>uc_write = (\<lambda>_. Ready ()), uc_answer = (\<lambda>_. \<lparr>inbuf = [7], at_end = Closed\<rparr>)\<rparr>)
     front_deny_all (ai_request_a\<lparr>ty := GetPwByName\<rparr>) caller_unknown =
   ([SentUpstream ''u'' (encode Little GetAi [97, 0])], Bytes [7])"
proof -
  let ?net = "\<lambda>(_ :: nat) (_ :: string).
    Ready \<lparr>uc_write = (\<lambda>_. Ready ()), uc_answer = (\<lambda>_. \<lparr>inbuf = [7], at_end = Closed\<rparr>)\<rparr>"
  have n: "\<not> is_host_lookup (ty (ai_request_a\<lparr>ty := GetPwByName\<rparr>))" by (simp add: is_host_lookup_def)
  show ?thesis
    using nscd_other_requests_relayed [OF n, of Little failing_execute ?net front_deny_all caller_unknown
        "[SentUpstream ''u'' (encode Little GetAi [97, 0])]" "[7]"]
    by (simp add: ai_request_a_def front_deny_all_def nscd_new_def nscd_with_limits_def)
qed

theorem nscd_unusable_requests_witness:
  "handle Little failing_execute (\<lambda>_ _. Stalled) front_deny_all
     \<lparr>cl_cred = Inr \<lparr>cred_pid = 7, cred_uid = 1000, cred_gid = 100\<rparr>,
      cl_incoming = (\<lambda>_. \<lparr>inbuf = encode Little GetAi [0], at_end = Silent\<rparr>),
      cl_write = (\<lambda>_. Stalled), cl_shutdown = Ready ()\<rparr> = ([ShutDown], Ready ())"
proof -
  let ?cl = "\<lparr>cl_cred = Inr \<lparr>cred_pid = 7, cred_uid = 1000, cred_gid = 100\<rparr>,
      cl_incoming = (\<lambda>_ :: nat. \<lparr>inbuf = encode Little GetAi [0], at_end = Silent\<rparr>),
      cl_write = (\<lambda>_ :: bytes. Stalled), cl_shutdown = Ready ()\<rparr> :: nscd_client"
  let ?req = "\<lparr>ty = GetAi, key = [0], raw = encode Little GetAi [0]\<rparr>"
  have c: "peer_caller (cl_cred ?cl) = Inr (caller_new 1000 100 7)" by (simp add: peer_caller_def)
  have "parse Little (encode Little GetAi [0]) = Inr ?req" by (simp add: parse_Inr_iff MAX_KEY_LEN_def)
  from read_one_request [OF this, of "[]" Silent]
  have "fst (read_request Little (cl_incoming ?cl (fe_read_timeout front_deny_all))) = Ready ?req" by simp
  with nscd_unusable_requests [OF c, of Little front_deny_all failing_execute "\<lambda>_ _. Stalled" ?req]
  show ?thesis by (simp add: is_host_lookup_def strip_nul_def)
qed

end
