(* ===== verification/Dns_Wire.thy ===== *)
theory Dns_Wire
  imports Utf8 Net
begin

text \<open>
  The DNS messages of \<open>src/dns.rs\<close>: queries with their parser, the responses the daemon builds
  itself (NXDOMAIN, SERVFAIL, its own records, FORMERR), and the length-prefixed messages of DNS
  over TCP.
\<close>

section \<open>Constants\<close>

definition TYPE_A :: u16 where "TYPE_A = 1"
definition TYPE_AAAA :: u16 where "TYPE_AAAA = 28"
definition CLASS_IN :: u16 where "CLASS_IN = 1"
definition RCODE_NOERROR :: u16 where "RCODE_NOERROR = 0"
definition RCODE_FORMERR :: u16 where "RCODE_FORMERR = 1"
definition RCODE_SERVFAIL :: u16 where "RCODE_SERVFAIL = 2"
definition RCODE_NXDOMAIN :: u16 where "RCODE_NXDOMAIN = 3"
definition FLAG_QR :: u16 where "FLAG_QR = 0x8000"
definition FLAG_OPCODE :: u16 where "FLAG_OPCODE = 0x7800"
definition FLAG_RD :: u16 where "FLAG_RD = 0x0100"
definition FLAG_RA :: u16 where "FLAG_RA = 0x0080"
definition DNS_HEADER_LEN :: usize where "DNS_HEADER_LEN = 12"
definition MAX_MESSAGE :: usize where "MAX_MESSAGE = 65535"
definition ANSWER_TTL :: u32 where "ANSWER_TTL = 60"

lemmas dns_consts =
  TYPE_A_def TYPE_AAAA_def CLASS_IN_def RCODE_NOERROR_def RCODE_FORMERR_def RCODE_SERVFAIL_def
  RCODE_NXDOMAIN_def FLAG_QR_def FLAG_OPCODE_def FLAG_RD_def FLAG_RA_def DNS_HEADER_LEN_def
  MAX_MESSAGE_def ANSWER_TTL_def

section \<open>Queries\<close>

record question =
  qn_name :: string
  qn_type :: u16
  qn_class :: u16
  qn_end :: usize

record dns_query =
  qy_id :: u16
  qy_flags :: u16
  qy_question :: question
  qy_raw :: bytes

datatype parse_error = TooShort | NotAQuery | QuestionCount u16 | BadName

definition be16 :: "bytes \<Rightarrow> usize \<Rightarrow> u16 option" where
  "be16 bs at =
     (case get bs at of
        None \<Rightarrow> None
      | Some a \<Rightarrow> (case get bs (at + 1) of None \<Rightarrow> None | Some b \<Rightarrow> Some (from_be_bytes [a, b])))"

text \<open>
  The loop over the labels of the question's name: the labels read so far, and where the next one
  starts.
\<close>

function label_loop :: "bytes \<Rightarrow> string list \<Rightarrow> usize \<Rightarrow> parse_error + string list \<times> usize" where
  "label_loop raw labels at =
     (case get raw at of
        None \<Rightarrow> Inl BadName
      | Some b \<Rightarrow>
          let len = unat b; at = at + 1 in
          if len = 0 then Inr (labels, at)
          else if len > 63 then Inl BadName
          else
            (case slice raw at (at + len) of
               None \<Rightarrow> Inl BadName
             | Some label \<Rightarrow>
                 let labels = labels @ [to_ascii_lowercase (from_utf8_lossy label)]; at = at + len in
                 if at - DNS_HEADER_LEN > 255 then Inl BadName
                 else label_loop raw labels at))"
  by pat_completeness auto
termination
  by (relation "measure (\<lambda>(raw, labels, at). length raw - at)")
     (auto simp: get_def slice_def split: if_splits)

declare label_loop.simps [simp del]

definition query_parse :: "bytes \<Rightarrow> parse_error + dns_query" where
  "query_parse raw =
     (if length raw < DNS_HEADER_LEN then Inl TooShort
      else
        let id = the (be16 raw 0); flags = the (be16 raw 2) in
        if flags AND FLAG_QR \<noteq> 0 then Inl NotAQuery
        else
          let qdcount = the (be16 raw 4) in
          if qdcount \<noteq> 1 then Inl (QuestionCount qdcount)
          else
            (case label_loop raw [] DNS_HEADER_LEN of
               Inl e \<Rightarrow> Inl e
             | Inr (labels, at) \<Rightarrow>
                 (case be16 raw at of
                    None \<Rightarrow> Inl TooShort
                  | Some qtype \<Rightarrow>
                      (case be16 raw (at + 2) of
                         None \<Rightarrow> Inl TooShort
                       | Some qclass \<Rightarrow>
                           Inr \<lparr>qy_id = id, qy_flags = flags,
                                qy_question =
                                  \<lparr>qn_name = join ''.'' labels, qn_type = qtype, qn_class = qclass,
                                   qn_end = at + 4\<rparr>,
                                qy_raw = raw\<rparr>))))"

section \<open>Responses\<close>

definition question_bytes :: "dns_query \<Rightarrow> bytes" where
  "question_bytes q =
     take (qn_end (qy_question q) - DNS_HEADER_LEN) (drop DNS_HEADER_LEN (qy_raw q))"

definition response :: "dns_query \<Rightarrow> u16 \<Rightarrow> bytes \<Rightarrow> u16 \<Rightarrow> bytes" where
  "response q rcode answers ancount =
     (let flags = FLAG_QR OR (qy_flags q AND FLAG_OPCODE) OR (qy_flags q AND FLAG_RD) OR FLAG_RA OR rcode
      in to_be_bytes 2 (qy_id q) @ to_be_bytes 2 flags @ to_be_bytes 2 (1 :: u16) @
         to_be_bytes 2 ancount @ to_be_bytes 2 (0 :: u16) @ to_be_bytes 2 (0 :: u16) @
         question_bytes q @ answers)"

definition nxdomain :: "dns_query \<Rightarrow> bytes" where
  "nxdomain q = response q RCODE_NXDOMAIN [] 0"

definition servfail :: "dns_query \<Rightarrow> bytes" where
  "servfail q = response q RCODE_SERVFAIL [] 0"

definition answer_rdata :: "dns_query \<Rightarrow> ip_addr \<Rightarrow> bytes option" where
  "answer_rdata q addr =
     (case addr of
        V4 a \<Rightarrow> if qn_type (qy_question q) = TYPE_A then Some (octets addr) else None
      | V6 a \<Rightarrow> if qn_type (qy_question q) = TYPE_AAAA then Some (octets addr) else None)"

text \<open>
  The loop over the addresses, with its two variables: the answer section so far and the 16-bit
  count of its records.
\<close>

fun answer_loop :: "dns_query \<Rightarrow> ip_addr list \<Rightarrow> bytes \<Rightarrow> u16 \<Rightarrow> bytes \<times> u16" where
  "answer_loop q [] answers count = (answers, count)"
| "answer_loop q (addr # addrs) answers count =
     (case answer_rdata q addr of
        None \<Rightarrow> answer_loop q addrs answers count
      | Some rdata \<Rightarrow>
          answer_loop q addrs
            (answers @ [0xC0, word_of_nat DNS_HEADER_LEN] @ to_be_bytes 2 (qn_type (qy_question q)) @
             to_be_bytes 2 CLASS_IN @ to_be_bytes 4 ANSWER_TTL @
             to_be_bytes 2 (word_of_nat (length rdata) :: u16) @ rdata)
            (count + 1))"

definition answer :: "dns_query \<Rightarrow> ip_addr list \<Rightarrow> bytes" where
  "answer q addrs =
     (let (answers, count) = answer_loop q addrs [] 0 in response q RCODE_NOERROR answers count)"

definition formerr :: "bytes \<Rightarrow> bytes" where
  "formerr raw =
     (if length raw \<ge> 2 then take 2 raw else [0, 0]) @
     to_be_bytes 2 (FLAG_QR OR RCODE_FORMERR) @ replicate 8 0"

section \<open>Messages over TCP\<close>

text \<open>An end of stream within the length prefix counts as the end of the messages.\<close>

definition read_tcp_message :: "stream \<Rightarrow> bytes option await \<times> stream" where
  "read_tcp_message st =
     (case read_exact 2 st of
        (Failed e, st1) \<Rightarrow> if e = KUnexpectedEof then (Ready None, st1) else (Failed e, st1)
      | (Stalled, st1) \<Rightarrow> (Stalled, st1)
      | (Ready len, st1) \<Rightarrow>
          (case read_exact (unat (from_be_bytes len :: u16)) st1 of
             (Ready message, st2) \<Rightarrow> (Ready (Some message), st2)
           | (Failed e, st2) \<Rightarrow> (Failed e, st2)
           | (Stalled, st2) \<Rightarrow> (Stalled, st2)))"

definition tcp_frame :: "bytes \<Rightarrow> bytes" where
  "tcp_frame m = to_be_bytes 2 (word_of_nat (length m) :: u16) @ m"

section \<open>Names on the wire\<close>

text \<open>
  The specification of a question's name: labels of 1 to 63 bytes, each after its length, and a
  final zero. The name rules see is their lower-cased, lossily decoded text joined by dots.
\<close>

definition wire_label :: "bytes \<Rightarrow> bytes" where
  "wire_label l = word_of_nat (length l) # l"

definition label_ok :: "bytes \<Rightarrow> bool" where
  "label_ok l \<longleftrightarrow> 1 \<le> length l \<and> length l \<le> 63"

definition wire_labels :: "bytes list \<Rightarrow> bytes" where
  "wire_labels ls = concat (map wire_label ls)"

definition label_text :: "bytes \<Rightarrow> string" where
  "label_text l = to_ascii_lowercase (from_utf8_lossy l)"

definition name_ok :: "bytes list \<Rightarrow> bool" where
  "name_ok ls \<longleftrightarrow> list_all label_ok ls \<and> length (wire_labels ls) \<le> 255"

lemma wire_labels_simps [simp]:
  "wire_labels [] = []"
  "wire_labels (l # ls) = word_of_nat (length l) # l @ wire_labels ls"
  by (simp_all add: wire_labels_def wire_label_def)

lemma unat_label_length: "label_ok l \<Longrightarrow> unat (word_of_nat (length l) :: byte) = length l"
  by (simp add: label_ok_def unat_of_nat)

lemma drop_Cons_get:
  assumes "drop at raw = b # rest"
  shows "get raw at = Some b" "drop (Suc at) raw = rest"
proof -
  have "at < length raw" using assms by (metis drop_all list.distinct(1) not_le)
  then have "drop at raw = raw ! at # drop (Suc at) raw" by (simp add: Cons_nth_drop_Suc)
  with assms \<open>at < length raw\<close> show "get raw at = Some b" "drop (Suc at) raw = rest"
    by (simp_all add: get_def)
qed

lemma drop_append_slice:
  assumes "drop at raw = l @ rest" "at \<le> length raw"
  shows "slice raw at (at + length l) = Some l" "drop (at + length l) raw = rest"
proof -
  have "length l \<le> length raw - at" using arg_cong [OF assms(1), of length] by simp
  then show "slice raw at (at + length l) = Some l" using assms by (simp add: slice_def)
  show "drop (at + length l) raw = rest" using assms(1) by (metis add.commute append_eq_conv_conj drop_drop)
qed

lemma label_loop_complete:
  assumes "list_all label_ok ls" "drop at raw = wire_labels ls @ 0 # rest"
    and "at + length (wire_labels ls) \<le> 267"
  shows "label_loop raw labels at = Inr (labels @ map label_text ls, at + length (wire_labels ls) + 1)"
  using assms
proof (induction ls arbitrary: at labels)
  case Nil
  then show ?case using drop_Cons_get [of at raw 0 rest] by (subst label_loop.simps) simp
next
  case (Cons l ls)
  have l: "label_ok l" using Cons.prems(1) by simp
  have b: "get raw at = Some (word_of_nat (length l))"
    and "drop (Suc at) raw = l @ wire_labels ls @ 0 # rest"
    using drop_Cons_get [of at raw] Cons.prems(2) by simp_all
  moreover have "Suc at \<le> length raw" using b by (simp add: get_Some_iff)
  ultimately have sl: "slice raw (Suc at) (Suc at + length l) = Some l"
    and "drop (Suc at + length l) raw = wire_labels ls @ 0 # rest"
    using drop_append_slice by blast+
  then have "label_loop raw (labels @ [label_text l]) (Suc at + length l) =
      Inr ((labels @ [label_text l]) @ map label_text ls, Suc at + length l + length (wire_labels ls) + 1)"
    using Cons.prems by (intro Cons.IH) simp_all
  moreover have "length l \<noteq> 0" "length l \<le> 63" using l by (auto simp: label_ok_def)
  ultimately show ?case
    using b sl Cons.prems(3) unat_label_length [OF l]
    by (subst label_loop.simps) (simp add: Let_def DNS_HEADER_LEN_def label_text_def)
qed

lemma label_loop_sound:
  assumes "label_loop raw labels at = Inr (ls', e)" "at \<le> 267"
  shows "\<exists>ls rest. list_all label_ok ls \<and> drop at raw = wire_labels ls @ 0 # rest \<and>
     at + length (wire_labels ls) \<le> 267 \<and> ls' = labels @ map label_text ls \<and>
     e = at + length (wire_labels ls) + 1"
  using assms
proof (induction "length raw - at" arbitrary: at labels rule: less_induct)
  case less
  obtain b where b: "get raw at = Some b"
    using less.prems(1) by (subst (asm) label_loop.simps) (auto split: option.splits)
  then have at: "at < length raw" and dr: "drop at raw = b # drop (Suc at) raw"
    by (auto simp: get_Some_iff Cons_nth_drop_Suc)
  show ?case
  proof (cases "unat b = 0")
    case True
    then have "b = 0" by (simp add: unat_eq_zero)
    moreover have "ls' = labels" "e = Suc at"
      using less.prems(1) b True by (subst (asm) label_loop.simps, simp)+
    ultimately show ?thesis
      using dr less.prems(2) by (intro exI [of _ "[]"] exI [of _ "drop (Suc at) raw"]) simp
  next
    case False
    then obtain l where l: "unat b \<le> 63" "slice raw (Suc at) (Suc at + unat b) = Some l"
      "Suc at + unat b \<le> 267"
      and rec: "label_loop raw (labels @ [label_text l]) (Suc at + unat b) = Inr (ls', e)"
      using less.prems(1) b
      by (subst (asm) label_loop.simps)
         (auto simp: Let_def DNS_HEADER_LEN_def label_text_def split: option.splits if_splits)
    have len: "length l = unat b" using length_slice [OF l(2)] by simp
    have dl: "drop (Suc at) raw = l @ drop (Suc at + unat b) raw"
      using l(2) by (auto simp: slice_Some_iff add.commute) (metis append_take_drop_id drop_drop add.commute add_Suc)
    from less.hyps [OF _ rec l(3)] at obtain ls rest where
      IH: "list_all label_ok ls" "drop (Suc at + unat b) raw = wire_labels ls @ 0 # rest"
      "Suc at + unat b + length (wire_labels ls) \<le> 267" "ls' = (labels @ [label_text l]) @ map label_text ls"
      "e = Suc at + unat b + length (wire_labels ls) + 1" by fastforce
    have "word_of_nat (length l) = b" by (simp add: len)
    moreover have "label_ok l" using False l(1) len by (simp add: label_ok_def)
    ultimately show ?thesis
      using IH dr dl len by (intro exI [of _ "l # ls"] exI [of _ rest]) simp
  qed
qed

section \<open>Queries on the wire\<close>

lemma be16_eq:
  "be16 bs at = (if at + 2 \<le> length bs then Some (from_be_bytes (take 2 (drop at bs))) else None)"
proof (cases "at + 2 \<le> length bs")
  case True
  then have "take 2 (drop at bs) = [bs ! at, bs ! (at + 1)]"
    by (simp add: numeral_2_eq_2 take_Suc_conv_app_nth)
  with True show ?thesis by (simp add: be16_def get_def)
qed (auto simp: be16_def get_def)

lemma be16_field: "length pre = at \<Longrightarrow> be16 (pre @ to_be_bytes 2 v @ post) at = Some v"
  by (simp add: be16_eq u16be.dec_enc)

lemma be16_SomeD: "be16 bs at = Some v \<Longrightarrow> drop at bs = to_be_bytes 2 v @ drop (at + 2) bs"
proof -
  assume a: "be16 bs at = Some v"
  then have "to_be_bytes 2 v = take 2 (drop at bs)"
    using u16be.enc_dec [of "take 2 (drop at bs)"] by (auto simp: be16_eq split: if_splits)
  then show ?thesis using append_take_drop_id [of 2 "drop at bs"] by (simp add: add.commute)
qed

lemma be16_at:
  assumes "drop at bs = to_be_bytes 2 v @ rest"
  shows "be16 bs at = Some v"
proof -
  have "length bs - at = 2 + length rest" using arg_cong [OF assms, of length] by simp
  then show ?thesis using assms by (simp add: be16_eq u16be.dec_enc)
qed

lemma be16_total: "at + 2 \<le> length bs \<Longrightarrow> be16 bs at = Some (the (be16 bs at))"
  by (simp add: be16_eq)

text \<open>
  A query as a client builds it: header, the three other counts, one question, and whatever
  follows it.
\<close>

definition query_message ::
  "u16 \<Rightarrow> u16 \<Rightarrow> bytes \<Rightarrow> bytes list \<Rightarrow> u16 \<Rightarrow> u16 \<Rightarrow> bytes \<Rightarrow> bytes"
where
  "query_message qid flags counts ls qtype qclass rest =
     to_be_bytes 2 qid @ to_be_bytes 2 flags @ to_be_bytes 2 (1 :: u16) @ counts @
     (wire_labels ls @ 0 # to_be_bytes 2 qtype @ to_be_bytes 2 qclass) @ rest"

lemma query_parse_sound:
  assumes "query_parse raw = Inr q"
  shows "qy_raw q = raw \<and> qy_flags q AND FLAG_QR = 0 \<and>
     (\<exists>counts ls rest. length counts = 6 \<and> name_ok ls \<and>
        raw = query_message (qy_id q) (qy_flags q) counts ls
                (qn_type (qy_question q)) (qn_class (qy_question q)) rest \<and>
        qn_name (qy_question q) = join ''.'' (map label_text ls) \<and>
        qn_end (qy_question q) = 17 + length (wire_labels ls))"
proof -
  obtain labels at where len: "12 \<le> length raw" and qid: "qy_id q = the (be16 raw 0)"
    and fl: "qy_flags q = the (be16 raw 2)" "qy_flags q AND FLAG_QR = 0" and one: "the (be16 raw 4) = 1"
    and loop: "label_loop raw [] 12 = Inr (labels, at)"
    and t: "be16 raw at = Some (qn_type (qy_question q))"
    and c: "be16 raw (at + 2) = Some (qn_class (qy_question q))"
    and q: "qn_name (qy_question q) = join ''.'' labels" "qn_end (qy_question q) = at + 4" "qy_raw q = raw"
    using assms
    by (auto simp: query_parse_def Let_def DNS_HEADER_LEN_def split: if_splits sum.splits option.splits)
  from label_loop_sound [OF loop] obtain ls rest where ls: "name_ok ls"
    "drop 12 raw = wire_labels ls @ 0 # rest" "labels = map label_text ls"
    "at = 13 + length (wire_labels ls)" by (auto simp: name_ok_def)
  have "rest = drop (1 + length (wire_labels ls)) (drop 12 raw)" by (simp add: ls(2))
  then have "rest = drop at raw" by (simp add: ls(4) add.commute)
  then have rest: "rest = to_be_bytes 2 (qn_type (qy_question q)) @ to_be_bytes 2 (qn_class (qy_question q)) @
      drop (at + 4) raw"
    using be16_SomeD [OF t] be16_SomeD [OF c] by (simp add: numeral_eq_Suc)
  have a: "raw = to_be_bytes 2 (qy_id q) @ drop 2 raw"
    using be16_SomeD [of raw 0 "qy_id q"] be16_total [of 0 raw] len qid by (simp add: numeral_2_eq_2)
  have b: "drop 2 raw = to_be_bytes 2 (qy_flags q) @ drop 4 raw"
    using be16_SomeD [of raw 2 "qy_flags q"] be16_total [of 2 raw] len fl(1) by simp
  have c: "drop 4 raw = to_be_bytes 2 (1 :: u16) @ drop 6 raw"
    using be16_SomeD [of raw 4 1] be16_total [of 4 raw] len one by simp
  note hd = a [unfolded b c]
  have "drop 6 raw = take 6 (drop 6 raw) @ wire_labels ls @ 0 # rest"
    using append_take_drop_id [of 6 "drop 6 raw"] ls(2) by simp
  with hd rest have "raw = query_message (qy_id q) (qy_flags q) (take 6 (drop 6 raw)) ls
      (qn_type (qy_question q)) (qn_class (qy_question q)) (drop (at + 4) raw)"
    unfolding query_message_def by (metis append.assoc append_Cons)
  moreover have "length (take 6 (drop 6 raw)) = 6" using len by simp
  moreover have "qn_name (qy_question q) = join ''.'' (map label_text ls)"
    "qn_end (qy_question q) = 17 + length (wire_labels ls)" using q ls(3,4) by simp_all
  ultimately show ?thesis using fl(2) q(3) ls(1) by blast
qed

lemma query_parse_complete:
  assumes "length counts = 6" "name_ok ls" "flags AND FLAG_QR = 0"
  shows "query_parse (query_message qid flags counts ls qtype qclass rest) =
     Inr \<lparr>qy_id = qid, qy_flags = flags,
          qy_question = \<lparr>qn_name = join ''.'' (map label_text ls), qn_type = qtype, qn_class = qclass,
                         qn_end = 17 + length (wire_labels ls)\<rparr>,
          qy_raw = query_message qid flags counts ls qtype qclass rest\<rparr>"
proof -
  let ?raw = "query_message qid flags counts ls qtype qclass rest"
  let ?at = "13 + length (wire_labels ls)"
  have f: "be16 ?raw 0 = Some qid" "be16 ?raw 2 = Some flags" "be16 ?raw 4 = Some 1"
    using be16_field [of "[]" 0 qid] be16_field [of "to_be_bytes 2 qid" 2 flags]
      be16_field [of "to_be_bytes 2 qid @ to_be_bytes 2 flags" 4 1]
    by (simp_all add: query_message_def)
  have "be16 ?raw ?at = Some qtype"
    using be16_field [of "to_be_bytes 2 qid @ to_be_bytes 2 flags @ to_be_bytes 2 (1 :: u16) @ counts @
        wire_labels ls @ [0]" ?at qtype "to_be_bytes 2 qclass @ rest"] assms(1)
    by (simp add: query_message_def)
  moreover have "be16 ?raw (?at + 2) = Some qclass"
    using be16_field [of "to_be_bytes 2 qid @ to_be_bytes 2 flags @ to_be_bytes 2 (1 :: u16) @ counts @
        wire_labels ls @ 0 # to_be_bytes 2 qtype" "?at + 2" qclass rest] assms(1)
    by (simp add: query_message_def)
  moreover have "label_loop ?raw [] 12 = Inr (map label_text ls, ?at)"
    using label_loop_complete [of ls 12 ?raw "to_be_bytes 2 qtype @ to_be_bytes 2 qclass @ rest" "[]"] assms
    by (simp add: query_message_def name_ok_def)
  moreover have "\<not> length ?raw < 12" using assms(1) by (simp add: query_message_def)
  ultimately show ?thesis
    using f assms(3) by (simp add: query_parse_def Let_def DNS_HEADER_LEN_def)
qed

lemma query_parse_length:
  assumes "query_parse raw = Inr q"
  shows "qy_raw q = raw" "17 \<le> qn_end (qy_question q)" "qn_end (qy_question q) \<le> 272"
    "qn_end (qy_question q) \<le> length raw"
  using query_parse_sound [OF assms] by (auto simp: query_message_def name_ok_def)

section \<open>Responses on the wire\<close>

text \<open>
  What a client checks of a response to its query \<open>raw\<close>, whose question ends at \<open>qend\<close>: the id
  and the question are its own, the response bit is set, opcode and response code are as expected,
  one question and \<open>count\<close> answers are announced, and the answers follow the question.
\<close>

definition response_to :: "bytes \<Rightarrow> usize \<Rightarrow> u16 \<Rightarrow> bytes \<Rightarrow> u16 \<Rightarrow> bytes \<Rightarrow> bool" where
  "response_to raw qend rcode answers count out \<longleftrightarrow>
     take 2 out = take 2 raw \<and> slice out 12 qend = slice raw 12 qend \<and> drop qend out = answers \<and>
     be16 out 4 = Some 1 \<and> be16 out 6 = Some count \<and>
     (case (be16 out 2, be16 raw 2) of
        (Some flags, Some asked) \<Rightarrow>
          flags AND FLAG_QR \<noteq> 0 \<and> flags AND FLAG_OPCODE = asked AND FLAG_OPCODE \<and>
          flags AND FLAG_RD = asked AND FLAG_RD \<and> flags AND 0xF = rcode
      | _ \<Rightarrow> False)"

lemma length_question_bytes:
  assumes "query_parse raw = Inr q"
  shows "length (question_bytes q) = qn_end (qy_question q) - 12"
  using query_parse_length [OF assms] by (simp add: question_bytes_def DNS_HEADER_LEN_def)

lemma response_flags:
  fixes f :: u16
  assumes "r \<in> {0, 1, 2, 3}"
  defines "flags \<equiv> FLAG_QR OR (f AND FLAG_OPCODE) OR (f AND FLAG_RD) OR FLAG_RA OR r"
  shows "flags AND FLAG_QR \<noteq> 0" "flags AND FLAG_OPCODE = f AND FLAG_OPCODE"
    "flags AND FLAG_RD = f AND FLAG_RD" "flags AND 0xF = r"
proof -
  have m: "r AND 0x8000 = 0" "r AND 0x7800 = 0" "r AND 0x100 = 0" "r AND 0xF = r"
    using assms(1) by (elim insertE; simp)+
  show "flags AND FLAG_QR \<noteq> 0" "flags AND FLAG_OPCODE = f AND FLAG_OPCODE"
    "flags AND FLAG_RD = f AND FLAG_RD" "flags AND 0xF = r"
    using m by (simp_all add: flags_def dns_consts bit.conj_disj_distrib2 and.assoc)
qed

lemma response_is_response_to:
  assumes "query_parse raw = Inr q" "rcode \<in> {0, 1, 2, 3}"
  shows "response_to raw (qn_end (qy_question q)) rcode answers n (response q rcode answers n)"
proof -
  let ?e = "qn_end (qy_question q)"
  obtain rest where raw: "raw = to_be_bytes 2 (qy_id q) @ to_be_bytes 2 (qy_flags q) @ rest"
    using query_parse_sound [OF assms(1)] by (auto simp: query_message_def)
  have fl: "be16 raw 2 = Some (qy_flags q)"
    using be16_field [of "to_be_bytes 2 (qy_id q)" 2 "qy_flags q" rest] by (simp add: raw)
  have len: "17 \<le> ?e" "?e \<le> length raw" "qy_raw q = raw" using query_parse_length [OF assms(1)] by auto
  have qb: "length (question_bytes q) = ?e - 12" by (rule length_question_bytes [OF assms(1)])
  let ?f = "FLAG_QR OR (qy_flags q AND FLAG_OPCODE) OR (qy_flags q AND FLAG_RD) OR FLAG_RA OR rcode"
  have out: "response q rcode answers n =
    to_be_bytes 2 (qy_id q) @ to_be_bytes 2 ?f @ to_be_bytes 2 (1 :: u16) @ to_be_bytes 2 n @
    to_be_bytes 2 (0 :: u16) @ to_be_bytes 2 (0 :: u16) @ question_bytes q @ answers"
    by (simp add: response_def)
  have "take 2 (response q rcode answers n) = take 2 raw" by (simp add: out raw)
  moreover have "slice (response q rcode answers n) 12 ?e = slice raw 12 ?e"
    using len qb by (simp add: out slice_def) (simp add: question_bytes_def DNS_HEADER_LEN_def)
  moreover have "drop ?e (response q rcode answers n) = answers"
    using len qb by (simp add: out)
  moreover have "be16 (response q rcode answers n) 2 = Some ?f"
      "be16 (response q rcode answers n) 4 = Some 1" "be16 (response q rcode answers n) 6 = Some n"
    using be16_field [of "to_be_bytes 2 (qy_id q)" 2 ?f]
      be16_field [of "to_be_bytes 2 (qy_id q) @ to_be_bytes 2 ?f" 4 1]
      be16_field [of "to_be_bytes 2 (qy_id q) @ to_be_bytes 2 ?f @ to_be_bytes 2 (1 :: u16)" 6 n]
    by (simp_all add: out)
  ultimately show ?thesis
    unfolding response_to_def using response_flags [OF assms(2), of "qy_flags q"] fl by simp
qed

text \<open>The resource record of one address.\<close>

definition answer_record :: "dns_query \<Rightarrow> ip_addr \<Rightarrow> bytes" where
  "answer_record q addr =
     [0xC0, 12] @ to_be_bytes 2 (qn_type (qy_question q)) @ to_be_bytes 2 CLASS_IN @
     to_be_bytes 4 ANSWER_TTL @ to_be_bytes 2 (word_of_nat (length (octets addr)) :: u16) @ octets addr"

definition matching :: "dns_query \<Rightarrow> ip_addr list \<Rightarrow> ip_addr list" where
  "matching q addrs =
     filter (\<lambda>a. qn_type (qy_question q) = (if is_ipv4 a then TYPE_A else TYPE_AAAA)) addrs"

lemma answer_loop_eq:
  "answer_loop q addrs acc n =
     (acc @ concat (map (answer_record q) (matching q addrs)), n + word_of_nat (length (matching q addrs)))"
  by (induction addrs arbitrary: acc n)
     (auto simp: matching_def answer_rdata_def answer_record_def is_ipv4_def DNS_HEADER_LEN_def
        split: ip_addr.split)

lemma answer_eq:
  "answer q addrs =
     response q RCODE_NOERROR (concat (map (answer_record q) (matching q addrs)))
       (word_of_nat (length (matching q addrs)))"
  by (simp add: answer_def answer_loop_eq)

lemma length_answer_record: "length (answer_record q a) \<le> 28"
  by (simp add: answer_record_def length_octets)

lemma length_response:
  assumes "query_parse raw = Inr q"
  shows "length (response q rcode answers n) \<le> 272 + length answers"
  using length_question_bytes [OF assms] query_parse_length [OF assms] by (simp add: response_def)

lemma length_formerr [simp]: "length (formerr raw) = 12"
  by (simp add: formerr_def)

section \<open>Framing\<close>

lemma read_tcp_message_Some_iff:
  "read_tcp_message st = (Ready (Some m), st') \<longleftrightarrow>
     inbuf st = tcp_frame m @ inbuf st' \<and> at_end st' = at_end st \<and> length m \<le> MAX_MESSAGE"
proof
  assume "read_tcp_message st = (Ready (Some m), st')"
  then obtain len st1 where l: "read_exact 2 st = (Ready len, st1)"
    and m: "read_exact (unat (from_be_bytes len :: u16)) st1 = (Ready m, st')"
    by (auto simp: read_tcp_message_def split: prod.splits await.splits if_splits)
  from read_exact_ReadyD [OF l] read_exact_ReadyD [OF m] have
    *: "inbuf st = len @ m @ inbuf st'" "length len = 2" "length m = unat (from_be_bytes len :: u16)"
    "at_end st' = at_end st" by auto
  then have "to_be_bytes 2 (word_of_nat (length m) :: u16) = len" by (simp add: u16be.enc_dec)
  moreover have "length m < 65536" using * unsigned_less [of "from_be_bytes len :: u16", where 'a = nat] by simp
  ultimately show "inbuf st = tcp_frame m @ inbuf st' \<and> at_end st' = at_end st \<and> length m \<le> MAX_MESSAGE"
    using * by (simp add: tcp_frame_def MAX_MESSAGE_def)
next
  assume a: "inbuf st = tcp_frame m @ inbuf st' \<and> at_end st' = at_end st \<and> length m \<le> MAX_MESSAGE"
  then have "length m = unat (word_of_nat (length m) :: u16)" by (simp add: unat_of_nat MAX_MESSAGE_def)
  then have "read_tcp_message \<lparr>inbuf = tcp_frame m @ inbuf st', at_end = at_end st'\<rparr> =
      (Ready (Some m), \<lparr>inbuf = inbuf st', at_end = at_end st'\<rparr>)"
    by (simp add: read_tcp_message_def tcp_frame_def read_exact_append u16be.dec_enc)
  moreover have "\<lparr>inbuf = tcp_frame m @ inbuf st', at_end = at_end st'\<rparr> = st" using a by (cases st) simp
  moreover have "\<lparr>inbuf = inbuf st', at_end = at_end st'\<rparr> = st'" by simp
  ultimately show "read_tcp_message st = (Ready (Some m), st')" by metis
qed

lemma read_tcp_message_shorter:
  "read_tcp_message st = (Ready (Some m), st') \<Longrightarrow> length (inbuf st') < length (inbuf st)"
  by (simp add: read_tcp_message_Some_iff tcp_frame_def)

section \<open>Properties\<close>

text \<open>The query \<open>a.\<close> for an address, with recursion desired.\<close>

definition query_a :: bytes where
  "query_a = query_message 7 0x100 [0, 0, 0, 0, 0, 0] [[97]] TYPE_A CLASS_IN []"

lemma query_a_parses:
  "query_parse query_a =
     Inr \<lparr>qy_id = 7, qy_flags = 0x100,
          qy_question = \<lparr>qn_name = ''a'', qn_type = TYPE_A, qn_class = CLASS_IN, qn_end = 19\<rparr>,
          qy_raw = query_a\<rparr>"
proof -
  have "join ''.'' (map label_text [[97]]) = ''a''" by code_simp
  then show ?thesis
    unfolding query_a_def
    by (subst query_parse_complete) (simp_all add: name_ok_def label_ok_def FLAG_QR_def)
qed

text \<open>
  (C14) The parser accepts exactly the messages with one question that are well formed: a query
  header, any counts of other records, labels of 1 to 63 bytes that take at most 255 bytes, type
  and class, then anything. What it returns is what the message says: the parts are read back as
  they were written, and the name is the dotted lower-case text of the labels.
\<close>

theorem dns_query_exact:
  "query_parse raw = Inr q \<longleftrightarrow>
     (\<exists>qid flags counts ls qtype qclass rest.
        length counts = 6 \<and> name_ok ls \<and> flags AND FLAG_QR = 0 \<and>
        raw = query_message qid flags counts ls qtype qclass rest \<and>
        q = \<lparr>qy_id = qid, qy_flags = flags,
             qy_question = \<lparr>qn_name = join ''.'' (map label_text ls), qn_type = qtype,
                            qn_class = qclass, qn_end = 17 + length (wire_labels ls)\<rparr>,
             qy_raw = raw\<rparr>)"
  (is "_ \<longleftrightarrow> ?ok")
proof
  assume "query_parse raw = Inr q"
  from query_parse_sound [OF this] obtain counts ls rest where
    "length counts = 6" "name_ok ls" "qy_flags q AND FLAG_QR = 0"
    "raw = query_message (qy_id q) (qy_flags q) counts ls
       (qn_type (qy_question q)) (qn_class (qy_question q)) rest"
    "q = \<lparr>qy_id = qy_id q, qy_flags = qy_flags q,
         qy_question = \<lparr>qn_name = join ''.'' (map label_text ls), qn_type = qn_type (qy_question q),
                        qn_class = qn_class (qy_question q), qn_end = 17 + length (wire_labels ls)\<rparr>,
         qy_raw = raw\<rparr>"
    by (cases q; cases "qy_question q") auto
  then show ?ok by blast
qed (auto simp: query_parse_complete)

text \<open>
  Parsing is bounded and stays inside the message: the question of an accepted query ends
  within the message and at most 272 bytes into it, so the slices the responses are built from
  exist.
\<close>

theorem dns_question_bounds:
  assumes "query_parse raw = Inr q"
  shows "17 \<le> qn_end (qy_question q) \<and> qn_end (qy_question q) \<le> min 272 (length raw) \<and>
         slice raw DNS_HEADER_LEN (qn_end (qy_question q)) = Some (question_bytes q)"
  using query_parse_length [OF assms] by (simp add: slice_def question_bytes_def DNS_HEADER_LEN_def)

theorem dns_question_bounds_witness:
  "slice query_a 12 19 = Some [1, 97, 0, 0, 1, 0, 1]"
  using dns_question_bounds [OF query_a_parses]
  by (simp add: question_bytes_def DNS_HEADER_LEN_def query_a_def query_message_def to_be_bytes_def dns_consts)

text \<open>
  The responses the daemon builds itself answer the query they were built from: NXDOMAIN for
  a denial, SERVFAIL for a failing upstream, and NOERROR with one record per address of the asked
  type for its own records.
\<close>

theorem dns_responses_match:
  assumes "query_parse raw = Inr q"
  shows "response_to raw (qn_end (qy_question q)) RCODE_NXDOMAIN [] 0 (nxdomain q) \<and>
         response_to raw (qn_end (qy_question q)) RCODE_SERVFAIL [] 0 (servfail q) \<and>
         response_to raw (qn_end (qy_question q)) RCODE_NOERROR
           (concat (map (answer_record q) (matching q addrs)))
           (word_of_nat (length (matching q addrs))) (answer q addrs)"
  by (simp add: nxdomain_def servfail_def answer_eq response_is_response_to [OF assms] RCODE_NXDOMAIN_def
        RCODE_SERVFAIL_def RCODE_NOERROR_def)

theorem dns_responses_match_witness:
  "\<exists>q. query_parse query_a = Inr q \<and> response_to query_a 19 RCODE_NXDOMAIN [] 0 (nxdomain q)"
  using query_a_parses dns_responses_match [OF query_a_parses, of "[]"] by simp

text \<open>
  Framing over TCP loses nothing: a message of at most 65535 bytes behind its length is read
  back exactly, leaving the rest of the stream, and nothing else is ever read as a message.
\<close>

theorem tcp_framing_exact:
  "read_tcp_message st = (Ready (Some m), st') \<longleftrightarrow>
     inbuf st = tcp_frame m @ inbuf st' \<and> at_end st' = at_end st \<and> length m \<le> MAX_MESSAGE"
  by (rule read_tcp_message_Some_iff)

end
