(* ===== verification/Identify.thy ===== *)
theory Identify
  imports Policy
begin

text \<open>
  Who owns a local IP socket (\<open>src/identify.rs\<close>): the kernel's socket tables are searched for the
  rows that best fit a packet, and the owner of the socket is the caller. What the \<open>procfs\<close> crate
  reads from \<open>/proc\<close> is a parameter, the record \<open>procfs\<close> of its answers at one moment; the
  process-wide \<open>OnceLock\<close> that remembers whether other processes may be inspected is a state
  passed through the operations.
\<close>

section \<open>Socket tables\<close>

datatype transport = Udp | Tcp

record socket_entry =
  se_local :: socket_addr
  se_remote :: socket_addr
  se_uid :: u32
  se_inode :: u64

datatype socket_match = One socket_entry | SameUser u32 | Ambiguous | NoMatch

text \<open>
  The answers of \<open>procfs\<close>: the four socket tables, this process, a process by its id and all
  processes. A process lists its open descriptors, of which only sockets matter, and its status
  carries the effective group. Errors of the crate are not told apart.
\<close>

datatype proc_error = ProcError

datatype fd_target = FdSocket u64 | FdOther

record process =
  pr_pid :: i32
  pr_fd :: "proc_error + (proc_error + fd_target) list"
  pr_status_egid :: "proc_error + u32"

record procfs =
  net_udp :: "proc_error + socket_entry list"
  net_udp6 :: "proc_error + socket_entry list"
  net_tcp :: "proc_error + socket_entry list"
  net_tcp6 :: "proc_error + socket_entry list"
  proc_myself :: "proc_error + process"
  proc_new :: "i32 \<Rightarrow> proc_error + process"
  all_processes :: "proc_error + (proc_error + process) list"

definition table :: "proc_error + 'a list \<Rightarrow> 'a list" where
  "table result = (case result of Inr rows \<Rightarrow> rows | Inl e \<Rightarrow> [])"

definition socket_tables :: "procfs \<Rightarrow> transport \<Rightarrow> socket_entry list" where
  "socket_tables fs tr =
     (case tr of
        Udp \<Rightarrow> table (net_udp fs) @ table (net_udp6 fs)
      | Tcp \<Rightarrow> table (net_tcp fs) @ table (net_tcp6 fs))"

definition same_host :: "ip_addr \<Rightarrow> ip_addr \<Rightarrow> bool" where
  "same_host a b \<longleftrightarrow> to_canonical a = to_canonical b"

definition fit :: "socket_entry \<Rightarrow> socket_addr \<Rightarrow> socket_addr \<Rightarrow> byte option" where
  "fit entry peer server =
     (if sa_port (se_local entry) \<noteq> sa_port peer then None
      else
        let local_exact = same_host (sa_ip (se_local entry)) (sa_ip peer) in
        if \<not> local_exact \<and> \<not> is_unspecified (sa_ip (se_local entry)) then None
        else
          let unconnected = (sa_port (se_remote entry) = 0 \<and> is_unspecified (sa_ip (se_remote entry)));
              remote_exact = (sa_port (se_remote entry) = sa_port server \<and>
                (is_unspecified (sa_ip server) \<or>
                 same_host (sa_ip (se_remote entry)) (sa_ip server)))
          in if \<not> unconnected \<and> \<not> remote_exact then None
             else Some (of_bool remote_exact * 2 + of_bool local_exact))"

text \<open>The loop over the rows, with its two variables \<open>best\<close> and \<open>best_fit\<close>.\<close>

fun find_loop ::
  "socket_addr \<Rightarrow> socket_addr \<Rightarrow> socket_entry list \<Rightarrow> socket_entry list \<Rightarrow> byte \<Rightarrow> socket_entry list"
where
  "find_loop peer server [] best best_fit = best"
| "find_loop peer server (entry # rows) best best_fit =
     (case fit entry peer server of
        None \<Rightarrow> find_loop peer server rows best best_fit
      | Some score \<Rightarrow>
          if best = [] \<or> best_fit < score then find_loop peer server rows [entry] score
          else if score = best_fit then find_loop peer server rows (best @ [entry]) best_fit
          else find_loop peer server rows best best_fit)"

definition find_socket :: "socket_entry list \<Rightarrow> socket_addr \<Rightarrow> socket_addr \<Rightarrow> socket_match" where
  "find_socket rows peer server =
     (case find_loop peer server rows [] 0 of
        [] \<Rightarrow> NoMatch
      | [one] \<Rightarrow> One one
      | first # rest \<Rightarrow>
          if list_all (\<lambda>e. se_uid e = se_uid first) rest then SameUser (se_uid first) else Ambiguous)"

section \<open>Processes\<close>

text \<open>\<open>OnceLock::get_or_init\<close>: the first probe is remembered for the life of the daemon.\<close>

definition can_inspect_other_processes :: "procfs \<Rightarrow> bool option \<Rightarrow> bool \<times> bool option" where
  "can_inspect_other_processes fs once =
     (case once of
        Some can \<Rightarrow> (can, once)
      | None \<Rightarrow>
          let can = (case proc_new fs 1 of
                       Inl e \<Rightarrow> False
                     | Inr p \<Rightarrow>
                         (case pr_fd p of
                            Inl e \<Rightarrow> False
                          | Inr [] \<Rightarrow> False
                          | Inr (fd # _) \<Rightarrow> \<not> isl fd))
          in (can, Some can))"

definition ok :: "'e + 'a \<Rightarrow> 'a option" where
  "ok r = (case r of Inr x \<Rightarrow> Some x | Inl _ \<Rightarrow> None)"

definition holds_socket :: "u64 \<Rightarrow> process \<Rightarrow> bool" where
  "holds_socket inode p =
     (case pr_fd p of
        Inl e \<Rightarrow> False
      | Inr fds \<Rightarrow> list_ex (\<lambda>t. t = FdSocket inode) (List.map_filter ok fds))"

definition process_with_socket :: "procfs \<Rightarrow> bool option \<Rightarrow> u64 \<Rightarrow> process option \<times> bool option" where
  "process_with_socket fs once inode =
     (let own = ok (proc_myself fs);
          (can, once') = can_inspect_other_processes fs once
      in if can then
           (case all_processes fs of
              Inl e \<Rightarrow> (None, once')
            | Inr ps \<Rightarrow> (find (holds_socket inode) (List.map_filter ok ps), once'))
         else
           (find (holds_socket inode) (case own of Some p \<Rightarrow> [p] | None \<Rightarrow> []), once'))"

definition identify ::
  "procfs \<Rightarrow> bool option \<Rightarrow> transport \<Rightarrow> socket_addr \<Rightarrow> socket_addr \<Rightarrow> bool \<Rightarrow> caller \<times> bool option"
where
  "identify fs once tr peer server processes =
     (case find_socket (socket_tables fs tr) peer server of
        One socket \<Rightarrow>
          if \<not> processes then (\<lparr>uid = Some (se_uid socket), gid = None, pid = None\<rparr>, once)
          else
            let (process, once') = process_with_socket fs once (se_inode socket)
            in (\<lparr>uid = Some (se_uid socket),
                 gid = Option.bind process (\<lambda>p. ok (pr_status_egid p)),
                 pid = map_option pr_pid process\<rparr>, once')
      | SameUser u \<Rightarrow> (\<lparr>uid = Some u, gid = None, pid = None\<rparr>, once)
      | Ambiguous \<Rightarrow> (caller_unknown, once)
      | NoMatch \<Rightarrow> (caller_unknown, once))"

section \<open>What the best rows are\<close>

text \<open>
  The specification: the rows that could have sent the packet and that no other row beats, in the
  order of the tables.
\<close>

definition best_sockets :: "socket_entry list \<Rightarrow> socket_addr \<Rightarrow> socket_addr \<Rightarrow> socket_entry list" where
  "best_sockets rows peer server =
     filter (\<lambda>e. case fit e peer server of
                   None \<Rightarrow> False
                 | Some s \<Rightarrow>
                     list_all (\<lambda>e'. case fit e' peer server of None \<Rightarrow> True | Some s' \<Rightarrow> s' \<le> s) rows)
       rows"

text \<open>
  The loop keeps \<open>best\<close> equal to the best rows seen so far, all of score \<open>best_fit\<close>: a new row
  replaces them, joins them or is ignored.
\<close>

definition top_scorers :: "('a \<Rightarrow> 'b::linorder option) \<Rightarrow> 'a list \<Rightarrow> 'a list" where
  "top_scorers f xs =
     filter (\<lambda>x. case f x of
                   None \<Rightarrow> False
                 | Some s \<Rightarrow> list_all (\<lambda>y. case f y of None \<Rightarrow> True | Some t \<Rightarrow> t \<le> s) xs) xs"

lemma best_sockets_top: "best_sockets rows peer server = top_scorers (\<lambda>e. fit e peer server) rows"
  by (simp add: best_sockets_def top_scorers_def)

lemma top_scorers_score:
  "x \<in> set (top_scorers f xs) \<Longrightarrow>
     \<exists>s. f x = Some s \<and> (\<forall>y \<in> set xs. \<forall>t. f y = Some t \<longrightarrow> t \<le> s)"
  by (auto simp: top_scorers_def list_all_iff split: option.splits)

lemma top_scorers_ex: "x \<in> set xs \<Longrightarrow> f x \<noteq> None \<Longrightarrow> top_scorers f xs \<noteq> []"
proof -
  assume x: "x \<in> set xs" and fx: "f x \<noteq> None"
  let ?S = "{s. \<exists>y \<in> set xs. f y = Some s}"
  have "?S \<subseteq> (the \<circ> f) ` set xs" by force
  then have fin: "finite ?S" using finite_surj by blast
  moreover have "?S \<noteq> {}" using x fx by blast
  ultimately have "Max ?S \<in> ?S" by (rule Max_in)
  then obtain y where y: "y \<in> set xs" "f y = Some (Max ?S)" by blast
  then have "y \<in> set (top_scorers f xs)"
    by (auto simp: top_scorers_def list_all_iff fin intro!: Max_ge split: option.splits)
  then show ?thesis by auto
qed

lemma top_scorers_eq:
  assumes "m \<in> set xs" "f m = Some b" "\<And>y t. y \<in> set xs \<Longrightarrow> f y = Some t \<Longrightarrow> t \<le> b"
  shows "top_scorers f xs = filter (\<lambda>y. f y = Some b) xs"
  unfolding top_scorers_def
proof (rule filter_cong [OF refl])
  fix y assume y: "y \<in> set xs"
  show "(case f y of None \<Rightarrow> False
         | Some s \<Rightarrow> list_all (\<lambda>y. case f y of None \<Rightarrow> True | Some t \<Rightarrow> t \<le> s) xs) = (f y = Some b)"
  proof (cases "f y")
    case (Some s)
    have "list_all (\<lambda>y. case f y of None \<Rightarrow> True | Some t \<Rightarrow> t \<le> b) xs"
      using assms(3) by (simp add: list_all_iff split: option.split)
    moreover have "b \<le> s" if "list_all (\<lambda>y. case f y of None \<Rightarrow> True | Some t \<Rightarrow> t \<le> s) xs"
      using bspec [OF that [unfolded list_all_iff] assms(1)] assms(2) by simp
    ultimately show ?thesis using Some assms(3) [OF y Some] by auto
  qed simp
qed

lemma top_scorers_snoc:
  "top_scorers f (xs @ [x]) =
     (case f x of
        None \<Rightarrow> top_scorers f xs
      | Some s \<Rightarrow>
          if top_scorers f xs = [] then [x]
          else
            let b = the (f (hd (top_scorers f xs)))
            in if b < s then [x] else if s = b then top_scorers f xs @ [x] else top_scorers f xs)"
proof (cases "f x")
  case None
  then show ?thesis by (auto simp: top_scorers_def intro!: filter_cong split: option.split)
next
  case (Some s)
  show ?thesis
  proof (cases "top_scorers f xs = []")
    case True
    then have none: "\<And>y. y \<in> set xs \<Longrightarrow> f y = None" by (metis top_scorers_ex)
    have "top_scorers f (xs @ [x]) = [x]"
      by (simp add: top_scorers_def list_all_iff Some none filter_empty_conv cong: ball_cong)
    with True Some show ?thesis by simp
  next
    case False
    then have "hd (top_scorers f xs) \<in> set (top_scorers f xs)" by simp
    from top_scorers_score [OF this] obtain b where
      b: "f (hd (top_scorers f xs)) = Some b" "\<And>y t. y \<in> set xs \<Longrightarrow> f y = Some t \<Longrightarrow> t \<le> b"
      by blast
    have "hd (top_scorers f xs) \<in> set xs"
      using False by (metis filter_is_subset hd_in_set subsetD top_scorers_def)
    note m = this b
    have same: "top_scorers f xs = filter (\<lambda>y. f y = Some b) xs"
      using top_scorers_eq [where f = f, OF m] .
    show ?thesis
    proof (cases "b < s")
      case True
      have "top_scorers f (xs @ [x]) = filter (\<lambda>y. f y = Some s) (xs @ [x])"
        using True Some b(2) by (intro top_scorers_eq [of x]) (auto dest: b(2))
      moreover have "filter (\<lambda>y. f y = Some s) xs = []"
        using True b(2) by (auto simp: filter_empty_conv dest: leD)
      ultimately show ?thesis using True False Some b(1) by simp
    next
      case False
      then have "top_scorers f (xs @ [x]) = filter (\<lambda>y. f y = Some b) (xs @ [x])"
        using Some m by (intro top_scorers_eq [of "hd (top_scorers f xs)"]) auto
      then show ?thesis
        using False \<open>top_scorers f xs \<noteq> []\<close> Some b(1) by (simp add: same [symmetric])
    qed
  qed
qed

lemma find_loop_top:
  assumes "best = top_scorers (\<lambda>e. fit e peer server) seen"
    and "best \<noteq> [] \<Longrightarrow> fit (hd best) peer server = Some best_fit"
  shows "find_loop peer server rows best best_fit = top_scorers (\<lambda>e. fit e peer server) (seen @ rows)"
  using assms
proof (induction rows arbitrary: seen best best_fit)
  case (Cons row rows)
  have IH: "find_loop peer server rows b s = top_scorers (\<lambda>e. fit e peer server) (seen @ row # rows)"
    if "b = top_scorers (\<lambda>e. fit e peer server) (seen @ [row])"
      "b \<noteq> [] \<Longrightarrow> fit (hd b) peer server = Some s" for b s
    using Cons.IH [OF that] by simp
  show ?case
    using Cons.prems
    by (cases "best = []") (auto simp: top_scorers_snoc Let_def intro!: IH split: option.split)
qed simp

lemma find_loop_best: "find_loop peer server rows [] 0 = best_sockets rows peer server"
  using find_loop_top [of "[]" peer server "[]" 0 rows] by (simp add: best_sockets_top top_scorers_def)

lemma find_socket_best:
  "find_socket rows peer server =
     (let best = best_sockets rows peer server in
      if best = [] then NoMatch
      else if length best = 1 then One (hd best)
      else if se_uid ` set best = {se_uid (hd best)} then SameUser (se_uid (hd best))
      else Ambiguous)"
proof -
  have "list_all (\<lambda>e. se_uid e = u) es \<longleftrightarrow> insert u (se_uid ` set es) = {u}" for u es
    by (auto simp: list_all_iff)
  then show ?thesis
    by (auto simp: find_socket_def find_loop_best Let_def split: list.split)
qed

lemma identify_uid:
  "uid (fst (identify fs once tr peer server processes)) = Some u \<longleftrightarrow>
     se_uid ` set (best_sockets (socket_tables fs tr) peer server) = {u}"
proof -
  let ?best = "best_sockets (socket_tables fs tr) peer server"
  consider "?best = []" | e where "?best = [e]" | e e' es where "?best = e # e' # es"
    by (metis list.exhaust)
  then show ?thesis
    by cases (auto simp: identify_def find_socket_best Let_def caller_unknown_def split: prod.split)
qed

lemma best_sockets_perm:
  "set rows = set rows' \<Longrightarrow> set (best_sockets rows peer server) = set (best_sockets rows' peer server)"
  by (auto simp: best_sockets_def list_all_iff split: option.splits)

text \<open>
  The processes \<open>process_with_socket\<close> can look into: all that \<open>/proc\<close> lists and that can be read, with
  the capabilities to do so, and otherwise the daemon's own.
\<close>

definition visible_processes :: "procfs \<Rightarrow> bool option \<Rightarrow> process set" where
  "visible_processes fs once =
     (if fst (can_inspect_other_processes fs once)
      then {proc. \<exists>ps. all_processes fs = Inr ps \<and> Inr proc \<in> set ps}
      else {proc. proc_myself fs = Inr proc})"

lemma ok_Some: "ok r = Some x \<longleftrightarrow> r = Inr x"
  by (simp add: ok_def split: sum.split)

lemma set_map_filter_ok: "set (List.map_filter ok rs) = {x. Inr x \<in> set rs}"
  by (force simp: List.map_filter_def ok_def split: sum.splits)

lemma process_with_socket_visible:
  "case fst (process_with_socket fs once inode) of
     Some proc \<Rightarrow> proc \<in> visible_processes fs once \<and> holds_socket inode proc
   | None \<Rightarrow> {proc \<in> visible_processes fs once. holds_socket inode proc} = {}"
proof -
  obtain can once' where c: "can_inspect_other_processes fs once = (can, once')" by fastforce
  have "case find (holds_socket inode) ps of
      Some proc \<Rightarrow> proc \<in> set ps \<and> holds_socket inode proc
    | None \<Rightarrow> {proc \<in> set ps. holds_socket inode proc} = {}" for ps
    by (auto simp: find_None_iff find_Some_iff split: option.split)
  from this [of "List.map_filter ok (case all_processes fs of Inr ps \<Rightarrow> ps | Inl _ \<Rightarrow> [])"]
    this [of "case ok (proc_myself fs) of Some p \<Rightarrow> [p] | None \<Rightarrow> []"]
  show ?thesis
    by (auto simp: c process_with_socket_def visible_processes_def set_map_filter_ok ok_Some ok_def [of "Inr _"] split: sum.splits option.splits)
qed

section \<open>Connected sockets\<close>

text \<open>A row that is connected from the peer to this server, and a process seen to hold its socket.\<close>

definition connected_row :: "socket_addr \<Rightarrow> socket_addr \<Rightarrow> socket_entry \<Rightarrow> bool" where
  "connected_row peer server e \<longleftrightarrow>
     sa_port (se_local e) = sa_port peer \<and> same_host (sa_ip (se_local e)) (sa_ip peer) \<and>
     sa_port (se_remote e) = sa_port server \<and>
     (is_unspecified (sa_ip server) \<or> same_host (sa_ip (se_remote e)) (sa_ip server))"

definition socket_holder :: "procfs \<Rightarrow> bool \<Rightarrow> u64 \<Rightarrow> process \<Rightarrow> bool" where
  "socket_holder fs can inode proc \<longleftrightarrow>
     holds_socket inode proc \<and>
     (if can then
        (case all_processes fs of
           Inl e \<Rightarrow> False
         | Inr ps \<Rightarrow>
             Inr proc \<in> set ps \<and> list_all (\<lambda>q. \<not> isl q \<longrightarrow> holds_socket inode (projr q) \<longrightarrow> projr q = proc) ps)
      else proc_myself fs = Inr proc)"

lemma fit_connected: "fit e peer server = Some 3 \<longleftrightarrow> connected_row peer server e"
  by (auto simp: fit_def connected_row_def Let_def)

lemma fit_le_3: "fit e peer server = Some s \<Longrightarrow> s \<le> 3"
  by (auto simp: fit_def Let_def split: if_splits)

lemma best_sockets_connected:
  assumes "\<exists>e \<in> set rows. connected_row peer server e"
  shows "best_sockets rows peer server = filter (connected_row peer server) rows"
proof -
  obtain e where "e \<in> set rows" "fit e peer server = Some 3" using assms by (auto simp: fit_connected)
  from top_scorers_eq [of e rows "\<lambda>e. fit e peer server", OF this fit_le_3] show ?thesis
    by (simp add: best_sockets_top fit_connected)
qed

lemma find_unique:
  assumes "x \<in> set xs" "P x" "\<And>y. y \<in> set xs \<Longrightarrow> P y \<Longrightarrow> y = x"
  shows "find P xs = Some x"
  using assms
proof (induction xs)
  case (Cons z zs)
  show ?case
  proof (cases "P z")
    case True
    then have "z = x" using Cons.prems(3) [of z] by simp
    with True show ?thesis by simp
  next
    case False
    then have "x \<in> set zs" using Cons.prems(1,2) by auto
    then have "find P zs = Some x" by (rule Cons.IH [OF _ Cons.prems(2)]) (rule Cons.prems(3), simp_all)
    then show ?thesis using False by simp
  qed
qed simp

lemma process_with_socket_holder:
  assumes "socket_holder fs (fst (can_inspect_other_processes fs once)) inode proc"
  shows "fst (process_with_socket fs once inode) = Some proc"
proof -
  obtain can once' where c: "can_inspect_other_processes fs once = (can, once')" by fastforce
  show ?thesis
  proof (cases can)
    case True
    then obtain ps where ps: "all_processes fs = Inr ps" "Inr proc \<in> set ps" and h: "holds_socket inode proc"
      and u: "\<And>q. Inr q \<in> set ps \<Longrightarrow> holds_socket inode q \<Longrightarrow> q = proc"
      using assms c by (fastforce simp: socket_holder_def list_all_iff split: sum.splits)
    have "find (holds_socket inode) (List.map_filter ok ps) = Some proc"
    proof (rule find_unique)
      show "proc \<in> set (List.map_filter ok ps)"
        using ps(2) by (force simp: List.map_filter_def ok_def)
      show "y = proc" if "y \<in> set (List.map_filter ok ps)" "holds_socket inode y" for y
        using that u by (auto simp: List.map_filter_def ok_def split: sum.splits)
    qed (rule h)
    then show ?thesis using c True ps(1) by (simp add: process_with_socket_def)
  next
    case False
    then show ?thesis using assms c by (simp add: process_with_socket_def socket_holder_def ok_def)
  qed
qed

lemma identify_connected:
  assumes "filter (connected_row peer server) (socket_tables fs tr) = [row]"
  shows "fst (identify fs once tr peer server False) = \<lparr>uid = Some (se_uid row), gid = None, pid = None\<rparr>"
    and "socket_holder fs (fst (can_inspect_other_processes fs once)) (se_inode row) proc \<Longrightarrow>
      fst (identify fs once tr peer server True) =
        \<lparr>uid = Some (se_uid row), gid = ok (pr_status_egid proc), pid = Some (pr_pid proc)\<rparr>"
proof -
  have "row \<in> set (filter (connected_row peer server) (socket_tables fs tr))" by (simp add: assms)
  then have "\<exists>e \<in> set (socket_tables fs tr). connected_row peer server e" by auto
  then have "best_sockets (socket_tables fs tr) peer server = [row]"
    using best_sockets_connected assms by metis
  then have f: "find_socket (socket_tables fs tr) peer server = One row" by (simp add: find_socket_best)
  then show "fst (identify fs once tr peer server False) = \<lparr>uid = Some (se_uid row), gid = None, pid = None\<rparr>"
    by (simp add: identify_def)
  show "fst (identify fs once tr peer server True) =
      \<lparr>uid = Some (se_uid row), gid = ok (pr_status_egid proc), pid = Some (pr_pid proc)\<rparr>"
    if "socket_holder fs (fst (can_inspect_other_processes fs once)) (se_inode row) proc"
    using f process_with_socket_holder [OF that] by (auto simp: identify_def split: prod.split)
qed

lemma identify_unlisted:
  "list_all (\<lambda>e. sa_port (se_local e) \<noteq> sa_port peer) (socket_tables fs tr) \<Longrightarrow>
     fst (identify fs once tr peer server processes) = caller_unknown"
  by (simp add: identify_def find_socket_best best_sockets_def fit_def list_all_iff)

section \<open>Properties\<close>

text \<open>
  The search for the socket a packet came out of is exact: of the rows that could have sent
  it, the ones of the highest fit decide, one row gives that socket, several rows of one user give
  the user, rows of different users give nobody.
\<close>

theorem find_socket_exact:
  "find_socket rows peer server =
     (let best = best_sockets rows peer server in
      if best = [] then NoMatch
      else if length best = 1 then One (hd best)
      else if se_uid ` set best = {se_uid (hd best)} then SameUser (se_uid (hd best))
      else Ambiguous)"
  by (rule find_socket_best)

text \<open>
  (C18) A caller is identified as a user exactly when some socket could have sent the packet and all
  the best fitting ones belong to that user; whatever the order of the tables, and whether or not
  processes are looked up.
\<close>

theorem identify_uid_exact:
  "uid (fst (identify fs once tr peer server processes)) = Some u \<longleftrightarrow>
     se_uid ` set (best_sockets (socket_tables fs tr) peer server) = {u}"
  by (rule identify_uid)

text \<open>
  (C32) A process is named only if it is one of those that \<open>/proc\<close> shows the daemon and it holds the
  one socket that fits best; the group is then that process's effective group, as far as it can be
  read. Conversely, when no process is named no group is, and if processes were asked for and one
  socket fits best, none of the visible processes holds it.
\<close>

theorem identify_process_holds_socket:
  assumes "identify fs once tr peer server processes = (c, once')"
  shows "case pid c of
     Some p \<Rightarrow>
       processes \<and>
       (\<exists>socket proc. best_sockets (socket_tables fs tr) peer server = [socket] \<and>
          uid c = Some (se_uid socket) \<and>
          proc \<in> visible_processes fs once \<and> holds_socket (se_inode socket) proc \<and>
          p = pr_pid proc \<and> gid c = ok (pr_status_egid proc))
   | None \<Rightarrow>
       gid c = None \<and>
       (\<forall>socket. processes \<and> best_sockets (socket_tables fs tr) peer server = [socket] \<longrightarrow>
          {proc \<in> visible_processes fs once. holds_socket (se_inode socket) proc} = {})"
proof -
  let ?best = "best_sockets (socket_tables fs tr) peer server"
  consider "?best = []" | e where "?best = [e]" | e e' es where "?best = e # e' # es"
    by (metis list.exhaust)
  then show ?thesis
  proof cases
    case (2 e)
    obtain found once'' where "process_with_socket fs once (se_inode e) = (found, once'')" by fastforce
    then show ?thesis
      using assms 2 process_with_socket_visible [of fs once "se_inode e"]
      by (cases found) (auto simp: identify_def find_socket_best split: if_splits)
  qed (use assms in \<open>auto simp: identify_def find_socket_best Let_def caller_unknown_def split: if_splits\<close>)
qed

text \<open>A machine on which process 42 holds the only UDP socket, and another process cannot be read.\<close>

definition one_holder_procfs :: procfs where
  "one_holder_procfs =
     (let holder = \<lparr>pr_pid = 42, pr_fd = Inr [Inr FdOther, Inr (FdSocket 77)], pr_status_egid = Inr 100\<rparr>;
          other = \<lparr>pr_pid = 1, pr_fd = Inr [Inr FdOther], pr_status_egid = Inr 0\<rparr>
      in \<lparr>net_udp = Inr [\<lparr>se_local = \<lparr>sa_ip = V4 1, sa_port = 40000\<rparr>, se_remote = \<lparr>sa_ip = V4 0, sa_port = 0\<rparr>,
                         se_uid = 1000, se_inode = 77\<rparr>],
          net_udp6 = Inl ProcError, net_tcp = Inr [], net_tcp6 = Inr [], proc_myself = Inl ProcError,
          proc_new = (\<lambda>_. Inr other), all_processes = Inr [Inr other, Inl ProcError, Inr holder]\<rparr>)"

theorem identify_process_holds_socket_witness:
  "\<exists>socket proc.
     best_sockets (socket_tables one_holder_procfs Udp) \<lparr>sa_ip = V4 1, sa_port = 40000\<rparr> \<lparr>sa_ip = V4 2, sa_port = 53\<rparr> =
       [socket] \<and>
     se_uid socket = 1000 \<and> proc \<in> visible_processes one_holder_procfs None \<and> pr_pid proc = 42 \<and>
     holds_socket (se_inode socket) proc \<and> ok (pr_status_egid proc) = Some 100"
proof -
  let ?c = "\<lparr>uid = Some 1000, gid = Some 100, pid = Some 42\<rparr>"
  have run: "identify one_holder_procfs None Udp \<lparr>sa_ip = V4 1, sa_port = 40000\<rparr> \<lparr>sa_ip = V4 2, sa_port = 53\<rparr> True
    = (?c, Some True)" by code_simp
  from identify_process_holds_socket [OF run] obtain socket proc where
    "best_sockets (socket_tables one_holder_procfs Udp) \<lparr>sa_ip = V4 1, sa_port = 40000\<rparr> \<lparr>sa_ip = V4 2, sa_port = 53\<rparr> =
       [socket]"
    "se_uid socket = 1000" "proc \<in> visible_processes one_holder_procfs None" "pr_pid proc = 42"
    "holds_socket (se_inode socket) proc" "ok (pr_status_egid proc) = Some 100"
    by auto
  then show ?thesis by blast
qed

text \<open>
  A dual-stack socket is recognised: a row of the IPv6 table whose local address is the
  IPv4-mapped form of an address fits a packet exactly as the IPv4 row would, and so does a packet
  whose sender is given in either form.
\<close>

theorem fit_ipv4_mapped:
  assumes "a \<noteq> 0"
  shows "fit (row\<lparr>se_local := \<lparr>sa_ip = V6 (to_ipv6_mapped a), sa_port = p\<rparr>\<rparr>) peer server =
           fit (row\<lparr>se_local := \<lparr>sa_ip = V4 a, sa_port = p\<rparr>\<rparr>) peer server \<and>
         fit row \<lparr>sa_ip = V6 (to_ipv6_mapped b), sa_port = p\<rparr> server =
           fit row \<lparr>sa_ip = V4 b, sa_port = p\<rparr> server"
proof -
  have "to_ipv6_mapped a \<noteq> 0"
    using to_canonical_mapped [of a] by (auto simp: to_canonical_def)
  then show ?thesis
    using assms
    by (simp add: fit_def same_host_def to_canonical_mapped is_unspecified_def Let_def)
       (simp add: to_canonical_def)
qed

theorem fit_ipv4_mapped_witness:
  "fit \<lparr>se_local = \<lparr>sa_ip = V6 (to_ipv6_mapped 0x7F000001), sa_port = 40000\<rparr>,
        se_remote = \<lparr>sa_ip = V6 0, sa_port = 0\<rparr>, se_uid = 5, se_inode = 1\<rparr>
     \<lparr>sa_ip = V4 0x7F000001, sa_port = 40000\<rparr> \<lparr>sa_ip = V4 0x7F000001, sa_port = 53\<rparr> = Some 1"
proof -
  let ?row = "\<lparr>se_local = \<lparr>sa_ip = V4 0, sa_port = 0\<rparr>,
        se_remote = \<lparr>sa_ip = V6 0, sa_port = 0\<rparr>, se_uid = 5, se_inode = 1\<rparr>"
  have "(0x7F000001 :: u32) \<noteq> 0" by simp
  from fit_ipv4_mapped [OF this, of 40000 ?row "\<lparr>sa_ip = V4 0x7F000001, sa_port = 40000\<rparr>"
      "\<lparr>sa_ip = V4 0x7F000001, sa_port = 53\<rparr>"]
  show ?thesis by (simp add: fit_def same_host_def is_unspecified_def Let_def to_canonical_def)
qed

text \<open>
  Whether other processes may be inspected is found out once: after the first probe, the
  answer no longer depends on the system.
\<close>

theorem inspection_probed_once:
  "\<exists>can. can_inspect_other_processes fs once = (can, Some can) \<and>
     can_inspect_other_processes fs' (Some can) = (can, Some can)"
  by (auto simp: can_inspect_other_processes_def Let_def split: option.split)

text \<open>
  (C33) A client that talks to the front-end over a connected socket is identified completely: if
  exactly one row of the tables is connected from its address to the server's, the user is that
  row's; and if a process can be seen to hold the socket and no other process is seen to hold it,
  the process and its effective group are named too.
\<close>

theorem connected_socket_identified:
  assumes "filter (connected_row peer server) (socket_tables fs tr) = [row]"
    and "socket_holder fs (fst (can_inspect_other_processes fs once)) (se_inode row) proc"
  shows "fst (identify fs once tr peer server True) =
           \<lparr>uid = Some (se_uid row), gid = ok (pr_status_egid proc), pid = Some (pr_pid proc)\<rparr> \<and>
         fst (identify fs once tr peer server False) = \<lparr>uid = Some (se_uid row), gid = None, pid = None\<rparr>"
  using identify_connected [OF assms(1)] assms(2) by simp

text \<open>A machine with one connected socket, over IPv6 to an IPv4 server, and one process.\<close>

definition dual_stack_row :: socket_entry where
  "dual_stack_row =
     \<lparr>se_local = \<lparr>sa_ip = V6 (to_ipv6_mapped 0x7F000001), sa_port = 40000\<rparr>,
      se_remote = \<lparr>sa_ip = V6 (to_ipv6_mapped 0x7F000001), sa_port = 53\<rparr>, se_uid = 1000, se_inode = 77\<rparr>"

definition dual_stack_process :: process where
  "dual_stack_process = \<lparr>pr_pid = 42, pr_fd = Inr [Inr FdOther, Inr (FdSocket 77)], pr_status_egid = Inr 100\<rparr>"

definition dual_stack_procfs :: procfs where
  "dual_stack_procfs =
     \<lparr>net_udp = Inr [], net_udp6 = Inr [dual_stack_row], net_tcp = Inl ProcError, net_tcp6 = Inl ProcError,
      proc_myself = Inr dual_stack_process, proc_new = (\<lambda>_. Inl ProcError), all_processes = Inl ProcError\<rparr>"

theorem connected_socket_identified_witness:
  "fst (identify dual_stack_procfs None Udp \<lparr>sa_ip = V4 0x7F000001, sa_port = 40000\<rparr>
      \<lparr>sa_ip = V4 0x7F000001, sa_port = 53\<rparr> True) = \<lparr>uid = Some 1000, gid = Some 100, pid = Some 42\<rparr>"
proof -
  have "filter (connected_row \<lparr>sa_ip = V4 0x7F000001, sa_port = 40000\<rparr> \<lparr>sa_ip = V4 0x7F000001, sa_port = 53\<rparr>)
      (socket_tables dual_stack_procfs Udp) = [dual_stack_row]"
    by code_simp
  moreover have "socket_holder dual_stack_procfs
      (fst (can_inspect_other_processes dual_stack_procfs None)) (se_inode dual_stack_row) dual_stack_process"
    by code_simp
  ultimately show ?thesis
    using connected_socket_identified [of "\<lparr>sa_ip = V4 0x7F000001, sa_port = 40000\<rparr>"
        "\<lparr>sa_ip = V4 0x7F000001, sa_port = 53\<rparr>" dual_stack_procfs Udp dual_stack_row None dual_stack_process]
    by (simp add: dual_stack_row_def dual_stack_process_def ok_def)
qed

end
