(* ===== verification/Dns_Frontend.thy ===== *)
theory Dns_Frontend
  imports Dns_Wire Identify Relay Protocol
begin

text \<open>
  The DNS front-end (\<open>src/dns.rs\<close>): queries are judged for the owner of the socket they came out
  of and answered, refused, or forwarded to the upstream server. The network is a parameter: what
  binding, connecting, sending and receiving give before a deadline. Operations return what they
  sent upstream, in order, beside their result.
\<close>

section \<open>State and environment\<close>

record 'p dns_frontend =
  dn_listen :: socket_addr
  dn_upstream :: socket_addr
  dn_identify_processes :: bool
  dn_timeout :: nat
  dn_read_timeout :: nat
  dn_tcp_slots :: usize
  dn_udp_slots :: usize
  dn_engine :: "'p policy_engine"
  dn_relays :: relays

definition DNS_MAX_CONNECTIONS :: usize where "DNS_MAX_CONNECTIONS = 512"
definition DNS_READ_TIMEOUT :: nat where "DNS_READ_TIMEOUT = 5000"

definition dns_with_limits ::
  "dns_frontend_config \<Rightarrow> 'p policy_engine \<Rightarrow> nat \<Rightarrow> usize \<Rightarrow> 'p dns_frontend io_result"
where
  "dns_with_limits cfg eng read_timeout max_connections =
     (case df_upstream cfg of
        None \<Rightarrow> Inl KInvalidInput
      | Some upstream \<Rightarrow>
          Inr \<lparr>dn_listen = df_listen cfg, dn_upstream = upstream,
               dn_identify_processes = df_identify_processes cfg,
               dn_timeout = unat (df_upstream_timeout_ms cfg), dn_read_timeout = read_timeout,
               dn_tcp_slots = max_connections, dn_udp_slots = max_connections, dn_engine = eng,
               dn_relays = relays_default\<rparr>)"

definition dns_new :: "dns_frontend_config \<Rightarrow> 'p policy_engine \<Rightarrow> 'p dns_frontend io_result" where
  "dns_new cfg eng = dns_with_limits cfg eng DNS_READ_TIMEOUT DNS_MAX_CONNECTIONS"

definition with_relays :: "'p dns_frontend \<Rightarrow> relays \<Rightarrow> 'p dns_frontend" where
  "with_relays fe rs = fe\<lparr>dn_relays := rs\<rparr>"

datatype dns_event = UdpSend socket_addr bytes | TcpWrite socket_addr bytes

text \<open>
  A UDP socket: the fates of connecting and sending, and what is received after that, in order: a
  datagram or an error, and silence until the deadline at the end of the list. A TCP connection:
  the fate of writing the bytes so far, and the stream that answers them.
\<close>

datatype udp_recv = Datagram bytes | RecvError io_error

record udp_socket =
  us_connect :: "socket_addr \<Rightarrow> unit await"
  us_send :: "bytes \<Rightarrow> unit await"
  us_recv :: "bytes \<Rightarrow> udp_recv list"

record tcp_conn =
  tc_write :: "bytes \<Rightarrow> unit await"
  tc_answer :: "bytes \<Rightarrow> stream"

record dns_net =
  net_udp_bind :: "nat \<Rightarrow> socket_addr \<Rightarrow> udp_socket await"
  net_tcp_connect :: "nat \<Rightarrow> socket_addr \<Rightarrow> tcp_conn await"

section \<open>Forwarding\<close>

fun recv_loop :: "bytes \<Rightarrow> udp_recv list \<Rightarrow> bytes await" where
  "recv_loop raw [] = Stalled"
| "recv_loop raw (RecvError e # rs) = Failed e"
| "recv_loop raw (Datagram d # rs) =
     (let buf = take MAX_MESSAGE d in
      if length buf \<ge> 2 \<and> take 2 buf = take 2 raw then Ready buf else recv_loop raw rs)"

definition forward_udp :: "dns_net \<Rightarrow> 'p dns_frontend \<Rightarrow> bytes \<Rightarrow> dns_event list \<times> bytes await" where
  "forward_udp net fe raw =
     (let local = (if is_ipv4 (sa_ip (dn_upstream fe)) then \<lparr>sa_ip = V4 0, sa_port = 0\<rparr>
                   else \<lparr>sa_ip = V6 0, sa_port = 0\<rparr>)
      in case net_udp_bind net (dn_timeout fe) local of
           Failed e \<Rightarrow> ([], Failed e)
         | Stalled \<Rightarrow> ([], Stalled)
         | Ready socket \<Rightarrow>
             (case us_connect socket (dn_upstream fe) of
                Failed e \<Rightarrow> ([], Failed e)
              | Stalled \<Rightarrow> ([], Stalled)
              | Ready _ \<Rightarrow>
                  ([UdpSend (dn_upstream fe) raw],
                   await_bind (us_send socket raw) (\<lambda>_. recv_loop raw (us_recv socket raw)))))"

definition forward_tcp :: "dns_net \<Rightarrow> 'p dns_frontend \<Rightarrow> bytes \<Rightarrow> dns_event list \<times> bytes await" where
  "forward_tcp net fe raw =
     (case net_tcp_connect net (dn_timeout fe) (dn_upstream fe) of
        Failed e \<Rightarrow> ([], Failed e)
      | Stalled \<Rightarrow> ([], Stalled)
      | Ready stream \<Rightarrow>
          let prefix = to_be_bytes 2 (word_of_nat (length raw) :: u16) in
          case tc_write stream prefix of
            Failed e \<Rightarrow> ([TcpWrite (dn_upstream fe) prefix], Failed e)
          | Stalled \<Rightarrow> ([TcpWrite (dn_upstream fe) prefix], Stalled)
          | Ready _ \<Rightarrow>
              ([TcpWrite (dn_upstream fe) prefix, TcpWrite (dn_upstream fe) raw],
               await_bind (tc_write stream (prefix @ raw)) (\<lambda>_.
                 await_bind (fst (read_tcp_message (tc_answer stream (prefix @ raw)))) (\<lambda>m.
                   case m of Some reply \<Rightarrow> Ready reply | None \<Rightarrow> Failed KUnexpectedEof))))"

definition dns_forward ::
  "dns_net \<Rightarrow> 'p dns_frontend \<Rightarrow> dns_query \<Rightarrow> transport \<Rightarrow> dns_event list \<times> bytes"
where
  "dns_forward net fe q tr =
     (let (sent, result) = (case tr of Udp \<Rightarrow> forward_udp net fe (qy_raw q)
                                     | Tcp \<Rightarrow> forward_tcp net fe (qy_raw q))
      in (sent, case timeout result of Some (Inr reply) \<Rightarrow> reply | _ \<Rightarrow> servfail q))"

section \<open>Answering\<close>

text \<open>The root has no labels; the policy knows it as \<open>.\<close>\<close>

definition query_hostname :: "dns_query \<Rightarrow> string" where
  "query_hostname q = (if qn_name (qy_question q) = [] then ''.'' else qn_name (qy_question q))"

text \<open>What \<open>respond\<close> does once the query is parsed and the caller known.\<close>

definition respond_as ::
  "('p, 'e, 'v) cel_execute \<Rightarrow> dns_net \<Rightarrow> 'p dns_frontend \<Rightarrow> transport \<Rightarrow> dns_query \<Rightarrow> caller
     \<Rightarrow> dns_event list \<times> bytes"
where
  "respond_as execute net fe tr q c =
     (if relays_contains (dn_relays fe) c then dns_forward net fe q tr
      else
        case evaluate_for execute (dn_engine fe) (query_hostname q) c of
          Denied reason \<Rightarrow> ([], nxdomain q)
        | PassThrough \<Rightarrow> dns_forward net fe q tr
        | Allowed \<Rightarrow>
            let addrs = upstream_resolve (query_hostname q) in
            if addrs = [] then dns_forward net fe q tr else ([], answer q addrs))"

text \<open>
  The caller is identified on a blocking thread; \<open>None\<close> stands for a thread that did not finish
  (it panicked), which leaves the caller unknown.
\<close>

definition identify_caller ::
  "procfs option \<Rightarrow> bool option \<Rightarrow> 'p dns_frontend \<Rightarrow> socket_addr \<Rightarrow> transport \<Rightarrow> socket_addr
     \<Rightarrow> caller \<times> bool option"
where
  "identify_caller fs once fe peer tr server =
     (case fs of
        Some fs \<Rightarrow> identify fs once tr peer server (dn_identify_processes fe)
      | None \<Rightarrow> (caller_unknown, once))"

definition respond ::
  "('p, 'e, 'v) cel_execute \<Rightarrow> dns_net \<Rightarrow> procfs option \<Rightarrow> bool option \<Rightarrow> 'p dns_frontend \<Rightarrow> bytes
     \<Rightarrow> socket_addr \<Rightarrow> transport \<Rightarrow> socket_addr \<Rightarrow> (dns_event list \<times> bytes) \<times> bool option"
where
  "respond execute net fs once fe raw peer tr server =
     (case query_parse raw of
        Inl e \<Rightarrow> (([], formerr raw), once)
      | Inr q \<Rightarrow>
          let (c, once') = identify_caller fs once fe peer tr server
          in (respond_as execute net fe tr q c, once'))"

section \<open>A TCP connection\<close>

text \<open>
  The client's connection: its local address, the bytes it sends (the deadline of each message is
  met up to the end of the stream, where silence stands for a missed one), and the fate of each
  write, which nothing bounds. The environment of the n-th message is given by \<open>env\<close>.
\<close>

record tcp_client =
  tl_local :: "socket_addr io_result"
  tl_incoming :: "nat \<Rightarrow> stream"
  tl_write :: "nat \<Rightarrow> unit await"

datatype tcp_output = ToUpstream dns_event | ToClient bytes

type_synonym dns_env = "nat \<Rightarrow> dns_net \<times> procfs option"

function connection_loop ::
  "('p, 'e, 'v) cel_execute \<Rightarrow> dns_env \<Rightarrow> 'p dns_frontend \<Rightarrow> (nat \<Rightarrow> unit await) \<Rightarrow> socket_addr
     \<Rightarrow> socket_addr \<Rightarrow> stream \<Rightarrow> bool option \<Rightarrow> nat \<Rightarrow> tcp_output list \<times> unit await"
where
  "connection_loop execute env fe wr peer server st once n =
     (case read_tcp_message st of
        (Stalled, st') \<Rightarrow> ([], Ready ())
      | (Failed e, st') \<Rightarrow> ([], Failed e)
      | (Ready None, st') \<Rightarrow> ([], Ready ())
      | (Ready (Some message), st') \<Rightarrow>
          let ((sent, reply), once') =
                respond execute (fst (env n)) (snd (env n)) once fe message peer Tcp server;
              prefix = to_be_bytes 2 (word_of_nat (length reply) :: u16)
          in case wr (2 * n) of
               Failed e \<Rightarrow> (map ToUpstream sent @ [ToClient prefix], Failed e)
             | Stalled \<Rightarrow> (map ToUpstream sent @ [ToClient prefix], Stalled)
             | Ready _ \<Rightarrow>
                 (case wr (2 * n + 1) of
                    Failed e \<Rightarrow> (map ToUpstream sent @ [ToClient prefix, ToClient reply], Failed e)
                  | Stalled \<Rightarrow> (map ToUpstream sent @ [ToClient prefix, ToClient reply], Stalled)
                  | Ready _ \<Rightarrow>
                      let (out, res) = connection_loop execute env fe wr peer server st' once' (n + 1)
                      in (map ToUpstream sent @ [ToClient prefix, ToClient reply] @ out, res)))"
  by pat_completeness auto
termination
  by (relation "measure (\<lambda>(execute, env, fe, wr, peer, server, st, once, n). length (inbuf st))")
     (auto dest!: read_tcp_message_shorter [OF sym])

declare connection_loop.simps [simp del]

definition serve_tcp_connection ::
  "('p, 'e, 'v) cel_execute \<Rightarrow> dns_env \<Rightarrow> 'p dns_frontend \<Rightarrow> tcp_client \<Rightarrow> socket_addr \<Rightarrow> bool option
     \<Rightarrow> tcp_output list \<times> unit await"
where
  "serve_tcp_connection execute env fe cl peer once =
     (case tl_local cl of
        Inl e \<Rightarrow> ([], Failed e)
      | Inr server \<Rightarrow>
          connection_loop execute env fe (tl_write cl) peer server (tl_incoming cl (dn_read_timeout fe)) once 0)"

section \<open>What forwarding does\<close>

lemma recv_loop_Ready:
  "recv_loop raw rs = Ready b \<Longrightarrow> 2 \<le> length b \<and> length b \<le> MAX_MESSAGE \<and> take 2 b = take 2 raw"
  by (induction raw rs rule: recv_loop.induct) (auto simp: Let_def split: if_splits)

lemma forward_udp_Ready:
  "snd (forward_udp net fe raw) = Ready b \<Longrightarrow>
     2 \<le> length b \<and> length b \<le> MAX_MESSAGE \<and> take 2 b = take 2 raw"
  by (auto simp: forward_udp_def Let_def await_bind_Ready_iff dest: recv_loop_Ready split: await.splits)

lemma forward_tcp_Ready:
  assumes "snd (forward_tcp net fe raw) = Ready b"
  shows "length b \<le> MAX_MESSAGE"
proof -
  obtain st where "fst (read_tcp_message st) = Ready (Some b)"
    using assms
    by (auto simp: forward_tcp_def Let_def await_bind_Ready_iff split: await.splits option.splits)
  then have "read_tcp_message st = (Ready (Some b), snd (read_tcp_message st))" by (metis prod.collapse)
  then show ?thesis by (simp add: read_tcp_message_Some_iff)
qed

definition relayed :: "dns_net \<Rightarrow> 'p dns_frontend \<Rightarrow> dns_query \<Rightarrow> transport \<Rightarrow> dns_event list \<times> bytes await" where
  "relayed net fe q tr =
     (case tr of Udp \<Rightarrow> forward_udp net fe (qy_raw q) | Tcp \<Rightarrow> forward_tcp net fe (qy_raw q))"

lemma dns_forward_relayed:
  "dns_forward net fe q tr =
     (fst (relayed net fe q tr),
      case snd (relayed net fe q tr) of Ready reply \<Rightarrow> reply | _ \<Rightarrow> servfail q)"
  unfolding dns_forward_def relayed_def [symmetric]
  by (cases "relayed net fe q tr"; cases "snd (relayed net fe q tr)") auto

lemma servfail_length: "query_parse raw = Inr q \<Longrightarrow> length (servfail q) \<le> 272"
  using length_response [of raw q _ "[]"] by (simp add: servfail_def)

lemma dns_forward_length:
  assumes "query_parse raw = Inr q"
  shows "length (snd (dns_forward net fe q tr)) \<le> MAX_MESSAGE"
  using servfail_length [OF assms]
  by (cases tr)
     (auto simp: dns_forward_relayed relayed_def MAX_MESSAGE_def split: await.split
        dest!: forward_udp_Ready forward_tcp_Ready)

lemma respond_as_length:
  assumes "query_parse raw = Inr q"
  shows "length (snd (respond_as execute net fe tr q c)) \<le> MAX_MESSAGE"
proof -
  have "length (nxdomain q) \<le> MAX_MESSAGE"
    using length_response [OF assms, of RCODE_NXDOMAIN "[]" 0] by (simp add: nxdomain_def MAX_MESSAGE_def)
  moreover have "length (answer q (upstream_resolve h)) \<le> MAX_MESSAGE" for h
  proof -
    have "length (matching q (upstream_resolve h)) \<le> 1"
      using length_upstream_resolve [of h] length_filter_le order_trans unfolding matching_def by blast
    then have "length (concat (map (answer_record q) (matching q (upstream_resolve h)))) \<le> 28"
      using length_answer_record [of q] by (cases "matching q (upstream_resolve h)") auto
    then show ?thesis
      using length_response [OF assms, of RCODE_NOERROR
          "concat (map (answer_record q) (matching q (upstream_resolve h)))"
          "word_of_nat (length (matching q (upstream_resolve h)))"]
      unfolding answer_eq MAX_MESSAGE_def by linarith
  qed
  ultimately show ?thesis
    using dns_forward_length [OF assms, of net fe tr]
    by (simp add: respond_as_def Let_def split: policy_verdict.split)
qed

lemma respond_length: "length (snd (fst (respond execute net fs once fe raw peer tr server))) \<le> MAX_MESSAGE"
proof (cases "query_parse raw")
  case (Inr q)
  then show ?thesis
    by (simp add: respond_def respond_as_length [OF Inr] split: prod.split)
qed (simp add: respond_def MAX_MESSAGE_def)

lemma respond_udp_id:
  assumes "2 \<le> length raw"
  shows "take 2 (snd (fst (respond execute net fs once fe raw peer Udp server))) = take 2 raw"
proof (cases "query_parse raw")
  case (Inr q)
  have id: "take 2 (response q r a n) = take 2 raw" if "r \<in> {0, 1, 2, 3}" for r a n
    using response_is_response_to [OF Inr that, of a n] by (simp add: response_to_def)
  have sf: "take 2 (servfail q) = take 2 raw" using id by (simp add: servfail_def RCODE_SERVFAIL_def)
  have "take 2 (snd (dns_forward net fe q Udp)) = take 2 raw"
    using forward_udp_Ready [of net fe raw] query_parse_length(1) [OF Inr] sf
    by (auto simp: dns_forward_relayed relayed_def split: await.split)
  then show ?thesis
    using Inr id
    by (simp add: respond_def respond_as_def Let_def nxdomain_def answer_eq RCODE_NXDOMAIN_def
          RCODE_NOERROR_def split: prod.split policy_verdict.split)
next
  case (Inl e)
  with assms show ?thesis by (simp add: respond_def formerr_def)
qed

text \<open>The specification, implemented for any rule interpreter, network, engine and transport.\<close>

definition dns_realise ::
  "dns_net \<Rightarrow> 'p dns_frontend \<Rightarrow> transport \<Rightarrow> dns_query \<Rightarrow> decision \<Rightarrow> dns_event list \<times> bytes"
where
  "dns_realise net fe tr q d =
     (case d of
        Refuse why \<Rightarrow> ([], nxdomain q)
      | Forward \<Rightarrow> dns_forward net fe q tr
      | Own addrs \<Rightarrow> ([], answer q addrs))"

interpretation dns_front: policy_resolver
  "evaluate_for execute (dn_engine fe)" canonical_hostname "relays_contains (dn_relays fe)"
  "\<lambda>q. Some (query_hostname q)" "dns_realise net fe tr" "respond_as execute net fe tr"
  for execute net fe tr
  by unfold_locales
     (auto simp: dns_realise_def respond_as_def lookup_decision_def Let_def split: policy_verdict.split)

lemma dns_forward_sends:
  "fst (dns_forward net fe q tr) \<in>
     {[], [UdpSend (dn_upstream fe) (qy_raw q)],
      [TcpWrite (dn_upstream fe) (to_be_bytes 2 (word_of_nat (length (qy_raw q)) :: u16))],
      [TcpWrite (dn_upstream fe) (to_be_bytes 2 (word_of_nat (length (qy_raw q)) :: u16)),
       TcpWrite (dn_upstream fe) (qy_raw q)]}"
  by (cases tr) (auto simp: dns_forward_def forward_udp_def forward_tcp_def Let_def split: prod.split await.split)

section \<open>What a connection answers\<close>

definition client_bytes :: "tcp_output list \<Rightarrow> bytes" where
  "client_bytes outs = concat (map (\<lambda>x. case x of ToClient b \<Rightarrow> b | ToUpstream _ \<Rightarrow> []) outs)"

text \<open>The specification of a connection: the replies to the messages, one after the other.\<close>

fun answer_all ::
  "('p, 'e, 'v) cel_execute \<Rightarrow> dns_env \<Rightarrow> 'p dns_frontend \<Rightarrow> socket_addr \<Rightarrow> socket_addr \<Rightarrow> bool option
     \<Rightarrow> nat \<Rightarrow> bytes list \<Rightarrow> bytes list"
where
  "answer_all execute env fe peer server once n [] = []"
| "answer_all execute env fe peer server once n (m # ms) =
     (let ((sent, reply), once') = respond execute (fst (env n)) (snd (env n)) once fe m peer Tcp server
      in reply # answer_all execute env fe peer server once' (n + 1) ms)"

text \<open>How the reading of a connection ends, when no further message is complete.\<close>

definition final_result :: "bytes option await \<Rightarrow> unit await" where
  "final_result r = (case r of Failed e \<Rightarrow> Failed e | _ \<Rightarrow> Ready ())"

lemma client_bytes_simps [simp]:
  "client_bytes [] = []"
  "client_bytes (ToClient b # outs) = b @ client_bytes outs"
  "client_bytes (map ToUpstream sent @ outs) = client_bytes outs"
  by (simp_all add: client_bytes_def comp_def)

lemma connection_loop_end:
  assumes "read_tcp_message st = (r, st')" "\<nexists>m. r = Ready (Some m)"
  shows "connection_loop execute env fe wr peer server st once n = ([], final_result r)"
  using assms
  by (subst connection_loop.simps) (auto simp: final_result_def split: await.split option.split)

lemma connection_loop_step:
  assumes "read_tcp_message st = (Ready (Some m), st')"
    and "respond execute (fst (env n)) (snd (env n)) once fe m peer Tcp server = ((sent, reply), once')"
    and "wr (2 * n) = Ready ()" "wr (2 * n + 1) = Ready ()"
  shows "connection_loop execute env fe wr peer server st once n =
     (let (out, res) = connection_loop execute env fe wr peer server st' once' (n + 1)
      in (map ToUpstream sent @
          [ToClient (to_be_bytes 2 (word_of_nat (length reply) :: u16)), ToClient reply] @ out, res))"
  using assms by (subst connection_loop.simps) simp

lemma connection_loop_replies:
  assumes "list_all (\<lambda>m. length m \<le> MAX_MESSAGE) ms"
    and "read_tcp_message \<lparr>inbuf = rest, at_end = e\<rparr> = (r, st')" "\<nexists>m. r = Ready (Some m)"
    and wr: "\<And>k. wr k = Ready ()"
  shows "client_bytes (fst (connection_loop execute env fe wr peer server
            \<lparr>inbuf = concat (map tcp_frame ms) @ rest, at_end = e\<rparr> once n)) =
           concat (map tcp_frame (answer_all execute env fe peer server once n ms)) \<and>
         snd (connection_loop execute env fe wr peer server
            \<lparr>inbuf = concat (map tcp_frame ms) @ rest, at_end = e\<rparr> once n) = final_result r"
  using assms(1)
proof (induction ms arbitrary: once n)
  case Nil
  show ?case by (simp add: connection_loop_end [OF assms(2,3)])
next
  case (Cons m ms)
  obtain sent reply once' where
    resp: "respond execute (fst (env n)) (snd (env n)) once fe m peer Tcp server = ((sent, reply), once')"
    by (metis surj_pair)
  have "read_tcp_message \<lparr>inbuf = tcp_frame m @ concat (map tcp_frame ms) @ rest, at_end = e\<rparr> =
      (Ready (Some m), \<lparr>inbuf = concat (map tcp_frame ms) @ rest, at_end = e\<rparr>)"
    using Cons.prems by (simp add: read_tcp_message_Some_iff)
  from connection_loop_step [where wr = wr and env = env and n = n, OF this resp wr wr] show ?case
    using Cons.IH [of once' "n + 1"] Cons.prems resp
    by (simp add: Let_def tcp_frame_def [of reply] split: prod.splits)
qed

text \<open>
  What justifies sending a client's message upstream: it is a query, and the decision on its name is
  to forward it, for the very caller that is identified as its sender from the state \<open>fs\<close> of \<open>/proc\<close>
  in which the message is answered and the probe \<open>once\<close> made before.
\<close>

definition dns_justified ::
  "(string \<Rightarrow> caller \<Rightarrow> policy_verdict) \<Rightarrow> 'p dns_frontend \<Rightarrow> transport \<Rightarrow> socket_addr \<Rightarrow> socket_addr
     \<Rightarrow> procfs option \<Rightarrow> bool option \<Rightarrow> bytes \<Rightarrow> bool"
where
  "dns_justified judge fe tr peer server fs once m \<longleftrightarrow>
     (case query_parse m of
        Inl e \<Rightarrow> False
      | Inr q \<Rightarrow>
          lookup_decision judge (relays_contains (dn_relays fe)) (query_hostname q)
            (fst (identify_caller fs once fe peer tr server)) = Forward)"

text \<open>The probe after the messages \<open>ms\<close> of a connection, the first of which is its n-th.\<close>

fun probe_after ::
  "dns_env \<Rightarrow> 'p dns_frontend \<Rightarrow> socket_addr \<Rightarrow> socket_addr \<Rightarrow> bool option \<Rightarrow> nat \<Rightarrow> bytes list \<Rightarrow> bool option"
where
  "probe_after env fe peer server once n [] = once"
| "probe_after env fe peer server once n (m # ms) =
     probe_after env fe peer server
       (case query_parse m of
          Inl e \<Rightarrow> once
        | Inr q \<Rightarrow> snd (identify_caller (snd (env n)) once fe peer Tcp server))
       (n + 1) ms"

lemma respond_probe:
  "snd (respond execute net fs once fe m peer tr server) =
     (case query_parse m of Inl e \<Rightarrow> once | Inr q \<Rightarrow> snd (identify_caller fs once fe peer tr server))"
  by (simp add: respond_def split: sum.split prod.split)

text \<open>The messages that carry a query upstream: it alone over UDP, its length and itself over TCP.\<close>

definition carrying :: "'p dns_frontend \<Rightarrow> transport \<Rightarrow> bytes \<Rightarrow> dns_event set" where
  "carrying fe tr m =
     (case tr of
        Udp \<Rightarrow> {UdpSend (dn_upstream fe) m}
      | Tcp \<Rightarrow> {TcpWrite (dn_upstream fe) (to_be_bytes 2 (word_of_nat (length m) :: u16)),
                TcpWrite (dn_upstream fe) m})"

lemma dns_forward_carrying: "set (fst (dns_forward net fe q tr)) \<subseteq> carrying fe tr (qy_raw q)"
  by (cases tr)
     (auto simp: carrying_def dns_forward_def forward_udp_def forward_tcp_def Let_def split: prod.splits await.splits)

lemma respond_upstream:
  assumes "ev \<in> set (fst (fst (respond execute net fs once fe m peer tr server)))"
  shows "dns_justified (evaluate_for execute (dn_engine fe)) fe tr peer server fs once m \<and>
         ev \<in> carrying fe tr m"
proof (cases "query_parse m")
  case (Inr q)
  obtain c once' where c: "identify_caller fs once fe peer tr server = (c, once')" by fastforce
  then have ev: "ev \<in> set (fst (respond_as execute net fe tr q c))"
    using assms Inr by (simp add: respond_def)
  then have "fst (respond_as execute net fe tr q c) \<noteq> []" by auto
  then have "lookup_decision (evaluate_for execute (dn_engine fe)) (relays_contains (dn_relays fe)) (query_hostname q) c = Forward"
    "respond_as execute net fe tr q c = dns_forward net fe q tr"
    using dns_front.contacted_forward [OF refl, where execute = execute and fe = fe and r = q and net = net and c = c and tr = tr]
    by (auto simp: dns_realise_def)
  then show ?thesis
    using ev c Inr dns_forward_carrying [of net fe q tr] query_parse_length(1) [OF Inr]
    by (auto simp: dns_justified_def)
qed (use assms in \<open>simp add: respond_def\<close>)

text \<open>
  What a connection sends upstream carries one of its messages, the k-th, and is justified in the
  environment of the k-th message.
\<close>

lemma connection_loop_upstream:
  "ToUpstream ev \<in> set (fst (connection_loop execute env fe wr peer server st once n)) \<Longrightarrow>
     \<exists>pre m post. inbuf st = concat (map tcp_frame pre) @ tcp_frame m @ post \<and>
       list_all (\<lambda>m. length m \<le> MAX_MESSAGE) (pre @ [m]) \<and>
       dns_justified (evaluate_for execute (dn_engine fe)) fe Tcp peer server
         (snd (env (n + length pre))) (probe_after env fe peer server once n pre) m \<and>
       ev \<in> carrying fe Tcp m"
proof (induction "length (inbuf st)" arbitrary: st once n rule: less_induct)
  case less
  obtain m st' where m: "read_tcp_message st = (Ready (Some m), st')"
    using less.prems connection_loop_end [of st _ _ execute env fe wr peer server once n]
    by (metis empty_iff fst_conv list.set(1) surj_pair)
  then have st: "inbuf st = tcp_frame m @ inbuf st'" and short: "length m \<le> MAX_MESSAGE"
    by (simp_all add: read_tcp_message_Some_iff)
  obtain sent reply once' where
    resp: "respond execute (fst (env n)) (snd (env n)) once fe m peer Tcp server = ((sent, reply), once')"
    by (metis surj_pair)
  have "ev \<in> set sent \<or> ToUpstream ev \<in> set (fst (connection_loop execute env fe wr peer server st' once' (n + 1)))"
    using less.prems m resp
    by (subst (asm) connection_loop.simps) (auto simp: Let_def split: await.splits prod.splits)
  then show ?case
  proof
    assume "ev \<in> set sent"
    with respond_upstream [of ev execute "fst (env n)" "snd (env n)" once fe m peer Tcp server] resp st
    show ?thesis using short by - (rule exI [of _ "[]"], auto)
  next
    assume "ToUpstream ev \<in> set (fst (connection_loop execute env fe wr peer server st' once' (n + 1)))"
    from less.hyps [OF read_tcp_message_shorter [OF m] this]
    obtain pre m' post where "inbuf st' = concat (map tcp_frame pre) @ tcp_frame m' @ post"
      "list_all (\<lambda>m. length m \<le> MAX_MESSAGE) (pre @ [m'])"
      "dns_justified (evaluate_for execute (dn_engine fe)) fe Tcp peer server
         (snd (env (n + 1 + length pre))) (probe_after env fe peer server once' (n + 1) pre) m'"
      "ev \<in> carrying fe Tcp m'" by blast
    moreover have "probe_after env fe peer server once' (n + 1) pre = probe_after env fe peer server once n (m # pre)"
      using respond_probe [of execute "fst (env n)" "snd (env n)" once fe m peer Tcp server] resp by simp
    ultimately show ?thesis using st short by - (rule exI [of _ "m # pre"], auto)
  qed
qed

text \<open>Only a client that lets a write wait forever keeps its handler from returning.\<close>

lemma connection_loop_stalled:
  "snd (connection_loop execute env fe wr peer server st once n) = Stalled \<Longrightarrow> \<exists>k. wr k = Stalled"
proof (induction execute env fe wr peer server st once n rule: connection_loop.induct)
  case (1 execute env fe wr peer server st once n)
  have IH: "\<exists>k. wr k = Stalled"
    if "read_tcp_message st = (Ready (Some m), st')" "wr (2 * n) = Ready ()" "wr (Suc (2 * n)) = Ready ()"
      "connection_loop execute env fe wr peer server st' once' (Suc n) = (out, Stalled)" for m st' once' out
    using "1.IH" [OF that(1) [symmetric] refl refl refl _ _ refl that(2)] that(3,4)
    by (metis Suc_eq_plus1 snd_conv surj_pair)
  from "1.prems" show ?case
    by (subst (asm) connection_loop.simps)
       (auto simp: Let_def split: await.splits option.splits prod.splits dest: IH)
qed

lemma serve_tcp_connection_stalled:
  "snd (serve_tcp_connection execute env fe cl peer once) = Stalled \<Longrightarrow> \<exists>k. tl_write cl k = Stalled"
  by (auto simp: serve_tcp_connection_def dest: connection_loop_stalled split: sum.splits)

lemma length_answer_all: "length (answer_all execute env fe peer server once n ms) = length ms"
  by (induction ms arbitrary: once n) (simp_all split: prod.split)

lemma answer_all_short:
  "list_all (\<lambda>r. length r \<le> MAX_MESSAGE) (answer_all execute env fe peer server once n ms)"
proof (induction ms arbitrary: once n)
  case (Cons m ms)
  then show ?case
    using respond_length [of execute "fst (env n)" "snd (env n)" once fe m peer Tcp server]
    by (auto split: prod.split)
qed simp

text \<open>A front-end that denies everything to everybody but user 28, a relay.\<close>

definition dns_deny_all :: "unit dns_frontend" where
  "dns_deny_all =
     \<lparr>dn_listen = \<lparr>sa_ip = V4 0x7F000001, sa_port = 53\<rparr>,
      dn_upstream = \<lparr>sa_ip = V4 0x7F000035, sa_port = 53\<rparr>, dn_identify_processes = False,
      dn_timeout = 5000, dn_read_timeout = 5000, dn_tcp_slots = 512, dn_udp_slots = 512,
      dn_engine = deny_all, dn_relays = \<lparr>rl_uids = {28}\<rparr>\<rparr>"

definition dead_net :: dns_net where
  "dead_net = \<lparr>net_udp_bind = (\<lambda>_ _. Stalled), net_tcp_connect = (\<lambda>_ _. Stalled)\<rparr>"

definition sender :: socket_addr where
  "sender = \<lparr>sa_ip = V4 0x7F000001, sa_port = 40000\<rparr>"

text \<open>A machine on which one UDP socket fits \<open>sender\<close>, owned by user 28.\<close>

definition one_socket :: procfs where
  "one_socket =
     \<lparr>net_udp = Inr [\<lparr>se_local = sender, se_remote = \<lparr>sa_ip = V4 0, sa_port = 0\<rparr>, se_uid = 28, se_inode = 7\<rparr>],
      net_udp6 = Inl ProcError, net_tcp = Inr [], net_tcp6 = Inr [], proc_myself = Inl ProcError,
      proc_new = (\<lambda>_. Inl ProcError), all_processes = Inl ProcError\<rparr>"

section \<open>Properties\<close>

text \<open>
  (C5) A query for a name that is denied to the caller, under any spelling of the name, is answered
  NXDOMAIN, echoing the query's id and question, and nothing is sent upstream; unless the caller
  is a relay, whose queries another front-end judges.
\<close>

theorem dns_denied:
  assumes "query_parse raw = Inr q"
    and "identify_caller fs once fe peer tr server = (c, once')" "\<not> relays_contains (dn_relays fe) c"
    and "canonical_hostname (query_hostname q) = canonical_hostname nm"
    and "evaluate_for execute (dn_engine fe) nm c = Denied why"
  shows "respond execute net fs once fe raw peer tr server = (([], nxdomain q), once') \<and>
         response_to raw (qn_end (qy_question q)) RCODE_NXDOMAIN [] 0 (nxdomain q)"
proof -
  from dns_front.refused [OF refl assms(3-5)]
    response_is_response_to [OF assms(1), of RCODE_NXDOMAIN "[]" 0]
  show ?thesis using assms(1,2) by (simp add: respond_def dns_realise_def nxdomain_def RCODE_NXDOMAIN_def)
qed

theorem dns_denied_witness:
  "\<exists>q. query_parse query_a = Inr q \<and>
     respond failing_execute dead_net None None dns_deny_all query_a sender Udp (dn_listen dns_deny_all) =
       (([], nxdomain q), None)"
proof -
  have c: "identify_caller None None dns_deny_all sender Udp (dn_listen dns_deny_all) = (caller_unknown, None)"
    by (simp add: identify_caller_def)
  have d: "evaluate_for failing_execute (dn_engine dns_deny_all) ''A.'' caller_unknown =
      Denied (canonical_hostname ''A.'' @ '' denied by default policy'')"
    by (simp add: dns_deny_all_def deny_all_denies)
  have "canonical_hostname ''a'' = canonical_hostname ''A.''" by code_simp
  with dns_denied [OF query_a_parses c _ _ d] query_a_parses show ?thesis
    by (simp add: query_hostname_def)
qed

text \<open>
  A message that cannot be judged is never forwarded: whatever does not parse as a query with
  one question is answered FORMERR, with the id of the message if it has one.
\<close>

theorem dns_unparseable_refused:
  assumes "query_parse raw = Inl e"
  shows "respond execute net fs once fe raw peer tr server = (([], formerr raw), once) \<and>
         length (formerr raw) = 12 \<and> be16 (formerr raw) 2 = Some (FLAG_QR OR RCODE_FORMERR) \<and>
         (if 2 \<le> length raw then take 2 (formerr raw) = take 2 raw else take 2 (formerr raw) = [0, 0])"
proof -
  have "be16 (formerr raw) 2 = Some (FLAG_QR OR RCODE_FORMERR)"
    using be16_field [of "if 2 \<le> length raw then take 2 raw else [0, 0]" 2 "FLAG_QR OR RCODE_FORMERR"]
    by (simp add: formerr_def)
  then show ?thesis using assms by (simp add: respond_def) (simp add: formerr_def)
qed

theorem dns_unparseable_refused_witness:
  "respond failing_execute dead_net None None dns_deny_all [1, 2, 3] sender Udp sender =
     (([], [1, 2, 0x80, 1, 0, 0, 0, 0, 0, 0, 0, 0]), None)"
proof -
  have p: "query_parse [1, 2, 3] = Inl TooShort" by code_simp
  have f: "formerr [1, 2, 3] = [1, 2, 0x80, 1, 0, 0, 0, 0, 0, 0, 0, 0]" by code_simp
  show ?thesis
    using dns_unparseable_refused [OF p, of failing_execute dead_net None None dns_deny_all sender Udp sender]
    by (simp add: f)
qed

text \<open>
  What is sent to the upstream server is the client's message, byte for byte, in one datagram
  over UDP or behind its length over TCP (where a failed write cuts it short), and nothing else.
\<close>

theorem dns_forwards_verbatim:
  "fst (fst (respond execute net fs once fe raw peer tr server)) \<in>
     {[], [UdpSend (dn_upstream fe) raw],
      [TcpWrite (dn_upstream fe) (to_be_bytes 2 (word_of_nat (length raw) :: u16))],
      [TcpWrite (dn_upstream fe) (to_be_bytes 2 (word_of_nat (length raw) :: u16)),
       TcpWrite (dn_upstream fe) raw]}"
proof (cases "query_parse raw")
  case (Inr q)
  have "fst (respond_as execute net fe tr q c) = [] \<or>
      fst (respond_as execute net fe tr q c) = fst (dns_forward net fe q tr)" for c
    by (auto simp: respond_as_def Let_def split: policy_verdict.split)
  moreover obtain c once' where "identify_caller fs once fe peer tr server = (c, once')" by fastforce
  ultimately consider "fst (fst (respond execute net fs once fe raw peer tr server)) = []"
    | "fst (fst (respond execute net fs once fe raw peer tr server)) = fst (dns_forward net fe q tr)"
    using Inr by (fastforce simp: respond_def)
  then show ?thesis
    using dns_forward_sends [of net fe q tr] query_parse_length(1) [OF Inr] by cases simp_all
qed (simp add: respond_def)

text \<open>
  Over UDP every message gets a reply that carries its id: a datagram from the upstream server
  with another id is not relayed, it is skipped until the right one comes, an error occurs or the
  deadline passes.
\<close>

theorem dns_udp_reply_id:
  assumes "2 \<le> length raw"
  shows "take 2 (snd (fst (respond execute net fs once fe raw peer Udp server))) = take 2 raw"
  using assms by (rule respond_udp_id)

theorem dns_udp_reply_id_witness:
  "take 2 (snd (fst (respond failing_execute dead_net None None dns_deny_all [1, 2] sender Udp sender))) = [1, 2]"
  using dns_udp_reply_id [of "[1, 2]" failing_execute dead_net None None dns_deny_all sender sender] by simp

text \<open>
  (C22) Over TCP every complete message of a connection gets one reply, in order, and the bytes the
  client receives are exactly those replies behind their lengths, however many messages there are
  and whatever the upstream server sends; then the connection ends as the client ended it.
\<close>

theorem dns_tcp_connection:
  assumes "list_all (\<lambda>m. length m \<le> MAX_MESSAGE) ms"
    and "read_tcp_message \<lparr>inbuf = rest, at_end = e\<rparr> = (r, st')" "\<nexists>m. r = Ready (Some m)"
    and "tl_incoming cl (dn_read_timeout fe) = \<lparr>inbuf = concat (map tcp_frame ms) @ rest, at_end = e\<rparr>"
    and "tl_local cl = Inr server" "tl_write cl = (\<lambda>_. Ready ())"
  shows "\<exists>replies. length replies = length ms \<and> list_all (\<lambda>x. length x \<le> MAX_MESSAGE) replies \<and>
     replies = answer_all execute env fe peer server once 0 ms \<and>
     client_bytes (fst (serve_tcp_connection execute env fe cl peer once)) = concat (map tcp_frame replies) \<and>
     snd (serve_tcp_connection execute env fe cl peer once) = final_result r"
  using connection_loop_replies [OF assms(1-3), of "\<lambda>_. Ready ()" execute env fe peer server once 0] assms(4-6)
  by (simp add: serve_tcp_connection_def length_answer_all answer_all_short)

theorem dns_tcp_connection_witness:
  "\<exists>replies. length replies = 2 \<and>
     client_bytes (fst (serve_tcp_connection failing_execute (\<lambda>_. (dead_net, None)) dns_deny_all
       \<lparr>tl_local = Inr sender,
        tl_incoming = (\<lambda>_. \<lparr>inbuf = concat (map tcp_frame [query_a, [1, 2, 3]]) @ [0], at_end = Closed\<rparr>),
        tl_write = (\<lambda>_. Ready ())\<rparr> sender None)) = concat (map tcp_frame replies)"
proof -
  have m: "list_all (\<lambda>m. length m \<le> MAX_MESSAGE) [query_a, [1, 2, 3]]"
    by (simp add: query_a_def query_message_def MAX_MESSAGE_def)
  have r: "read_tcp_message \<lparr>inbuf = [0], at_end = Closed\<rparr> = (Ready None, \<lparr>inbuf = [], at_end = Closed\<rparr>)"
    by (simp add: read_tcp_message_def read_exact_def end_await_def)
  let ?cl = "\<lparr>tl_local = Inr sender,
        tl_incoming = (\<lambda>_. \<lparr>inbuf = concat (map tcp_frame [query_a, [1, 2, 3]]) @ [0], at_end = Closed\<rparr>),
        tl_write = (\<lambda>_. Ready ())\<rparr>"
  obtain replies where a: "length replies = length [query_a, [1, 2, 3]]"
    and b: "client_bytes (fst (serve_tcp_connection failing_execute (\<lambda>_. (dead_net, None)) dns_deny_all
       ?cl sender None)) = concat (map tcp_frame replies)"
    using dns_tcp_connection [OF m r, of ?cl dns_deny_all sender failing_execute
        "\<lambda>_. (dead_net, None)" sender None]
    by (auto simp del: answer_all.simps)
  have "length replies = 2" using a by simp
  with b show ?thesis by blast
qed

text \<open>
  Queries of relay users are not judged: their answer is the upstream server's, whatever the
  rules and lists say.
\<close>

theorem dns_relay_unjudged:
  assumes "query_parse raw = Inr q" "identify_caller fs once fe peer tr server = (c, once')"
    and "relays_contains (dn_relays fe) c"
  shows "respond execute net fs once fe raw peer tr server = (dns_forward net fe q tr, once')"
  using assms by (simp add: respond_def respond_as_def)

theorem dns_relay_unjudged_witness:
  "\<exists>q. query_parse query_a = Inr q \<and>
     respond failing_execute dead_net (Some one_socket) None dns_deny_all query_a sender Udp (dn_listen dns_deny_all) =
       (dns_forward dead_net dns_deny_all q Udp, None)"
proof -
  let ?c = "\<lparr>uid = Some 28, gid = None, pid = None\<rparr>"
  have c: "identify_caller (Some one_socket) None dns_deny_all sender Udp (dn_listen dns_deny_all) = (?c, None)"
    by code_simp
  have "relays_contains (dn_relays dns_deny_all) ?c"
    by (simp add: relays_contains_def dns_deny_all_def)
  from dns_relay_unjudged [OF query_a_parses c this] query_a_parses show ?thesis by blast
qed

end
