(* ===== verification/Addr_Text.thy ===== *)
theory Addr_Text
  imports Rust_Str Net
begin

text \<open>
  Socket addresses as text: the parser behind \<open>str::parse::<SocketAddr>()\<close>, which the
  configuration and the sources use, over the unread rest of the string. An address the parser is
  given as \<open>addr_text\<close> writes it is read back. The scope of an IPv6 address is read and, like
  the flow label, has no part in \<open>socket_addr\<close>.
\<close>

section \<open>Numbers in a radix\<close>

definition to_digit :: "nat \<Rightarrow> char \<Rightarrow> nat option" where
  "to_digit radix c =
     (let n = of_char c;
          d = (if 48 \<le> n \<and> n \<le> 57 then n - 48
               else if 97 \<le> n \<and> n \<le> 122 then n - 87
               else if 65 \<le> n \<and> n \<le> 90 then n - 55
               else radix)
      in if d < radix then Some d else None)"

fun span_digits :: "nat \<Rightarrow> string \<Rightarrow> nat list \<times> string" where
  "span_digits radix [] = ([], [])"
| "span_digits radix (c # s) =
     (case to_digit radix c of
        None \<Rightarrow> ([], c # s)
      | Some d \<Rightarrow> (let (ds, rest) = span_digits radix s in (d # ds, rest)))"

definition horner :: "nat \<Rightarrow> nat list \<Rightarrow> nat" where
  "horner radix = foldl (\<lambda>r d. r * radix + d) 0"

lemma horner_simps [simp]:
  "horner radix [] = 0"
  "horner radix (ds @ [d]) = horner radix ds * radix + d"
  by (simp_all add: horner_def)

definition digit_text :: "nat \<Rightarrow> char" where
  "digit_text d = char_of (if d < 10 then 48 + d else 87 + d)"

function number_text :: "nat \<Rightarrow> nat \<Rightarrow> string" where
  "number_text radix n =
     (if radix < 2 \<or> n < radix then [digit_text n]
      else number_text radix (n div radix) @ [digit_text (n mod radix)])"
  by pat_completeness auto

termination
  by (relation "measure snd") auto

declare number_text.simps [simp del]

lemma to_digit_digit_text: "d < radix \<Longrightarrow> radix \<le> 36 \<Longrightarrow> to_digit radix (digit_text d) = Some d"
  by (auto simp: to_digit_def digit_text_def Let_def of_char_of take_bit_eq_mod)

lemma span_digits_stop:
  "s = [] \<or> to_digit radix (hd s) = None \<Longrightarrow> span_digits radix s = ([], s)"
  by (cases s) auto

lemma span_digits_append:
  assumes "list_all (\<lambda>d. d < radix) ds" "radix \<le> 36" "rest = [] \<or> to_digit radix (hd rest) = None"
  shows "span_digits radix (map digit_text ds @ rest) = (ds, rest)"
  using assms(1) by (induction ds) (auto simp: span_digits_stop assms(2,3) to_digit_digit_text)

fun digits_of :: "nat \<Rightarrow> nat \<Rightarrow> nat list" where
  "digits_of radix n = (if radix < 2 \<or> n < radix then [n] else digits_of radix (n div radix) @ [n mod radix])"

declare digits_of.simps [simp del]

lemma number_text_digits: "number_text radix n = map digit_text (digits_of radix n)"
  by (induction radix n rule: digits_of.induct) (subst number_text.simps, subst digits_of.simps, simp)

lemma horner_digits_of: "horner radix (digits_of radix n) = n"
proof (induction radix n rule: digits_of.induct)
  case (1 radix n)
  then show ?case
    by (subst digits_of.simps) (auto simp: horner_def)
qed

lemma digits_of_less: "2 \<le> radix \<Longrightarrow> list_all (\<lambda>d. d < radix) (digits_of radix n)"
proof (induction radix n rule: digits_of.induct)
  case (1 radix n)
  then show ?case by (subst digits_of.simps) auto
qed

lemma digits_of_not_Nil [simp]: "digits_of radix n \<noteq> []"
  by (subst digits_of.simps) simp

lemma length_digits_of: "2 \<le> radix \<Longrightarrow> n < radix ^ Suc k \<Longrightarrow> length (digits_of radix n) \<le> Suc k"
proof (induction radix n arbitrary: k rule: digits_of.induct)
  case (1 radix n)
  show ?case
  proof (cases "n < radix")
    case False
    then obtain j where k: "k = Suc j" using 1(3) by (cases k) auto
    then have "n div radix < radix ^ Suc j" using 1(2,3) by (simp add: less_mult_imp_div_less mult.commute)
    then show ?thesis using 1(1) [of j] False 1(2) by (subst digits_of.simps) (simp add: k)
  qed (subst digits_of.simps, simp)
qed

lemma hd_digits_of: "2 \<le> radix \<Longrightarrow> 0 < n \<Longrightarrow> 0 < hd (digits_of radix n)"
proof (induction radix n rule: digits_of.induct)
  case (1 radix n)
  then show ?case by (subst digits_of.simps) (auto simp: hd_append div_greater_zero_iff)
qed

section \<open>The parser\<close>

type_synonym 'a text_parser = "string \<Rightarrow> ('a \<times> string) option"

definition read_number :: "nat \<Rightarrow> nat option \<Rightarrow> bool \<Rightarrow> nat \<Rightarrow> nat text_parser" where
  "read_number radix max_digits allow_zero_prefix bound s =
     (let (ds, rest) = span_digits radix s; v = horner radix ds
      in if ds = [] \<or> (\<exists>m \<in> set_option max_digits. m < length ds) \<or>
            (\<not> allow_zero_prefix \<and> hd ds = 0 \<and> 1 < length ds) \<or> bound \<le> v
         then None else Some (v, rest))"

definition read_given_char :: "char \<Rightarrow> unit text_parser" where
  "read_given_char c s = (case s of [] \<Rightarrow> None | x # xs \<Rightarrow> if x = c then Some ((), xs) else None)"

definition read_separator :: "char \<Rightarrow> nat \<Rightarrow> 'a text_parser \<Rightarrow> 'a text_parser" where
  "read_separator sep i inner s =
     (if 0 < i then (case read_given_char sep s of None \<Rightarrow> None | Some (_, rest) \<Rightarrow> inner rest)
      else inner s)"

text \<open>\<open>n\<close> octets, the first of them the \<open>i\<close>-th of the address.\<close>

fun read_octets :: "nat \<Rightarrow> nat \<Rightarrow> nat list text_parser" where
  "read_octets 0 i s = Some ([], s)"
| "read_octets (Suc n) i s =
     (case read_separator CHR ''.'' i (read_number 10 (Some 3) False 256) s of
        None \<Rightarrow> None
      | Some (b, rest) \<Rightarrow>
          (case read_octets n (Suc i) rest of None \<Rightarrow> None | Some (bs, r) \<Rightarrow> Some (b # bs, r)))"

definition read_ipv4_addr :: "nat list text_parser" where
  "read_ipv4_addr s = read_octets 4 0 s"

definition group_pairs :: "nat list \<Rightarrow> nat list" where
  "group_pairs bs = [bs ! 0 * 256 + bs ! 1, bs ! 2 * 256 + bs ! 3]"

text \<open>
  Groups of an IPv6 address, at most \<open>n\<close> of them; the flag says that the last two were written as
  an IPv4 address.
\<close>

fun read_groups :: "nat \<Rightarrow> nat \<Rightarrow> string \<Rightarrow> (nat list \<times> bool) \<times> string" where
  "read_groups 0 i s = (([], False), s)"
| "read_groups (Suc n) i s =
     (case (if 0 < n then read_separator CHR '':'' i read_ipv4_addr s else None) of
        Some (bs, rest) \<Rightarrow> ((group_pairs bs, True), rest)
      | None \<Rightarrow>
          (case read_separator CHR '':'' i (read_number 16 (Some 4) True 65536) s of
             None \<Rightarrow> (([], False), s)
           | Some (g, rest) \<Rightarrow>
               (let ((gs, v4), r) = read_groups n (Suc i) rest in ((g # gs, v4), r))))"

definition read_ipv6_addr :: "nat list text_parser" where
  "read_ipv6_addr s =
     (let ((front, front_ipv4), rest) = read_groups 8 0 s
      in if length front = 8 then Some (front, rest)
         else if front_ipv4 then None
         else case read_given_char CHR '':'' rest of
           None \<Rightarrow> None
         | Some (_, rest1) \<Rightarrow>
             (case read_given_char CHR '':'' rest1 of
                None \<Rightarrow> None
              | Some (_, rest2) \<Rightarrow>
                  (let ((rear, _), r) = read_groups (8 - (length front + 1)) 0 rest2
                   in Some (front @ replicate (8 - length front - length rear) 0 @ rear, r))))"

definition read_port :: "u16 text_parser" where
  "read_port s =
     (case read_given_char CHR '':'' s of
        None \<Rightarrow> None
      | Some (_, rest) \<Rightarrow>
          map_option (\<lambda>(n, r). (of_nat n, r)) (read_number 10 None True 65536 rest))"

definition read_scope_id :: "nat text_parser" where
  "read_scope_id s =
     (case read_given_char CHR ''%'' s of
        None \<Rightarrow> None
      | Some (_, rest) \<Rightarrow> read_number 10 None True (2 ^ 32) rest)"

definition read_socket_addr_v4 :: "socket_addr text_parser" where
  "read_socket_addr_v4 s =
     (case read_ipv4_addr s of
        None \<Rightarrow> None
      | Some (bs, rest) \<Rightarrow>
          map_option (\<lambda>(p, r). (\<lparr>sa_ip = V4 (of_nat (horner 256 bs)), sa_port = p\<rparr>, r)) (read_port rest))"

definition read_socket_addr_v6 :: "socket_addr text_parser" where
  "read_socket_addr_v6 s =
     (case read_given_char CHR ''['' s of
        None \<Rightarrow> None
      | Some (_, s1) \<Rightarrow>
          (case read_ipv6_addr s1 of
             None \<Rightarrow> None
           | Some (gs, s2) \<Rightarrow>
               (case read_given_char CHR '']'' (case read_scope_id s2 of Some (_, r) \<Rightarrow> r | None \<Rightarrow> s2) of
                  None \<Rightarrow> None
                | Some (_, s3) \<Rightarrow>
                    map_option (\<lambda>(p, r). (\<lparr>sa_ip = V6 (of_nat (horner 65536 gs)), sa_port = p\<rparr>, r))
                      (read_port s3))))"

text \<open>The whole text has to be an address; IPv4 is tried first.\<close>

definition parse_socket_addr :: "string \<Rightarrow> socket_addr option" where
  "parse_socket_addr s =
     (case (case read_socket_addr_v4 s of Some r \<Rightarrow> Some r | None \<Rightarrow> read_socket_addr_v6 s) of
        Some (a, []) \<Rightarrow> Some a
      | _ \<Rightarrow> None)"

lemma read_octets_numeral:
  "read_octets (numeral k) i s =
     (case read_separator CHR ''.'' i (read_number 10 (Some 3) False 256) s of
        None \<Rightarrow> None
      | Some (b, rest) \<Rightarrow>
          (case read_octets (pred_numeral k) (Suc i) rest of None \<Rightarrow> None | Some (bs, r) \<Rightarrow> Some (b # bs, r)))"
  by (subst numeral_eq_Suc, rule read_octets.simps)

lemma read_groups_numeral:
  "read_groups (numeral k) i s =
     (case (if 0 < pred_numeral k then read_separator CHR '':'' i read_ipv4_addr s else None) of
        Some (bs, rest) \<Rightarrow> ((group_pairs bs, True), rest)
      | None \<Rightarrow>
          (case read_separator CHR '':'' i (read_number 16 (Some 4) True 65536) s of
             None \<Rightarrow> (([], False), s)
           | Some (g, rest) \<Rightarrow>
               (let ((gs, v4), r) = read_groups (pred_numeral k) (Suc i) rest in ((g # gs, v4), r))))"
  by (subst numeral_eq_Suc, rule read_groups.simps)

lemma replicate_numeral: "replicate (numeral k) x = x # replicate (pred_numeral k) x"
  by (subst numeral_eq_Suc) simp

lemmas addr_parse_simps =
  parse_socket_addr_def read_socket_addr_v4_def read_socket_addr_v6_def read_ipv4_addr_def
  read_ipv6_addr_def read_port_def read_scope_id_def read_number_def read_given_char_def
  read_separator_def group_pairs_def to_digit_def horner_def read_octets_numeral read_groups_numeral
  replicate_numeral

section \<open>Printing addresses\<close>

primrec separated :: "char \<Rightarrow> nat \<Rightarrow> string list \<Rightarrow> string" where
  "separated sep i [] = []"
| "separated sep i (x # xs) = (if 0 < i then [sep] else []) @ x @ separated sep (Suc i) xs"

primrec radix_digits :: "nat \<Rightarrow> nat \<Rightarrow> nat \<Rightarrow> nat list" where
  "radix_digits radix 0 v = []"
| "radix_digits radix (Suc n) v = radix_digits radix n (v div radix) @ [v mod radix]"

definition segments :: "128 word \<Rightarrow> nat list" where
  "segments w = radix_digits 65536 8 (unat w)"

text \<open>
  The search for the longest run of zero segments, the first of them among equals: a span is its
  start and its length, and \<open>i\<close> the index of the next segment.
\<close>

fun zero_span :: "nat \<Rightarrow> nat \<times> nat \<Rightarrow> nat \<times> nat \<Rightarrow> nat list \<Rightarrow> nat \<times> nat" where
  "zero_span i current longest [] = longest"
| "zero_span i current longest (g # gs) =
     (if g = 0 then
        (let current' = (if snd current = 0 then i else fst current, snd current + 1)
         in zero_span (Suc i) current' (if snd longest < snd current' then current' else longest) gs)
      else zero_span (Suc i) (0, 0) longest gs)"

definition fmt_subslice :: "nat list \<Rightarrow> string" where
  "fmt_subslice gs = separated CHR '':'' 0 (map (number_text 16) gs)"

definition ipv4_text :: "32 word \<Rightarrow> string" where
  "ipv4_text w = separated CHR ''.'' 0 (map (number_text 10) (radix_digits 256 4 (unat w)))"

definition ipv6_text :: "128 word \<Rightarrow> string" where
  "ipv6_text w =
     (if drop_bit 32 w = 0xFFFF then ''::ffff:'' @ ipv4_text (ucast w)
      else
        (let segs = segments w; (start, len) = zero_span 0 (0, 0) (0, 0) segs
         in if 1 < len then fmt_subslice (take start segs) @ ''::'' @ fmt_subslice (drop (start + len) segs)
            else fmt_subslice segs))"

text \<open>\<open>Display\<close> of an address, and of an address with its port.\<close>

definition ip_text :: "ip_addr \<Rightarrow> string" where
  "ip_text ip = (case ip of V4 w \<Rightarrow> ipv4_text w | V6 w \<Rightarrow> ipv6_text w)"

definition addr_text :: "socket_addr \<Rightarrow> string" where
  "addr_text a =
     (case sa_ip a of V4 w \<Rightarrow> ipv4_text w | V6 w \<Rightarrow> ''['' @ ipv6_text w @ '']'') @
     '':'' @ number_text 10 (unat (sa_port a))"

lemma length_radix_digits [simp]: "length (radix_digits radix n v) = n"
  by (induction n arbitrary: v) auto

lemma radix_digits_less: "0 < radix \<Longrightarrow> list_all (\<lambda>d. d < radix) (radix_digits radix n v)"
  by (induction n arbitrary: v) auto

lemma horner_radix_digits: "v < radix ^ n \<Longrightarrow> horner radix (radix_digits radix n v) = v"
  by (induction n arbitrary: v) (auto simp: less_mult_imp_div_less mult.commute)

lemma read_number_text:
  assumes "n < bound" "2 \<le> radix" "radix \<le> 36" "rest = [] \<or> to_digit radix (hd rest) = None"
    "case max_digits of None \<Rightarrow> True | Some m \<Rightarrow> 0 < m \<and> n < radix ^ m"
  shows "read_number radix max_digits allow bound (number_text radix n @ rest) = Some (n, rest)"
proof -
  have span: "span_digits radix (number_text radix n @ rest) = (digits_of radix n, rest)"
    unfolding number_text_digits by (rule span_digits_append) (use assms digits_of_less in auto)
  have "hd (digits_of radix n) = 0 \<Longrightarrow> length (digits_of radix n) = 1"
    using hd_digits_of [of radix n] assms(2) by (cases "n = 0") (auto simp: digits_of.simps [of radix 0])
  moreover have "length (digits_of radix n) \<le> m" if "max_digits = Some m" for m
    using assms(2,5) that length_digits_of [of radix n "m - 1"] by simp
  ultimately show ?thesis
    using assms(1) by (auto simp: read_number_def span horner_digits_of leD split: option.split)
qed

lemma read_given_char_Cons [simp]:
  "read_given_char c (x # xs) = (if x = c then Some ((), xs) else None)"
  by (simp add: read_given_char_def)

lemma separator_not_digit [simp]:
  "to_digit 10 CHR ''.'' = None" "to_digit 10 CHR '':'' = None" "to_digit 16 CHR '':'' = None"
  "to_digit 16 CHR '']'' = None"
  by (simp_all add: to_digit_def)

lemma separated_start:
  "0 < i \<Longrightarrow> to_digit radix sep = None \<Longrightarrow> rest = [] \<or> to_digit radix (hd rest) = None \<Longrightarrow>
     separated sep i xs @ rest = [] \<or> to_digit radix (hd (separated sep i xs @ rest)) = None"
  by (cases xs) auto

lemma read_octets_text:
  assumes "list_all (\<lambda>b. b < 256) bs" "rest = [] \<or> to_digit 10 (hd rest) = None"
  shows "read_octets (length bs) i (separated CHR ''.'' i (map (number_text 10) bs) @ rest) = Some (bs, rest)"
  using assms(1)
proof (induction bs arbitrary: i)
  case (Cons b bs)
  let ?tail = "separated CHR ''.'' (Suc i) (map (number_text 10) bs) @ rest"
  have "?tail = [] \<or> to_digit 10 (hd ?tail) = None"
    by (rule separated_start) (use assms(2) in auto)
  then have "read_number 10 (Some 3) False 256 (number_text 10 b @ ?tail) = Some (b, ?tail)"
    using Cons.prems by (intro read_number_text) auto
  then show ?case using Cons by (auto simp: read_separator_def)
qed simp

lemma set_span_digits: "set (snd (span_digits radix s)) \<subseteq> set s"
  by (induction s) (auto split: option.split prod.split)

lemma read_number_rest: "read_number radix m allow bound s = Some (v, rest) \<Longrightarrow> set rest \<subseteq> set s"
  using set_span_digits [of radix s] by (auto simp: read_number_def Let_def split: prod.splits if_splits)

lemma no_dot_no_ipv4: "CHR ''.'' \<notin> set s \<Longrightarrow> read_ipv4_addr s = None"
proof -
  assume no_dot: "CHR ''.'' \<notin> set s"
  have "read_separator CHR ''.'' (Suc 0) p rest = None"
    if "read_number 10 (Some 3) False 256 s = Some (b, rest)" for b rest and p :: "nat text_parser"
    using read_number_rest [OF that] no_dot
    by (cases rest) (auto simp: read_separator_def read_given_char_def)
  then show ?thesis
    by (simp add: read_ipv4_addr_def read_octets_numeral read_separator_def [of _ 0] split: option.split)
qed

lemma number_text_no_dot: "2 \<le> radix \<Longrightarrow> radix \<le> 16 \<Longrightarrow> CHR ''.'' \<notin> set (number_text radix n)"
proof -
  assume r: "2 \<le> radix" "radix \<le> 16"
  have "digit_text d \<noteq> CHR ''.''" if "d < radix" for d
    using to_digit_digit_text [OF that] r that by (auto simp: to_digit_def)
  then show ?thesis
    using digits_of_less [OF r(1), of n] by (fastforce simp: number_text_digits list_all_iff)
qed

lemma separated_no_dot:
  "(\<And>x. x \<in> set xs \<Longrightarrow> CHR ''.'' \<notin> set x) \<Longrightarrow> CHR ''.'' \<notin> set (separated CHR '':'' i xs)"
  by (induction xs arbitrary: i) auto

text \<open>Where the groups of an address end.\<close>

definition ends_groups :: "string \<Rightarrow> bool" where
  "ends_groups s \<longleftrightarrow> s = [] \<or> hd s = CHR '']'' \<or> take 2 s = ''::''"

lemma read_groups_end: "ends_groups s \<Longrightarrow> read_groups n i s = (([], False), s)"
proof (cases n)
  case (Suc m)
  have nil: "read_ipv4_addr [] = None" "read_number 16 (Some 4) True 65536 [] = None"
    by (simp_all add: read_ipv4_addr_def read_octets_numeral read_separator_def read_number_def)
  have none: "read_ipv4_addr (c # t) = None" "read_number 16 (Some 4) True 65536 (c # t) = None"
    if "c = CHR '']'' \<or> c = CHR '':''" for c t
    using that by (auto simp: read_ipv4_addr_def read_octets_numeral read_separator_def read_number_def to_digit_def)
  assume "ends_groups s"
  then consider "s = []" | t where "s = CHR '']'' # t" | t where "s = CHR '':'' # CHR '':'' # t"
    by (cases s; cases "tl s") (auto simp: ends_groups_def)
  then show ?thesis by cases (simp_all add: Suc nil none read_separator_def read_given_char_def)
qed simp

lemma ends_groups_start: "ends_groups s \<Longrightarrow> s = [] \<or> to_digit 16 (hd s) = None"
  by (cases s; cases "tl s") (auto simp: ends_groups_def)

lemma read_groups_text:
  assumes "list_all (\<lambda>g. g < 65536) gs" "ends_groups rest" "CHR ''.'' \<notin> set rest" "length gs \<le> n"
  shows "read_groups n i (separated CHR '':'' i (map (number_text 16) gs) @ rest) = ((gs, False), rest)"
  using assms(1,4)
proof (induction gs arbitrary: n i)
  case Nil
  then show ?case by (simp add: read_groups_end assms(2))
next
  case (Cons g gs)
  then obtain m where n: "n = Suc m" "length gs \<le> m" by (cases n) auto
  let ?tail = "separated CHR '':'' (Suc i) (map (number_text 16) gs) @ rest"
  have "?tail = [] \<or> to_digit 16 (hd ?tail) = None"
    by (rule separated_start) (use ends_groups_start [OF assms(2)] in auto)
  then have num: "read_number 16 (Some 4) True 65536 (number_text 16 g @ ?tail) = Some (g, ?tail)"
    using Cons.prems by (intro read_number_text) auto
  have "CHR ''.'' \<notin> set (number_text 16 g @ ?tail)"
    using assms(3) number_text_no_dot [of 16] separated_no_dot [of "map (number_text 16) gs" "Suc i"] by auto
  then have "read_ipv4_addr (number_text 16 g @ ?tail) = None" by (rule no_dot_no_ipv4)
  then show ?case using Cons n num by (auto simp: read_separator_def)
qed

lemma fmt_subslice_groups:
  "list_all (\<lambda>g. g < 65536) gs \<Longrightarrow> ends_groups rest \<Longrightarrow> CHR ''.'' \<notin> set rest \<Longrightarrow> length gs \<le> n \<Longrightarrow>
     read_groups n 0 (fmt_subslice gs @ rest) = ((gs, False), rest)"
  unfolding fmt_subslice_def by (rule read_groups_text)

lemma fmt_subslice_no_dot: "CHR ''.'' \<notin> set (fmt_subslice gs)"
  unfolding fmt_subslice_def using number_text_no_dot [of 16] by (intro separated_no_dot) auto

text \<open>The span found is one of zeros.\<close>

definition zeros_at :: "nat list \<Rightarrow> nat \<times> nat \<Rightarrow> bool" where
  "zeros_at gs sp \<longleftrightarrow> fst sp + snd sp \<le> length gs \<and> (\<forall>k < snd sp. gs ! (fst sp + k) = 0)"

lemma zeros_at_append: "zeros_at gs sp \<Longrightarrow> zeros_at (gs @ hs) sp"
  by (auto simp: zeros_at_def nth_append)

lemma zeros_at_extend: "zeros_at gs sp \<Longrightarrow> fst sp + snd sp = length gs \<Longrightarrow> zeros_at (gs @ [0]) (fst sp, snd sp + 1)"
  by (auto simp: zeros_at_def nth_append less_Suc_eq)

lemma zeros_at_new: "zeros_at (gs @ [0]) (length gs, 1)"
  by (simp add: zeros_at_def nth_append)

lemma zero_span_zeros:
  assumes "zeros_at pre current" "zeros_at pre longest" "snd current \<noteq> 0 \<longrightarrow> fst current + snd current = length pre"
  shows "zeros_at (pre @ gs) (zero_span (length pre) current longest gs)"
  using assms
proof (induction gs arbitrary: pre current longest)
  case (Cons g gs)
  let ?current = "(if snd current = 0 then length pre else fst current, snd current + 1)"
  show ?case
  proof (cases "g = 0")
    case True
    have cur: "zeros_at (pre @ [0]) ?current"
      using zeros_at_extend [OF Cons.prems(1)] Cons.prems(3) zeros_at_new [of pre] by auto
    have "zeros_at ((pre @ [0]) @ gs) (zero_span (length (pre @ [0])) ?current
        (if snd longest < snd ?current then ?current else longest) gs)"
    proof (rule Cons.IH)
      show "zeros_at (pre @ [0]) (if snd longest < snd ?current then ?current else longest)"
        using cur zeros_at_append [OF Cons.prems(2)] by simp
    qed (use cur Cons.prems(3) in auto)
    then show ?thesis
      by (cases "snd current = 0"; cases "snd longest < Suc (snd current)") (simp_all add: True Let_def)
  next
    case False
    have "zeros_at ((pre @ [g]) @ gs) (zero_span (length (pre @ [g])) (0, 0) longest gs)"
      by (rule Cons.IH [OF _ zeros_at_append [OF Cons.prems(2)]]) (simp_all add: zeros_at_def)
    with False show ?thesis by simp
  qed
qed simp

lemma zeros_at_split:
  "zeros_at gs (start, len) \<Longrightarrow> take start gs @ replicate len 0 @ drop (start + len) gs = gs"
  by (rule nth_equalityI) (auto simp: zeros_at_def nth_append min_def)

section \<open>Addresses read back\<close>

lemma horner_segments: "horner 65536 (segments w) = unat w"
  using unsigned_less [of w, where ?'a = nat] unfolding segments_def by (intro horner_radix_digits) simp

lemma segments_less: "list_all (\<lambda>g. g < 65536) (segments w)"
  by (simp add: segments_def radix_digits_less)

lemma read_ipv4_text:
  "rest = [] \<or> to_digit 10 (hd rest) = None \<Longrightarrow>
     read_ipv4_addr (ipv4_text w @ rest) = Some (radix_digits 256 4 (unat w), rest)"
  using read_octets_text [of "radix_digits 256 4 (unat w)" rest 0]
  by (simp add: read_ipv4_addr_def ipv4_text_def radix_digits_less)

lemma horner_octets: "horner 256 (radix_digits 256 4 (unat (w :: 32 word))) = unat w"
  using unsigned_less [of w, where ?'a = nat] by (intro horner_radix_digits) simp

lemma read_ipv6_plain:
  assumes "drop_bit 32 w \<noteq> 0xFFFF" "rest = [] \<or> hd rest = CHR '']''" "CHR ''.'' \<notin> set rest"
  shows "read_ipv6_addr (ipv6_text w @ rest) = Some (segments w, rest)"
proof -
  obtain start len where span: "zero_span 0 (0, 0) (0, 0) (segments w) = (start, len)" by fastforce
  have zeros: "zeros_at (segments w) (start, len)"
    using zero_span_zeros [of "[]" "(0, 0)" "(0, 0)" "segments w"] span by (simp add: zeros_at_def)
  have seg: "length (segments w) = 8" by (simp add: segments_def)
  have rest: "ends_groups rest" using assms(2) by (auto simp: ends_groups_def)
  show ?thesis
  proof (cases "1 < len")
    case True
    let ?front = "take start (segments w)" and ?rear = "drop (start + len) (segments w)"
    have less: "list_all (\<lambda>g. g < 65536) ?front" "list_all (\<lambda>g. g < 65536) ?rear"
      using segments_less [of w] by (auto simp: list_all_iff dest: in_set_takeD in_set_dropD)
    have bound: "start + len \<le> 8" using zeros by (simp add: zeros_at_def seg)
    have "read_groups 8 0 (fmt_subslice ?front @ ''::'' @ fmt_subslice ?rear @ rest) =
        ((?front, False), ''::'' @ fmt_subslice ?rear @ rest)"
      by (rule fmt_subslice_groups) (use less assms(3) fmt_subslice_no_dot seg in \<open>auto simp: ends_groups_def\<close>)
    moreover have "read_groups (8 - (start + 1)) 0 (fmt_subslice ?rear @ rest) = ((?rear, False), rest)"
      by (rule fmt_subslice_groups) (use less rest assms(3) True bound seg in auto)
    moreover have "ipv6_text w @ rest = fmt_subslice ?front @ ''::'' @ fmt_subslice ?rear @ rest"
      using assms(1) span True by (simp add: ipv6_text_def Let_def)
    ultimately show ?thesis
      using True bound seg zeros_at_split [OF zeros] by (simp add: read_ipv6_addr_def Let_def min_def)
  next
    case False
    have "read_groups 8 0 (fmt_subslice (segments w) @ rest) = ((segments w, False), rest)"
      by (rule fmt_subslice_groups) (use rest assms(3) segments_less seg in auto)
    with assms(1) span False seg show ?thesis by (simp add: ipv6_text_def read_ipv6_addr_def Let_def)
  qed
qed

lemma list_of_four: "length xs = 4 \<Longrightarrow> \<exists>a b c d. xs = [a, b, c, d]"
  by (auto simp: numeral_eq_Suc length_Suc_conv)

lemma mapped_groups:
  assumes "drop_bit 32 (w :: 128 word) = 0xFFFF"
  shows "horner 65536 ([0, 0, 0, 0, 0, 65535] @ group_pairs (radix_digits 256 4 (unat (ucast w :: 32 word)))) = unat w"
proof -
  let ?v = "unat (ucast w :: 32 word)"
  have v: "?v = unat w mod 2 ^ 32" by (simp add: unsigned_ucast_eq take_bit_eq_mod)
  have "unat w div 2 ^ 32 = 65535"
    using arg_cong [OF assms, of unat] by (simp only: unat_drop_bit_eq) (simp add: drop_bit_eq_div)
  then have w: "unat w = 65535 * 2 ^ 32 + ?v" using v mult_div_mod_eq [of "2 ^ 32" "unat w"] by simp
  obtain a b c d where bs: "radix_digits 256 4 ?v = [a, b, c, d]"
    using list_of_four [OF length_radix_digits] by blast
  have "horner 256 [a, b, c, d] = ?v" using horner_octets [of "ucast w"] by (simp only: bs)
  then show ?thesis unfolding w bs by (simp add: group_pairs_def horner_def)
qed

lemma read_ipv6_mapped:
  assumes "drop_bit 32 w = 0xFFFF" "rest = [] \<or> hd rest = CHR '']''"
  shows "read_ipv6_addr (ipv6_text w @ rest) =
     Some ([0, 0, 0, 0, 0, 65535] @ group_pairs (radix_digits 256 4 (unat (ucast w :: 32 word))), rest)"
proof -
  let ?v4 = "ipv4_text (ucast w)" and ?bs = "radix_digits 256 4 (unat (ucast w :: 32 word))"
  have "rest = [] \<or> to_digit 10 (hd rest) = None" using assms(2) by (auto simp: to_digit_def)
  then have v4: "read_ipv4_addr (?v4 @ rest) = Some (?bs, rest)" by (rule read_ipv4_text)
  have first: "read_ipv4_addr (''ffff:'' @ ?v4 @ rest) = None"
    "read_number 16 (Some 4) True 65536 (''ffff:'' @ ?v4 @ rest) = Some (65535, '':'' @ ?v4 @ rest)"
    by (simp_all add: read_ipv4_addr_def read_octets_numeral read_separator_def read_number_def to_digit_def
          horner_def)
  have "read_groups 7 0 (''ffff:'' @ ?v4 @ rest) = ((65535 # group_pairs ?bs, True), rest)"
    using v4 first by (simp add: read_groups_numeral read_separator_def)
  moreover have "read_groups 8 0 (''::ffff:'' @ ?v4 @ rest) = (([], False), ''::ffff:'' @ ?v4 @ rest)"
    by (rule read_groups_end) (simp add: ends_groups_def)
  ultimately show ?thesis
    using assms(1) by (simp add: ipv6_text_def read_ipv6_addr_def group_pairs_def replicate_numeral)
qed

lemma read_ipv6_text:
  assumes "rest = [] \<or> hd rest = CHR '']''" "CHR ''.'' \<notin> set rest"
  shows "\<exists>gs. read_ipv6_addr (ipv6_text w @ rest) = Some (gs, rest) \<and> horner 65536 gs = unat w"
proof (cases "drop_bit 32 w = 0xFFFF")
  case True
  then show ?thesis using read_ipv6_mapped [OF _ assms(1)] mapped_groups by blast
next
  case False
  then show ?thesis using read_ipv6_plain [OF _ assms] horner_segments by blast
qed

lemma ipv6_text_not_ipv4: "read_ipv4_addr (ipv6_text w) = None"
proof (cases "drop_bit 32 w = 0xFFFF")
  case True
  then show ?thesis
    by (simp add: ipv6_text_def read_ipv4_addr_def read_octets_numeral read_separator_def read_number_def to_digit_def)
next
  case False
  have "CHR ''.'' \<notin> set (ipv6_text w)"
    using False fmt_subslice_no_dot by (auto simp: ipv6_text_def Let_def split: prod.split if_splits)
  then show ?thesis by (rule no_dot_no_ipv4)
qed

lemma read_port_text: "read_port ('':'' @ number_text 10 (unat p)) = Some (p, [])"
proof -
  have "unat p < 65536" using unsigned_less [of p, where ?'a = nat] by simp
  then have "read_number 10 None True 65536 (number_text 10 (unat p) @ []) = Some (unat p, [])"
    by (intro read_number_text) auto
  then show ?thesis by (simp add: read_port_def)
qed

lemma parse_addr_text [simp]: "parse_socket_addr (addr_text a) = Some a"
proof (cases "sa_ip a")
  let ?port = "'':'' @ number_text 10 (unat (sa_port a))"
  case (V4 w)
  have "read_ipv4_addr (ipv4_text w @ ?port) = Some (radix_digits 256 4 (unat w), ?port)"
    by (rule read_ipv4_text) simp
  then have "read_socket_addr_v4 (addr_text a) = Some (a, [])"
    using V4 read_port_text [of "sa_port a"]
    by (cases a) (simp add: read_socket_addr_v4_def addr_text_def horner_octets)
  then show ?thesis by (simp add: parse_socket_addr_def)
next
  let ?port = "'':'' @ number_text 10 (unat (sa_port a))"
  case (V6 w)
  have "CHR ''.'' \<notin> set ('']'' @ ?port)" using number_text_no_dot [of 10] by simp
  then obtain gs where "read_ipv6_addr (ipv6_text w @ '']'' @ ?port) = Some (gs, '']'' @ ?port)"
    "horner 65536 gs = unat w"
    using read_ipv6_text [of "'']'' @ ?port" w] by auto
  then have "read_socket_addr_v6 (addr_text a) = Some (a, [])"
    using V6 read_port_text [of "sa_port a"]
    by (cases a) (simp add: read_socket_addr_v6_def read_scope_id_def addr_text_def)
  moreover have "read_socket_addr_v4 (addr_text a) = None"
    by (simp add: V6 addr_text_def read_socket_addr_v4_def read_ipv4_addr_def read_octets_numeral
          read_separator_def read_number_def to_digit_def)
  ultimately show ?thesis by (simp add: parse_socket_addr_def)
qed

text \<open>\<open>str::parse::<IpAddr>()\<close>, as \<open>serde\<close> reads an address.\<close>

definition parse_ip_addr :: "string \<Rightarrow> ip_addr option" where
  "parse_ip_addr s =
     (case (case read_ipv4_addr s of
              Some (bs, r) \<Rightarrow> Some (V4 (of_nat (horner 256 bs)), r)
            | None \<Rightarrow> map_option (\<lambda>(gs, r). (V6 (of_nat (horner 65536 gs)), r)) (read_ipv6_addr s)) of
        Some (a, []) \<Rightarrow> Some a
      | _ \<Rightarrow> None)"

lemma parse_ip_text [simp]: "parse_ip_addr (ip_text ip) = Some ip"
proof (cases ip)
  case (V4 w)
  then show ?thesis using read_ipv4_text [of "[]" w] by (simp add: parse_ip_addr_def ip_text_def horner_octets)
next
  case (V6 w)
  then show ?thesis
    using read_ipv6_text [of "[]" w] by (auto simp: parse_ip_addr_def ip_text_def ipv6_text_not_ipv4)
qed

text \<open>The literals of the sources.\<close>

lemma parse_literals:
  "parse_socket_addr ''[::]:0'' = Some \<lparr>sa_ip = V6 0, sa_port = 0\<rparr>"
  "parse_socket_addr ''0.0.0.0:0'' = Some \<lparr>sa_ip = V4 0, sa_port = 0\<rparr>"
  "parse_socket_addr ''127.0.0.1:53'' = Some \<lparr>sa_ip = V4 (ipv4_new 127 0 0 1), sa_port = 53\<rparr>"
  "parse_socket_addr ''192.0.2.53:53'' = Some \<lparr>sa_ip = V4 (ipv4_new 192 0 2 53), sa_port = 53\<rparr>"
  by (simp_all add: addr_parse_simps ipv4_new_def from_be_bytes_def)

text \<open>What is refused: a leading zero, a port out of range, no port, text after the address.\<close>

lemma parse_refusals:
  "parse_socket_addr ''127.0.01.1:53'' = None"
  "parse_socket_addr ''127.0.0.1:65536'' = None"
  "parse_socket_addr ''127.0.0.1'' = None"
  "parse_socket_addr ''127.0.0.1:53 '' = None"
  by (simp_all add: addr_parse_simps)

end
