(* ===== verification/Serde.thy ===== *)
theory Serde
  imports Rust_Str Addr_Text
begin

text \<open>
  What the derived \<open>serde\<close> readers of the sources have in common, whatever the data format: a
  structure is read from a table of named values, field by field, and a field is required, has a
  default, or is optional. Keys that name no field are ignored. A reading that fails gives a reason;
  when there are several, it is one of them. \<open>OtherForm\<close> marks the shapes \<open>serde\<close> can also take
  (a structure as a list, a variant as a table), on which the reading says nothing.
\<close>

section \<open>Fallible readings\<close>

datatype refusal = MissingField string | DuplicateField string | InvalidType | InvalidValue | UnknownVariant string | OtherForm

fun and_then :: "'e + 'a \<Rightarrow> ('a \<Rightarrow> 'e + 'b) \<Rightarrow> 'e + 'b" where
  "and_then (Inl e) f = Inl e"
| "and_then (Inr x) f = f x"

lemma and_then_Inr_iff: "and_then r f = Inr y \<longleftrightarrow> (\<exists>x. r = Inr x \<and> f x = Inr y)"
  by (cases r) auto

primrec read_all :: "('v \<Rightarrow> refusal + 'a) \<Rightarrow> 'v list \<Rightarrow> refusal + 'a list" where
  "read_all rd [] = Inr []"
| "read_all rd (v # vs) = and_then (rd v) (\<lambda>x. and_then (read_all rd vs) (\<lambda>xs. Inr (x # xs)))"

lemma read_all_Inr: "read_all rd vs = Inr xs \<Longrightarrow> v \<in> set vs \<Longrightarrow> \<exists>x. rd v = Inr x"
  by (induction vs arbitrary: xs) (auto simp: and_then_Inr_iff)

section \<open>Fields\<close>

type_synonym 'v table = "(string \<times> 'v) list"

definition required :: "string \<Rightarrow> ('v \<Rightarrow> refusal + 'a) \<Rightarrow> 'v table \<Rightarrow> refusal + 'a" where
  "required k rd t = (case map_of t k of None \<Rightarrow> Inl (MissingField k) | Some v \<Rightarrow> rd v)"

definition defaulted :: "string \<Rightarrow> 'a \<Rightarrow> ('v \<Rightarrow> refusal + 'a) \<Rightarrow> 'v table \<Rightarrow> refusal + 'a" where
  "defaulted k d rd t = (case map_of t k of None \<Rightarrow> Inr d | Some v \<Rightarrow> rd v)"

definition read_some :: "('v \<Rightarrow> refusal + 'a) \<Rightarrow> 'v \<Rightarrow> refusal + 'a option" where
  "read_some rd v = and_then (rd v) (\<lambda>x. Inr (Some x))"

text \<open>
  The interface of a type that can be written and read: what is written is read back. Then so are
  the fields and the lists of that type.
\<close>

locale reads_back =
  fixes wr :: "'a \<Rightarrow> 'v" and rd :: "'v \<Rightarrow> refusal + 'a"
  assumes read_back: "rd (wr x) = Inr x"
begin

lemma all_back: "read_all rd (map wr xs) = Inr xs"
  by (induction xs) (simp_all add: read_back)

lemma required_back: "map_of t k = Some (wr x) \<Longrightarrow> required k rd t = Inr x"
  by (simp add: required_def read_back)

lemma defaulted_back: "map_of t k = (if x = d then None else Some (wr x)) \<Longrightarrow> defaulted k d rd t = Inr x"
  by (simp add: defaulted_def read_back)

lemma optional_back: "map_of t k = map_option wr x \<Longrightarrow> defaulted k None (read_some rd) t = Inr x"
  by (cases x) (simp_all add: defaulted_def read_some_def read_back)

end

section \<open>Writing fields\<close>

text \<open>Fields that hold their default are left out.\<close>

definition field_unless :: "bool \<Rightarrow> string \<Rightarrow> 'v \<Rightarrow> 'v table" where
  "field_unless isdefault k v = (if isdefault then [] else [(k, v)])"

definition field_of_option :: "string \<Rightarrow> ('a \<Rightarrow> 'v) \<Rightarrow> 'a option \<Rightarrow> 'v table" where
  "field_of_option k wr x = (case x of None \<Rightarrow> [] | Some a \<Rightarrow> [(k, wr a)])"

lemma map_of_field_unless:
  "map_of (field_unless isdefault k v @ t) k' =
     (if k' = k \<and> \<not> isdefault then Some v else map_of t k')"
  "map_of (field_unless isdefault k v) k' = (if k' = k \<and> \<not> isdefault then Some v else None)"
  by (auto simp: field_unless_def)

lemma map_of_field_of_option:
  "map_of (field_of_option k wr x @ t) k' =
     (if k' = k then (case x of None \<Rightarrow> map_of t k' | Some a \<Rightarrow> Some (wr a)) else map_of t k')"
  "map_of (field_of_option k wr x) k' = (if k' = k then map_option wr x else None)"
  by (auto simp: field_of_option_def split: option.split)

lemmas map_of_fields = map_of_field_unless map_of_field_of_option

end
