(* ===== verification/Config_Format.thy ===== *)
theory Config_Format
  imports Policy Serde
begin

text \<open>
  The configuration file as data: the values of a TOML document and what the declarations of the
  configuration types (\<open>src/policy.rs\<close>: the structures and enums with their \<open>serde\<close> attributes)
  read from them. Turning text into a document is the \<open>toml\<close> crate's part and stays a parameter. A
  structure is read from a table, an enum from the snake-case name of its variant.
\<close>

section \<open>Documents\<close>

text \<open>Floats and dates, which no field of the configuration takes, are \<open>TOther\<close>.\<close>

datatype toml =
    TString string
  | TInteger int
  | TBoolean bool
  | TOther
  | TArray "toml list"
  | TTable "(string \<times> toml) list"

text \<open>What a parsed document satisfies: integers have 64 bits, and a table has a key once.\<close>

fun toml_document :: "toml \<Rightarrow> bool" where
  "toml_document (TInteger i) \<longleftrightarrow> - (2 ^ 63) \<le> i \<and> i < 2 ^ 63"
| "toml_document (TArray vs) \<longleftrightarrow> list_all toml_document vs"
| "toml_document (TTable t) \<longleftrightarrow> distinct (map fst t) \<and> list_all (\<lambda>(k, v). toml_document v) t"
| "toml_document _ \<longleftrightarrow> True"

type_synonym toml_table = "toml table"

section \<open>Values and fields\<close>

definition string_of_toml :: "toml \<Rightarrow> refusal + string" where
  "string_of_toml v = (case v of TString s \<Rightarrow> Inr s | _ \<Rightarrow> Inl InvalidType)"

definition bool_of_toml :: "toml \<Rightarrow> refusal + bool" where
  "bool_of_toml v = (case v of TBoolean b \<Rightarrow> Inr b | _ \<Rightarrow> Inl InvalidType)"

definition u64_of_toml :: "toml \<Rightarrow> refusal + u64" where
  "u64_of_toml v =
     (case v of TInteger i \<Rightarrow> if i < 0 then Inl InvalidValue else Inr (word_of_int i) | _ \<Rightarrow> Inl InvalidType)"

definition addr_of_toml :: "toml \<Rightarrow> refusal + socket_addr" where
  "addr_of_toml v =
     (case v of
        TString s \<Rightarrow> (case parse_socket_addr s of Some a \<Rightarrow> Inr a | None \<Rightarrow> Inl InvalidValue)
      | _ \<Rightarrow> Inl InvalidType)"

definition list_of_toml :: "(toml \<Rightarrow> refusal + 'a) \<Rightarrow> toml \<Rightarrow> refusal + 'a list" where
  "list_of_toml rd v = (case v of TArray vs \<Rightarrow> read_all rd vs | _ \<Rightarrow> Inl InvalidType)"

definition struct_of_toml :: "(toml_table \<Rightarrow> refusal + 'a) \<Rightarrow> toml \<Rightarrow> refusal + 'a" where
  "struct_of_toml rd v =
     (case v of TTable t \<Rightarrow> rd t | TArray vs \<Rightarrow> Inl OtherForm | _ \<Rightarrow> Inl InvalidType)"

definition enum_of_toml :: "(string \<times> 'a) list \<Rightarrow> toml \<Rightarrow> refusal + 'a" where
  "enum_of_toml variants v =
     (case v of
        TString s \<Rightarrow> (case map_of variants s of Some x \<Rightarrow> Inr x | None \<Rightarrow> Inl (UnknownVariant s))
      | TTable t \<Rightarrow> Inl OtherForm
      | _ \<Rightarrow> Inl InvalidType)"

section \<open>The configuration types\<close>

definition default_verdict_of_toml :: "toml \<Rightarrow> refusal + default_verdict" where
  "default_verdict_of_toml =
     enum_of_toml [(''passthrough'', DefaultPassthrough), (''deny'', DefaultDeny)]"

definition rule_verdict_of_toml :: "toml \<Rightarrow> refusal + rule_verdict" where
  "rule_verdict_of_toml =
     enum_of_toml [(''allow'', RuleAllow), (''deny'', RuleDeny), (''passthrough'', RulePassthrough)]"

definition rule_of_table :: "toml_table \<Rightarrow> refusal + rule_config" where
  "rule_of_table t =
     and_then (defaulted ''note'' [] string_of_toml t) (\<lambda>nt.
     and_then (required ''expr'' string_of_toml t) (\<lambda>expr.
     and_then (required ''verdict'' rule_verdict_of_toml t) (\<lambda>verdict.
       Inr \<lparr>rc_note = nt, rc_expr = expr, rc_verdict = verdict\<rparr>)))"

definition blocklist_of_table :: "toml_table \<Rightarrow> refusal + blocklist_config" where
  "blocklist_of_table t =
     and_then (required ''name'' string_of_toml t) (\<lambda>nm.
     and_then (required ''path'' string_of_toml t) (\<lambda>path.
       Inr \<lparr>bc_name = nm, bc_path = path\<rparr>))"

definition nscd_frontend_of_table :: "toml_table \<Rightarrow> refusal + nscd_frontend_config" where
  "nscd_frontend_of_table t =
     and_then (defaulted ''enable'' enabled bool_of_toml t) (\<lambda>enable.
     and_then (required ''listen'' string_of_toml t) (\<lambda>listen.
     and_then (required ''upstream'' string_of_toml t) (\<lambda>upstream.
       Inr \<lparr>nf_enable = enable, nf_listen = listen, nf_upstream = upstream\<rparr>)))"

definition dns_frontend_of_table :: "toml_table \<Rightarrow> refusal + dns_frontend_config" where
  "dns_frontend_of_table t =
     and_then (defaulted ''enable'' enabled bool_of_toml t) (\<lambda>enable.
     and_then (required ''listen'' addr_of_toml t) (\<lambda>listen.
     and_then (defaulted ''upstream'' None (read_some addr_of_toml) t) (\<lambda>upstream.
     and_then (defaulted ''upstream_timeout_ms'' default_upstream_timeout_ms u64_of_toml t) (\<lambda>ms.
     and_then (defaulted ''identify_processes'' False bool_of_toml t) (\<lambda>processes.
       Inr \<lparr>df_enable = enable, df_listen = listen, df_upstream = upstream,
            df_upstream_timeout_ms = ms, df_identify_processes = processes\<rparr>)))))"

definition nss_frontend_of_table :: "toml_table \<Rightarrow> refusal + nss_frontend_config" where
  "nss_frontend_of_table t =
     and_then (defaulted ''enable'' enabled bool_of_toml t) (\<lambda>enable. Inr \<lparr>ns_enable = enable\<rparr>)"

definition config_of_table :: "toml_table \<Rightarrow> refusal + policy_config" where
  "config_of_table t =
     and_then (defaulted ''default_verdict'' default_passthrough default_verdict_of_toml t) (\<lambda>dv.
     and_then (defaulted ''blocklists'' [] (list_of_toml (struct_of_toml blocklist_of_table)) t) (\<lambda>lists.
     and_then (defaulted ''rules'' [] (list_of_toml (struct_of_toml rule_of_table)) t) (\<lambda>rules.
     and_then (defaulted ''nscd_user'' None (read_some string_of_toml) t) (\<lambda>user.
     and_then (defaulted ''nscd_frontend'' None (read_some (struct_of_toml nscd_frontend_of_table)) t) (\<lambda>nscd.
     and_then (defaulted ''dns_frontend'' None (read_some (struct_of_toml dns_frontend_of_table)) t) (\<lambda>dns.
     and_then (defaulted ''nss_frontend'' None (read_some (struct_of_toml nss_frontend_of_table)) t) (\<lambda>nss.
       Inr \<lparr>pc_default_verdict = dv, pc_blocklists = lists, pc_rules = rules, pc_nscd_user = user,
            pc_nscd_frontend = nscd, pc_dns_frontend = dns, pc_nss_frontend = nss\<rparr>)))))))"

lemmas config_format_simps =
  config_of_table_def nss_frontend_of_table_def dns_frontend_of_table_def nscd_frontend_of_table_def
  blocklist_of_table_def rule_of_table_def rule_verdict_of_toml_def default_verdict_of_toml_def
  read_some_def defaulted_def required_def enum_of_toml_def struct_of_toml_def list_of_toml_def
  addr_of_toml_def u64_of_toml_def bool_of_toml_def string_of_toml_def

section \<open>Writing a configuration\<close>

definition default_verdict_text :: "default_verdict \<Rightarrow> string" where
  "default_verdict_text v = (case v of DefaultPassthrough \<Rightarrow> ''passthrough'' | DefaultDeny \<Rightarrow> ''deny'')"

definition rule_verdict_text :: "rule_verdict \<Rightarrow> string" where
  "rule_verdict_text v =
     (case v of RuleAllow \<Rightarrow> ''allow'' | RuleDeny \<Rightarrow> ''deny'' | RulePassthrough \<Rightarrow> ''passthrough'')"

definition table_of_rule :: "rule_config \<Rightarrow> toml_table" where
  "table_of_rule r =
     field_unless (rc_note r = []) ''note'' (TString (rc_note r)) @
     [(''expr'', TString (rc_expr r)), (''verdict'', TString (rule_verdict_text (rc_verdict r)))]"

definition table_of_blocklist :: "blocklist_config \<Rightarrow> toml_table" where
  "table_of_blocklist b = [(''name'', TString (bc_name b)), (''path'', TString (bc_path b))]"

definition table_of_nscd_frontend :: "nscd_frontend_config \<Rightarrow> toml_table" where
  "table_of_nscd_frontend f =
     field_unless (nf_enable f = enabled) ''enable'' (TBoolean (nf_enable f)) @
     [(''listen'', TString (nf_listen f)), (''upstream'', TString (nf_upstream f))]"

definition table_of_dns_frontend :: "dns_frontend_config \<Rightarrow> toml_table" where
  "table_of_dns_frontend f =
     field_unless (df_enable f = enabled) ''enable'' (TBoolean (df_enable f)) @
     [(''listen'', TString (addr_text (df_listen f)))] @
     field_of_option ''upstream'' (\<lambda>a. TString (addr_text a)) (df_upstream f) @
     field_unless (df_upstream_timeout_ms f = default_upstream_timeout_ms) ''upstream_timeout_ms''
       (TInteger (uint (df_upstream_timeout_ms f))) @
     field_unless (df_identify_processes f = False) ''identify_processes'' (TBoolean (df_identify_processes f))"

definition table_of_nss_frontend :: "nss_frontend_config \<Rightarrow> toml_table" where
  "table_of_nss_frontend f = field_unless (ns_enable f = enabled) ''enable'' (TBoolean (ns_enable f))"

definition table_of_config :: "policy_config \<Rightarrow> toml_table" where
  "table_of_config cfg =
     field_unless (pc_default_verdict cfg = default_passthrough) ''default_verdict''
       (TString (default_verdict_text (pc_default_verdict cfg))) @
     field_unless (pc_blocklists cfg = []) ''blocklists''
       (TArray (map (\<lambda>b. TTable (table_of_blocklist b)) (pc_blocklists cfg))) @
     field_unless (pc_rules cfg = []) ''rules'' (TArray (map (\<lambda>r. TTable (table_of_rule r)) (pc_rules cfg))) @
     field_of_option ''nscd_user'' TString (pc_nscd_user cfg) @
     field_of_option ''nscd_frontend'' (\<lambda>f. TTable (table_of_nscd_frontend f)) (pc_nscd_frontend cfg) @
     field_of_option ''dns_frontend'' (\<lambda>f. TTable (table_of_dns_frontend f)) (pc_dns_frontend cfg) @
     field_of_option ''nss_frontend'' (\<lambda>f. TTable (table_of_nss_frontend f)) (pc_nss_frontend cfg)"

section \<open>Reading back\<close>

text \<open>A list is written as an array of its elements.\<close>

locale toml_item = reads_back wr rd
  for wr :: "'a \<Rightarrow> toml" and rd :: "toml \<Rightarrow> refusal + 'a"

sublocale toml_item \<subseteq> items: reads_back "\<lambda>xs. TArray (map wr xs)" "list_of_toml rd"
  by unfold_locales (simp add: list_of_toml_def all_back)

interpretation toml_string: toml_item TString string_of_toml
  by unfold_locales (simp add: string_of_toml_def)

interpretation toml_bool: toml_item TBoolean bool_of_toml
  by unfold_locales (simp add: bool_of_toml_def)

interpretation toml_u64: toml_item "\<lambda>w. TInteger (uint w)" u64_of_toml
  by unfold_locales (simp add: u64_of_toml_def)

interpretation toml_addr: toml_item "\<lambda>a. TString (addr_text a)" addr_of_toml
  by unfold_locales (simp add: addr_of_toml_def)

interpretation toml_default_verdict: toml_item "\<lambda>v. TString (default_verdict_text v)" default_verdict_of_toml
  by unfold_locales (simp add: default_verdict_of_toml_def enum_of_toml_def default_verdict_text_def
    split: default_verdict.split)

interpretation toml_rule_verdict: toml_item "\<lambda>v. TString (rule_verdict_text v)" rule_verdict_of_toml
  by unfold_locales (simp add: rule_verdict_of_toml_def enum_of_toml_def rule_verdict_text_def
    split: rule_verdict.split)

lemmas value_reads_back [simp] = toml_string.read_back toml_bool.read_back toml_u64.read_back toml_addr.read_back
  toml_default_verdict.read_back toml_rule_verdict.read_back

lemma struct_reads_back: "(\<And>x. rd (wr x) = Inr x) \<Longrightarrow> toml_item (\<lambda>x. TTable (wr x)) (struct_of_toml rd)"
  by unfold_locales (simp add: struct_of_toml_def)

lemma rule_reads_back: "rule_of_table (table_of_rule r) = Inr r"
proof -
  let ?t = "table_of_rule r"
  have "defaulted ''note'' [] string_of_toml ?t = Inr (rc_note r)"
    by (rule toml_string.defaulted_back) (simp add: table_of_rule_def map_of_fields del: map_of_append)
  moreover have "required ''expr'' string_of_toml ?t = Inr (rc_expr r)"
    "required ''verdict'' rule_verdict_of_toml ?t = Inr (rc_verdict r)"
    by (simp_all add: required_def table_of_rule_def map_of_fields del: map_of_append)
  ultimately show ?thesis by (simp add: rule_of_table_def)
qed

interpretation toml_rule: toml_item "\<lambda>r. TTable (table_of_rule r)" "struct_of_toml rule_of_table"
  by (rule struct_reads_back, rule rule_reads_back)

lemma blocklist_reads_back: "blocklist_of_table (table_of_blocklist b) = Inr b"
  by (cases b) (simp add: blocklist_of_table_def required_def table_of_blocklist_def)

interpretation toml_blocklist: toml_item "\<lambda>b. TTable (table_of_blocklist b)" "struct_of_toml blocklist_of_table"
  by (rule struct_reads_back, rule blocklist_reads_back)

lemma nscd_frontend_reads_back: "nscd_frontend_of_table (table_of_nscd_frontend f) = Inr f"
proof -
  let ?t = "table_of_nscd_frontend f"
  have "defaulted ''enable'' enabled bool_of_toml ?t = Inr (nf_enable f)"
    by (rule toml_bool.defaulted_back) (simp add: table_of_nscd_frontend_def map_of_fields del: map_of_append)
  moreover have "required ''listen'' string_of_toml ?t = Inr (nf_listen f)"
    "required ''upstream'' string_of_toml ?t = Inr (nf_upstream f)"
    by (simp_all add: required_def table_of_nscd_frontend_def map_of_fields del: map_of_append)
  ultimately show ?thesis by (simp add: nscd_frontend_of_table_def)
qed

interpretation toml_nscd: toml_item "\<lambda>f. TTable (table_of_nscd_frontend f)" "struct_of_toml nscd_frontend_of_table"
  by (rule struct_reads_back, rule nscd_frontend_reads_back)

lemma map_of_dns_frontend:
  "map_of (table_of_dns_frontend f) ''enable'' =
     (if df_enable f = enabled then None else Some (TBoolean (df_enable f)))"
  "map_of (table_of_dns_frontend f) ''listen'' = Some (TString (addr_text (df_listen f)))"
  "map_of (table_of_dns_frontend f) ''upstream'' = map_option (\<lambda>a. TString (addr_text a)) (df_upstream f)"
  "map_of (table_of_dns_frontend f) ''upstream_timeout_ms'' =
     (if df_upstream_timeout_ms f = default_upstream_timeout_ms then None
      else Some (TInteger (uint (df_upstream_timeout_ms f))))"
  "map_of (table_of_dns_frontend f) ''identify_processes'' =
     (if df_identify_processes f = False then None else Some (TBoolean (df_identify_processes f)))"
  by (simp_all add: table_of_dns_frontend_def map_of_fields option.case_eq_if map_option_case del: map_of_append)

lemma dns_frontend_reads_back: "dns_frontend_of_table (table_of_dns_frontend f) = Inr f"
  by (simp add: dns_frontend_of_table_def toml_bool.defaulted_back [OF map_of_dns_frontend(1)]
        toml_addr.required_back [OF map_of_dns_frontend(2)] toml_addr.optional_back [OF map_of_dns_frontend(3)]
        toml_u64.defaulted_back [OF map_of_dns_frontend(4)] toml_bool.defaulted_back [OF map_of_dns_frontend(5)])

interpretation toml_dns: toml_item "\<lambda>f. TTable (table_of_dns_frontend f)" "struct_of_toml dns_frontend_of_table"
  by (rule struct_reads_back, rule dns_frontend_reads_back)

lemma nss_frontend_reads_back: "nss_frontend_of_table (table_of_nss_frontend f) = Inr f"
proof -
  have "defaulted ''enable'' enabled bool_of_toml (table_of_nss_frontend f) = Inr (ns_enable f)"
    by (rule toml_bool.defaulted_back) (simp add: table_of_nss_frontend_def map_of_fields)
  then show ?thesis by (simp add: nss_frontend_of_table_def)
qed

interpretation toml_nss: toml_item "\<lambda>f. TTable (table_of_nss_frontend f)" "struct_of_toml nss_frontend_of_table"
  by (rule struct_reads_back, rule nss_frontend_reads_back)

lemma map_of_config:
  "map_of (table_of_config cfg) ''default_verdict'' =
     (if pc_default_verdict cfg = default_passthrough then None
      else Some (TString (default_verdict_text (pc_default_verdict cfg))))"
  "map_of (table_of_config cfg) ''blocklists'' =
     (if pc_blocklists cfg = [] then None
      else Some (TArray (map (\<lambda>b. TTable (table_of_blocklist b)) (pc_blocklists cfg))))"
  "map_of (table_of_config cfg) ''rules'' =
     (if pc_rules cfg = [] then None else Some (TArray (map (\<lambda>r. TTable (table_of_rule r)) (pc_rules cfg))))"
  "map_of (table_of_config cfg) ''nscd_user'' = map_option TString (pc_nscd_user cfg)"
  "map_of (table_of_config cfg) ''nscd_frontend'' =
     map_option (\<lambda>f. TTable (table_of_nscd_frontend f)) (pc_nscd_frontend cfg)"
  "map_of (table_of_config cfg) ''dns_frontend'' =
     map_option (\<lambda>f. TTable (table_of_dns_frontend f)) (pc_dns_frontend cfg)"
  "map_of (table_of_config cfg) ''nss_frontend'' =
     map_option (\<lambda>f. TTable (table_of_nss_frontend f)) (pc_nss_frontend cfg)"
  by (simp_all add: table_of_config_def map_of_fields option.case_eq_if map_option_case del: map_of_append)

lemma table_of_config_reads_back: "config_of_table (table_of_config cfg) = Inr cfg"
  by (simp add: config_of_table_def toml_default_verdict.defaulted_back [OF map_of_config(1)]
        toml_blocklist.items.defaulted_back [OF map_of_config(2)] toml_rule.items.defaulted_back [OF map_of_config(3)]
        toml_string.optional_back [OF map_of_config(4)] toml_nscd.optional_back [OF map_of_config(5)]
        toml_dns.optional_back [OF map_of_config(6)] toml_nss.optional_back [OF map_of_config(7)])

lemma document_append:
  "toml_document (TTable (t @ t')) \<longleftrightarrow>
     toml_document (TTable t) \<and> toml_document (TTable t') \<and> set (map fst t) \<inter> set (map fst t') = {}"
  by auto

lemma document_field_unless:
  "toml_document v \<Longrightarrow> toml_document (TTable (field_unless isdefault k v))"
  by (simp add: field_unless_def)

lemma document_field_of_option:
  "(\<And>a. x = Some a \<Longrightarrow> toml_document (wr a)) \<Longrightarrow> toml_document (TTable (field_of_option k wr x))"
  by (simp add: field_of_option_def split: option.split)

lemma keys_of_fields:
  "fst ` set (field_unless isdefault k v) = (if isdefault then {} else {k})"
  "fst ` set (field_of_option k wr x) = (if x = None then {} else {k})"
  by (auto simp: field_unless_def field_of_option_def split: option.split)

lemma rule_document: "toml_document (TTable (table_of_rule r))"
  by (simp add: table_of_rule_def field_unless_def)

lemma blocklist_document: "toml_document (TTable (table_of_blocklist b))"
  by (simp add: table_of_blocklist_def)

lemma nscd_frontend_document: "toml_document (TTable (table_of_nscd_frontend f))"
  by (simp add: table_of_nscd_frontend_def field_unless_def)

lemma nss_frontend_document: "toml_document (TTable (table_of_nss_frontend f))"
  by (simp add: table_of_nss_frontend_def field_unless_def)

lemma dns_frontend_document:
  "uint (df_upstream_timeout_ms f) < 2 ^ 63 \<Longrightarrow> toml_document (TTable (table_of_dns_frontend f))"
  unfolding table_of_dns_frontend_def document_append
  by (intro conjI document_field_unless document_field_of_option)
     (simp_all add: keys_of_fields order_trans [OF _ uint_ge_0])

lemma table_of_config_document:
  assumes "\<And>f. pc_dns_frontend cfg = Some f \<Longrightarrow> uint (df_upstream_timeout_ms f) < 2 ^ 63"
  shows "toml_document (TTable (table_of_config cfg))"
proof -
  have arrays: "toml_document (TArray (map (\<lambda>b. TTable (table_of_blocklist b)) (pc_blocklists cfg)))"
    "toml_document (TArray (map (\<lambda>r. TTable (table_of_rule r)) (pc_rules cfg)))"
    using rule_document blocklist_document by (simp_all add: list_all_iff del: toml_document.simps(3))
  show ?thesis
    unfolding table_of_config_def document_append
    by (intro conjI document_field_unless document_field_of_option arrays nscd_frontend_document
          nss_frontend_document dns_frontend_document assms)
       (simp_all add: keys_of_fields)
qed

text \<open>
  (C26) Every configuration can be written as a document, fields at their default left out, and is
  read back from it as it was, addresses included, provided the timeout of the DNS front-end fits
  the signed 64-bit integers of TOML.
\<close>

theorem config_reads_back_as_written:
  assumes "\<And>f. pc_dns_frontend cfg = Some f \<Longrightarrow> uint (df_upstream_timeout_ms f) < 2 ^ 63"
  shows "toml_document (TTable (table_of_config cfg)) \<and> config_of_table (table_of_config cfg) = Inr cfg"
  using table_of_config_document [of cfg] assms table_of_config_reads_back [of cfg] by blast

definition dns_only_config :: policy_config where
  "dns_only_config = empty_config\<lparr>pc_dns_frontend := Some
     \<lparr>df_enable = True, df_listen = \<lparr>sa_ip = V4 0x7F000001, sa_port = 53\<rparr>, df_upstream = None,
      df_upstream_timeout_ms = 250, df_identify_processes = True\<rparr>\<rparr>"

theorem config_reads_back_as_written_witness:
  "toml_document (TTable (table_of_config dns_only_config)) \<and>
   config_of_table (table_of_config dns_only_config) = Inr dns_only_config"
proof -
  have "uint (df_upstream_timeout_ms f) < 2 ^ 63" if "pc_dns_frontend dns_only_config = Some f" for f
    using that by (auto simp: dns_only_config_def)
  then show ?thesis by (rule config_reads_back_as_written)
qed

section \<open>Incomplete configurations\<close>

definition lacks :: "string list \<Rightarrow> toml \<Rightarrow> bool" where
  "lacks keys v \<longleftrightarrow> (case v of TTable t \<Rightarrow> list_ex (\<lambda>k. map_of t k = None) keys | _ \<Rightarrow> False)"

definition some_lacks :: "string list \<Rightarrow> toml \<Rightarrow> bool" where
  "some_lacks keys v \<longleftrightarrow> (case v of TArray vs \<Rightarrow> list_ex (lacks keys) vs | _ \<Rightarrow> False)"

text \<open>Some section of the document does not say what it has to say.\<close>

definition incomplete :: "toml_table \<Rightarrow> bool" where
  "incomplete t \<longleftrightarrow>
     (\<exists>v \<in> set_option (map_of t ''rules''). some_lacks [''expr'', ''verdict''] v) \<or>
     (\<exists>v \<in> set_option (map_of t ''blocklists''). some_lacks [''name'', ''path''] v) \<or>
     (\<exists>v \<in> set_option (map_of t ''nscd_frontend''). lacks [''listen'', ''upstream''] v) \<or>
     (\<exists>v \<in> set_option (map_of t ''dns_frontend''). lacks [''listen''] v)"

lemma lacking_refused:
  "lacks [''expr'', ''verdict''] v \<Longrightarrow> struct_of_toml rule_of_table v \<noteq> Inr r"
  "lacks [''name'', ''path''] v \<Longrightarrow> struct_of_toml blocklist_of_table v \<noteq> Inr b"
  "lacks [''listen'', ''upstream''] v \<Longrightarrow> struct_of_toml nscd_frontend_of_table v \<noteq> Inr n"
  "lacks [''listen''] v \<Longrightarrow> struct_of_toml dns_frontend_of_table v \<noteq> Inr d"
  by (auto simp: lacks_def struct_of_toml_def rule_of_table_def blocklist_of_table_def
        nscd_frontend_of_table_def dns_frontend_of_table_def and_then_Inr_iff required_def
        split: toml.splits option.splits)

lemma some_lacking_refused:
  "some_lacks keys v \<Longrightarrow> (\<And>w x. lacks keys w \<Longrightarrow> rd w \<noteq> Inr x) \<Longrightarrow> list_of_toml rd v \<noteq> Inr xs"
  by (auto simp: some_lacks_def list_of_toml_def list_ex_iff split: toml.splits dest: read_all_Inr)

lemma config_sections_read:
  assumes "config_of_table t = Inr cfg"
  shows "map_of t ''rules'' = Some v \<Longrightarrow> list_of_toml (struct_of_toml rule_of_table) v = Inr (pc_rules cfg)"
    and "map_of t ''blocklists'' = Some v \<Longrightarrow>
      list_of_toml (struct_of_toml blocklist_of_table) v = Inr (pc_blocklists cfg)"
    and "map_of t ''nscd_frontend'' = Some v \<Longrightarrow> \<exists>f. struct_of_toml nscd_frontend_of_table v = Inr f"
    and "map_of t ''dns_frontend'' = Some v \<Longrightarrow> \<exists>f. struct_of_toml dns_frontend_of_table v = Inr f"
  using assms unfolding config_of_table_def and_then_Inr_iff
  by (clarsimp, simp add: defaulted_def read_some_def and_then_Inr_iff, (blast)?)+

lemma incomplete_refused:
  assumes "incomplete t"
  shows "config_of_table t \<noteq> Inr cfg"
proof
  assume "config_of_table t = Inr cfg"
  note read = config_sections_read [OF this]
  from assms consider
      v where "map_of t ''rules'' = Some v" "some_lacks [''expr'', ''verdict''] v"
    | v where "map_of t ''blocklists'' = Some v" "some_lacks [''name'', ''path''] v"
    | v where "map_of t ''nscd_frontend'' = Some v" "lacks [''listen'', ''upstream''] v"
    | v where "map_of t ''dns_frontend'' = Some v" "lacks [''listen''] v"
    by (auto simp: incomplete_def)
  then show False
  proof cases
    case 1
    then have "list_of_toml (struct_of_toml rule_of_table) v \<noteq> Inr xs" for xs
      by (intro some_lacking_refused lacking_refused)
    then show False using read(1) [OF 1(1)] by blast
  next
    case 2
    then have "list_of_toml (struct_of_toml blocklist_of_table) v \<noteq> Inr xs" for xs
      by (intro some_lacking_refused lacking_refused)
    then show False using read(2) [OF 2(1)] by blast
  next
    case 3
    then show False using lacking_refused(3) [OF 3(2)] read(3) [OF 3(1)] by blast
  next
    case 4
    then show False using lacking_refused(4) [OF 4(2)] read(4) [OF 4(1)] by blast
  qed
qed

text \<open>
  \<open>toml::from_str\<close>: the text is parsed to a document, which the declarations read.
\<close>

definition toml_from_str :: "(string \<Rightarrow> 'd + toml_table) \<Rightarrow> string \<Rightarrow> ('d + refusal) + policy_config" where
  "toml_from_str document txt =
     (case document txt of
        Inl e \<Rightarrow> Inl (Inl e)
      | Inr t \<Rightarrow> (case config_of_table t of Inl r \<Rightarrow> Inl (Inr r) | Inr cfg \<Rightarrow> Inr cfg))"

end
