(* ===== verification/Daemon.thy ===== *)
theory Daemon
  imports Policy_Socket Nscd_Frontend Dns_Frontend Config_Format
begin

text \<open>
  Startup of the daemon (\<open>main\<close> of \<open>src/daemon.rs\<close>, with the \<open>bind\<close> operations of the
  front-ends): load the configuration and the engine, resolve the relays, bind every socket, then
  serve. The system is a parameter: the files, the password database and the socket operations.
  Startup does not return (\<open>None\<close>) when loading a list or looking a user up does not.
\<close>

section \<open>Sockets\<close>

text \<open>
  The answers of the system. Those on files are as at the start of the daemon: they do not see its
  own operations, which matters only if two of its sockets share a path.
\<close>

record system =
  sy_config_env :: "string option"
  sy_read_to_string :: "string \<Rightarrow> string io_result"
  sy_getpwnam_r :: "string \<Rightarrow> usize \<Rightarrow> pw_result"
  sy_exists :: "string \<Rightarrow> bool"
  sy_remove_file :: "string \<Rightarrow> unit io_result"
  sy_create_dir_all :: "string \<Rightarrow> unit io_result"
  sy_bind_unix :: "string \<Rightarrow> unit io_result"
  sy_set_permissions :: "string \<Rightarrow> nat \<Rightarrow> unit io_result"
  sy_bind_udp :: "socket_addr \<Rightarrow> unit io_result"
  sy_bind_tcp :: "socket_addr \<Rightarrow> unit io_result"

datatype listener = PolicyListener | NscdListener | DnsListener

datatype startup_event =
    RemoveFile string
  | CreateDirAll string
  | BindUnix string
  | SetPermissions string nat
  | BindUdp socket_addr
  | BindTcp socket_addr
  | Serve listener

text \<open>
  A sequence of fallible operations stops at the first one that fails; the operations attempted
  are recorded.
\<close>

fun run_steps :: "(startup_event \<times> unit io_result) list \<Rightarrow> startup_event list \<times> unit io_result" where
  "run_steps [] = ([], Inr ())"
| "run_steps ((ev, r) # steps) =
     (case r of
        Inl e \<Rightarrow> ([ev], Inl e)
      | Inr _ \<Rightarrow> (let (evs, res) = run_steps steps in (ev # evs, res)))"

text \<open>
  \<open>Path::parent\<close> on a Unix path, for paths without a final \<open>.\<close> component: \<open>None\<close> for the root and
  the empty path.
\<close>

definition path_parent :: "string \<Rightarrow> string option" where
  "path_parent p =
     (let slash = (\<lambda>c. c = CHR ''/''); q = trim_end_matches slash p in
      if q = [] then None
      else
        let dir = trim_end_matches (\<lambda>c. \<not> slash c) q; top = trim_end_matches slash dir
        in Some (if dir \<noteq> [] \<and> top = [] then ''/'' else top))"

definition bind_unix_steps :: "system \<Rightarrow> string \<Rightarrow> nat \<Rightarrow> (startup_event \<times> unit io_result) list" where
  "bind_unix_steps sys path mode =
     (if sy_exists sys path then [(RemoveFile path, sy_remove_file sys path)] else []) @
     (case path_parent path of
        Some parent \<Rightarrow> [(CreateDirAll parent, sy_create_dir_all sys parent)]
      | None \<Rightarrow> []) @
     [(BindUnix path, sy_bind_unix sys path), (SetPermissions path mode, sy_set_permissions sys path mode)]"

text \<open>Modes \<open>0o660\<close> and \<open>0o666\<close>.\<close>

definition bind_policy_socket :: "system \<Rightarrow> string \<Rightarrow> startup_event list \<times> unit io_result" where
  "bind_policy_socket sys socket_path = run_steps (bind_unix_steps sys socket_path 432)"

definition nscd_bind :: "system \<Rightarrow> 'p nscd_frontend \<Rightarrow> startup_event list \<times> unit io_result" where
  "nscd_bind sys fe = run_steps (bind_unix_steps sys (fe_listen fe) 438)"

definition dns_bind :: "system \<Rightarrow> 'p dns_frontend \<Rightarrow> startup_event list \<times> unit io_result" where
  "dns_bind sys fe =
     run_steps [(BindUdp (dn_listen fe), sy_bind_udp sys (dn_listen fe)),
                (BindTcp (dn_listen fe), sy_bind_tcp sys (dn_listen fe))]"

section \<open>Startup\<close>

definition DEFAULT_CONFIG_PATH :: string where
  "DEFAULT_CONFIG_PATH = ''/etc/deezns/policy.toml''"

record 'p daemon =
  da_engine :: "'p policy_engine"
  da_policy_relays :: relays
  da_nscd :: "'p nscd_frontend option"
  da_dns :: "'p dns_frontend option"

text \<open>The listeners of a daemon, in the order their tasks are spawned.\<close>

definition spawned :: "'p daemon \<Rightarrow> startup_event list" where
  "spawned d =
     [Serve PolicyListener] @ (case da_nscd d of Some _ \<Rightarrow> [Serve NscdListener] | None \<Rightarrow> []) @
     (case da_dns d of Some _ \<Rightarrow> [Serve DnsListener] | None \<Rightarrow> [])"

text \<open>The front-ends of a configuration: constructed, then bound, if enabled.\<close>

definition start_nscd ::
  "system \<Rightarrow> policy_config \<Rightarrow> 'p policy_engine \<Rightarrow> startup_event list \<times> 'p nscd_frontend option io_result"
where
  "start_nscd sys cfg eng =
     (case config_nscd cfg of
        None \<Rightarrow> ([], Inr None)
      | Some front_cfg \<Rightarrow>
          let front = nscd_new front_cfg eng in
          (case nscd_bind sys front of
             (evs, Inl e) \<Rightarrow> (evs, Inl e)
           | (evs, Inr _) \<Rightarrow> (evs, Inr (Some front))))"

definition start_dns ::
  "system \<Rightarrow> policy_config \<Rightarrow> 'p policy_engine \<Rightarrow> relays \<Rightarrow> startup_event list \<times> 'p dns_frontend option io_result"
where
  "start_dns sys cfg eng rs =
     (case config_dns cfg of
        None \<Rightarrow> ([], Inr None)
      | Some front_cfg \<Rightarrow>
          (case dns_new front_cfg eng of
             Inl e \<Rightarrow> ([], Inl e)
           | Inr fe \<Rightarrow>
               let front = with_relays fe rs in
               (case dns_bind sys front of
                  (evs, Inl e) \<Rightarrow> (evs, Inl e)
                | (evs, Inr _) \<Rightarrow> (evs, Inr (Some front)))))"

definition start_listeners ::
  "system \<Rightarrow> string \<Rightarrow> policy_config \<Rightarrow> 'p policy_engine \<Rightarrow> listener_relays
     \<Rightarrow> startup_event list \<times> 'p daemon io_result"
where
  "start_listeners sys socket_path cfg eng lr =
     (case bind_policy_socket sys socket_path of
        (evs, Inl e) \<Rightarrow> (evs, Inl e)
      | (evs, Inr _) \<Rightarrow>
          (case start_nscd sys cfg eng of
             (evs1, Inl e) \<Rightarrow> (evs @ evs1, Inl e)
           | (evs1, Inr nscd_front) \<Rightarrow>
               (case start_dns sys cfg eng (lr_dns lr) of
                  (evs2, Inl e) \<Rightarrow> (evs @ evs1 @ evs2, Inl e)
                | (evs2, Inr dns_front) \<Rightarrow>
                    let d = \<lparr>da_engine = eng, da_policy_relays = lr_policy_socket lr,
                             da_nscd = nscd_front, da_dns = dns_front\<rparr>
                    in (evs @ evs1 @ evs2 @ spawned d, Inr d))))"

definition main ::
  "system \<Rightarrow> string \<Rightarrow> (string \<Rightarrow> 't + policy_config) \<Rightarrow> (string \<Rightarrow> 'r io_result) \<Rightarrow> ('r \<Rightarrow> line_read \<times> 'r)
     \<Rightarrow> (string \<Rightarrow> 'e + 'p) \<Rightarrow> (startup_event list \<times> 'p daemon io_result) option"
where
  "main sys socket_path toml open_file rd compile =
     (let config_path = (case sy_config_env sys of Some p \<Rightarrow> p | None \<Rightarrow> DEFAULT_CONFIG_PATH) in
      case config_from_path (sy_read_to_string sys) toml config_path of
        Inl e \<Rightarrow> Some ([], Inl KInvalidData)
      | Inr cfg \<Rightarrow>
          (case engine_from_config open_file rd compile cfg of
             None \<Rightarrow> None
           | Some (Inl e) \<Rightarrow> Some ([], Inl KInvalidData)
           | Some (Inr eng) \<Rightarrow>
               (case relays_for_config (sy_getpwnam_r sys) cfg of
                  None \<Rightarrow> None
                | Some (Inl e) \<Rightarrow> Some ([], Inl e)
                | Some (Inr lr) \<Rightarrow> Some (start_listeners sys socket_path cfg eng lr))))"

text \<open>
  The end of the daemon: the first listener task to finish decides. \<open>None\<close> is an empty task set,
  \<open>Inl\<close> a task that panicked or was cancelled.
\<close>

definition join_next :: "(unit + unit io_result) option \<Rightarrow> unit io_result" where
  "join_next first =
     (case first of
        Some (Inr result) \<Rightarrow> result
      | Some (Inl _) \<Rightarrow> Inl KOther
      | None \<Rightarrow> Inr ())"

section \<open>The order of startup\<close>

definition is_serve :: "startup_event \<Rightarrow> bool" where
  "is_serve ev \<longleftrightarrow> (case ev of Serve _ \<Rightarrow> True | _ \<Rightarrow> False)"

text \<open>The sockets a daemon listens on.\<close>

definition bound_sockets :: "string \<Rightarrow> 'p daemon \<Rightarrow> startup_event set" where
  "bound_sockets socket_path d =
     {BindUnix socket_path, SetPermissions socket_path 432} \<union>
     (case da_nscd d of Some fe \<Rightarrow> {BindUnix (fe_listen fe), SetPermissions (fe_listen fe) 438} | None \<Rightarrow> {}) \<union>
     (case da_dns d of Some fe \<Rightarrow> {BindUdp (dn_listen fe), BindTcp (dn_listen fe)} | None \<Rightarrow> {})"

lemma run_steps_subset: "set (fst (run_steps steps)) \<subseteq> fst ` set steps"
  by (induction steps rule: run_steps.induct) (auto split: prod.splits sum.splits)

lemma run_steps_all: "snd (run_steps steps) = Inr () \<Longrightarrow> set (fst (run_steps steps)) = fst ` set steps"
  by (induction steps rule: run_steps.induct) (auto split: prod.splits sum.splits)

lemma run_steps_events:
  assumes "run_steps steps = (evs, res)"
  shows "set evs \<subseteq> fst ` set steps" "res = Inr () \<Longrightarrow> set evs = fst ` set steps"
  using assms run_steps_subset [of steps] run_steps_all [of steps] by simp_all

lemma bind_unix_events:
  assumes "run_steps (bind_unix_steps sys path mode) = (evs, res)"
  shows "list_all (\<lambda>ev. \<not> is_serve ev) evs"
    and "res = Inr () \<Longrightarrow> BindUnix path \<in> set evs \<and> SetPermissions path mode \<in> set evs"
  using run_steps_events [OF assms]
  by (auto simp: bind_unix_steps_def is_serve_def list_all_iff split: if_splits option.splits)

lemma dns_bind_events:
  assumes "dns_bind sys fe = (evs, res)"
  shows "list_all (\<lambda>ev. \<not> is_serve ev) evs"
    and "res = Inr () \<Longrightarrow> BindUdp (dn_listen fe) \<in> set evs \<and> BindTcp (dn_listen fe) \<in> set evs"
  using run_steps_events [OF assms [unfolded dns_bind_def]]
  by (auto simp: is_serve_def list_all_iff)

lemma start_nscd_events:
  assumes "start_nscd sys cfg eng = (evs, res)"
  shows "list_all (\<lambda>ev. \<not> is_serve ev) evs"
    and "res = Inr nf \<Longrightarrow> nf = map_option (\<lambda>c. nscd_new c eng) (config_nscd cfg) \<and>
           (\<forall>fe. nf = Some fe \<longrightarrow> BindUnix (fe_listen fe) \<in> set evs \<and> SetPermissions (fe_listen fe) 438 \<in> set evs)"
  using assms
  by (auto simp: start_nscd_def nscd_bind_def Let_def
        dest: bind_unix_events(1) bind_unix_events(2) [OF _ refl]
        split: option.splits prod.splits sum.splits)

lemma start_dns_events:
  assumes "start_dns sys cfg eng rs = (evs, res)"
  shows "list_all (\<lambda>ev. \<not> is_serve ev) evs"
    and "res = Inr df \<Longrightarrow> (df = None \<longleftrightarrow> config_dns cfg = None) \<and>
           (\<forall>fe. df = Some fe \<longrightarrow> dn_engine fe = eng \<and> dn_relays fe = rs \<and>
              BindUdp (dn_listen fe) \<in> set evs \<and> BindTcp (dn_listen fe) \<in> set evs)"
  using assms
  by (auto simp: start_dns_def Let_def with_relays_def dns_new_def dns_with_limits_def
        dest: dns_bind_events(1) dns_bind_events(2) [OF _ refl]
        split: option.splits prod.splits sum.splits)

lemma start_listeners_events:
  assumes "start_listeners sys socket_path cfg eng lr = (evs, res)"
  shows "case res of
     Inl e \<Rightarrow> list_all (\<lambda>ev. \<not> is_serve ev) evs
   | Inr d \<Rightarrow> \<exists>binds. evs = binds @ spawned d \<and> list_all (\<lambda>ev. \<not> is_serve ev) binds \<and>
       bound_sockets socket_path d \<subseteq> set binds \<and> da_engine d = eng \<and>
       da_policy_relays d = lr_policy_socket lr \<and>
       da_nscd d = map_option (\<lambda>c. nscd_new c eng) (config_nscd cfg) \<and>
       (da_dns d = None \<longleftrightarrow> config_dns cfg = None) \<and>
       (case da_dns d of None \<Rightarrow> True | Some fe \<Rightarrow> dn_engine fe = eng \<and> dn_relays fe = lr_dns lr)"
proof -
  obtain e0 r0 where p: "bind_policy_socket sys socket_path = (e0, r0)" by fastforce
  obtain e1 r1 where n: "start_nscd sys cfg eng = (e1, r1)" by fastforce
  obtain e2 r2 where d: "start_dns sys cfg eng (lr_dns lr) = (e2, r2)" by fastforce
  note P = bind_unix_events [OF p [unfolded bind_policy_socket_def]]
  note N = start_nscd_events [OF n]
  note D = start_dns_events [OF d]
  show ?thesis
  proof (cases r0)
    case (Inl e)
    then show ?thesis using assms p P(1) by (auto simp: start_listeners_def)
  next
    case r0: (Inr u)
    show ?thesis
    proof (cases r1)
      case (Inl e)
      then show ?thesis using assms p n P(1) N(1) r0 by (auto simp: start_listeners_def)
    next
      case r1: (Inr nf)
      show ?thesis
      proof (cases r2)
        case (Inl e)
        then show ?thesis using assms p n d P(1) N(1) D(1) r0 r1 by (auto simp: start_listeners_def)
      next
        case r2: (Inr df)
        let ?d = "\<lparr>da_engine = eng, da_policy_relays = lr_policy_socket lr, da_nscd = nf, da_dns = df\<rparr>"
        have res: "res = Inr ?d" "evs = (e0 @ e1 @ e2) @ spawned ?d"
          using assms p n d r0 r1 r2 by (auto simp: start_listeners_def Let_def)
        have "list_all (\<lambda>ev. \<not> is_serve ev) (e0 @ e1 @ e2)" using P(1) N(1) D(1) by simp
        moreover have "bound_sockets socket_path ?d \<subseteq> set (e0 @ e1 @ e2)"
          using P(2) N(2) [OF r1] D(2) [OF r2] r0
          by (auto simp: bound_sockets_def split: option.splits)
        ultimately show ?thesis
          using res N(2) [OF r1] D(2) [OF r2] by (auto split: option.split)
      qed
    qed
  qed
qed

lemma main_daemon:
  assumes "main sys socket_path toml open_file rd compile = Some (evs, res)"
  shows "case res of
     Inl e \<Rightarrow> list_all (\<lambda>ev. \<not> is_serve ev) evs
   | Inr d \<Rightarrow> \<exists>binds cfg lr.
       evs = binds @ spawned d \<and> list_all (\<lambda>ev. \<not> is_serve ev) binds \<and>
       bound_sockets socket_path d \<subseteq> set binds \<and>
       engine_from_config open_file rd compile cfg = Some (Inr (da_engine d)) \<and>
       relays_for_config (sy_getpwnam_r sys) cfg = Some (Inr lr) \<and>
       da_policy_relays d = lr_policy_socket lr \<and>
       da_nscd d = map_option (\<lambda>c. nscd_new c (da_engine d)) (config_nscd cfg) \<and>
       (da_dns d = None \<longleftrightarrow> config_dns cfg = None) \<and>
       (case da_dns d of None \<Rightarrow> True
        | Some fe \<Rightarrow> dn_engine fe = da_engine d \<and> dn_relays fe = lr_dns lr)"
proof -
  consider e where "res = Inl e" "evs = []"
    | cfg eng lr where "engine_from_config open_file rd compile cfg = Some (Inr eng)"
      "relays_for_config (sy_getpwnam_r sys) cfg = Some (Inr lr)"
      "start_listeners sys socket_path cfg eng lr = (evs, res)"
    using assms by (auto simp: main_def Let_def split: option.splits sum.splits)
  then show ?thesis
  proof cases
    case 2
    show ?thesis
    proof (cases res)
      case (Inr d)
      with start_listeners_events [OF 2(3)] 2(1,2) show ?thesis by fastforce
    qed (use start_listeners_events [OF 2(3)] in simp)
  qed simp
qed

section \<open>Startup as one sequence\<close>

text \<open>
  The specification of startup once the configuration, the engine and the relays are there: one
  sequence of system operations, the daemon it leads to, and the one configuration that ends it
  without an operation failing, a DNS front-end without an upstream server.
\<close>

definition startup_plan :: "system \<Rightarrow> string \<Rightarrow> policy_config \<Rightarrow> (startup_event \<times> unit io_result) list" where
  "startup_plan sys socket_path cfg =
     bind_unix_steps sys socket_path 432 @
     (case config_nscd cfg of None \<Rightarrow> [] | Some c \<Rightarrow> bind_unix_steps sys (nf_listen c) 438) @
     (case config_dns cfg of
        None \<Rightarrow> []
      | Some c \<Rightarrow>
          if df_upstream c = None then []
          else [(BindUdp (df_listen c), sy_bind_udp sys (df_listen c)),
                (BindTcp (df_listen c), sy_bind_tcp sys (df_listen c))])"

definition dns_incomplete :: "policy_config \<Rightarrow> bool" where
  "dns_incomplete cfg = (case config_dns cfg of None \<Rightarrow> False | Some c \<Rightarrow> df_upstream c = None)"

definition planned_daemon :: "policy_config \<Rightarrow> 'p policy_engine \<Rightarrow> listener_relays \<Rightarrow> 'p daemon" where
  "planned_daemon cfg eng lr =
     \<lparr>da_engine = eng, da_policy_relays = lr_policy_socket lr,
      da_nscd = map_option (\<lambda>c. nscd_new c eng) (config_nscd cfg),
      da_dns = Option.bind (config_dns cfg) (\<lambda>c.
        case dns_new c eng of Inl _ \<Rightarrow> None | Inr fe \<Rightarrow> Some (with_relays fe (lr_dns lr)))\<rparr>"

lemma run_steps_append:
  "run_steps (xs @ ys) =
     (case run_steps xs of (evs, Inl e) \<Rightarrow> (evs, Inl e) | (evs, Inr _) \<Rightarrow>
        (case run_steps ys of (evs', res) \<Rightarrow> (evs @ evs', res)))"
  by (induction xs rule: run_steps.induct) (auto split: prod.splits sum.splits)

lemma run_steps_ok_iff: "snd (run_steps xs) = Inr () \<longleftrightarrow> list_all (\<lambda>(ev, r). r = Inr ()) xs"
  by (induction xs rule: run_steps.induct) (auto split: prod.splits sum.splits)

lemma start_nscd_plan:
  "start_nscd sys cfg eng =
     (case run_steps (case config_nscd cfg of None \<Rightarrow> [] | Some c \<Rightarrow> bind_unix_steps sys (nf_listen c) 438) of
        (evs, Inl e) \<Rightarrow> (evs, Inl e)
      | (evs, Inr _) \<Rightarrow> (evs, Inr (map_option (\<lambda>c. nscd_new c eng) (config_nscd cfg))))"
  by (cases "config_nscd cfg")
     (auto simp: start_nscd_def nscd_bind_def nscd_new_def nscd_with_limits_def split: prod.split sum.split)

lemma start_dns_plan:
  "start_dns sys cfg eng rs =
     (case run_steps (case config_dns cfg of
             None \<Rightarrow> []
           | Some c \<Rightarrow>
               if df_upstream c = None then []
               else [(BindUdp (df_listen c), sy_bind_udp sys (df_listen c)),
                     (BindTcp (df_listen c), sy_bind_tcp sys (df_listen c))]) of
        (evs, Inl e) \<Rightarrow> (evs, Inl e)
      | (evs, Inr _) \<Rightarrow>
          if dns_incomplete cfg then (evs, Inl KInvalidInput)
          else (evs, Inr (Option.bind (config_dns cfg) (\<lambda>c.
                 case dns_new c eng of Inl _ \<Rightarrow> None | Inr fe \<Rightarrow> Some (with_relays fe rs)))))"
  by (auto simp: start_dns_def dns_bind_def dns_incomplete_def dns_new_def dns_with_limits_def with_relays_def
        Let_def split: option.split prod.split sum.split)

lemma start_listeners_plan:
  "start_listeners sys socket_path cfg eng lr =
     (case run_steps (startup_plan sys socket_path cfg) of
        (evs, Inl e) \<Rightarrow> (evs, Inl e)
      | (evs, Inr _) \<Rightarrow>
          if dns_incomplete cfg then (evs, Inl KInvalidInput)
          else (evs @ spawned (planned_daemon cfg eng lr), Inr (planned_daemon cfg eng lr)))"
  unfolding start_listeners_def startup_plan_def run_steps_append bind_policy_socket_def start_nscd_plan
    start_dns_plan planned_daemon_def
  by (auto simp: Let_def split: sum.split prod.split)

lemma daemon_engines:
  assumes "main sys socket_path toml open_file rd compile = Some (evs, Inr d)"
  shows "da_nscd d = Some nf \<Longrightarrow> fe_engine nf = da_engine d" "da_dns d = Some df \<Longrightarrow> dn_engine df = da_engine d"
  using main_daemon [OF assms]
  by (auto simp: nscd_new_def nscd_with_limits_def map_option_case split: option.splits)

section \<open>Properties\<close>

text \<open>
  (C15) Startup is all or nothing and in order: if anything fails nothing is served; otherwise every
  socket of every enabled front-end is bound, with its mode set, before the first listener serves,
  all front-ends judge with the one engine of the configuration, and the policy socket and the DNS
  front-end pass through exactly the relays resolved for them.
\<close>

theorem startup_binds_before_serving:
  assumes "main sys socket_path toml open_file rd compile = Some (evs, res)"
  shows "case res of
     Inl e \<Rightarrow> list_all (\<lambda>ev. \<not> is_serve ev) evs
   | Inr d \<Rightarrow> \<exists>binds cfg lr.
       evs = binds @ spawned d \<and> list_all (\<lambda>ev. \<not> is_serve ev) binds \<and>
       bound_sockets socket_path d \<subseteq> set binds \<and>
       engine_from_config open_file rd compile cfg = Some (Inr (da_engine d)) \<and>
       relays_for_config (sy_getpwnam_r sys) cfg = Some (Inr lr) \<and>
       da_policy_relays d = lr_policy_socket lr \<and>
       da_nscd d = map_option (\<lambda>c. nscd_new c (da_engine d)) (config_nscd cfg) \<and>
       (da_dns d = None \<longleftrightarrow> config_dns cfg = None) \<and>
       (case da_dns d of None \<Rightarrow> True
        | Some fe \<Rightarrow> dn_engine fe = da_engine d \<and> dn_relays fe = lr_dns lr)"
  by (rule main_daemon [OF assms])

text \<open>
  (C16) Startup is a plain sequence: with a configuration, its engine and its relays, the daemon
  performs the planned operations in order up to the first that fails, whose error it ends with; if
  all succeed it serves, with exactly the configured front-ends, unless the DNS front-end has no
  upstream server, which is an error. So it comes up exactly when nothing planned fails.
\<close>

theorem startup_runs_plan:
  assumes "config_from_path (sy_read_to_string sys) toml
      (case sy_config_env sys of Some p \<Rightarrow> p | None \<Rightarrow> DEFAULT_CONFIG_PATH) = Inr cfg"
    and "engine_from_config open_file rd compile cfg = Some (Inr eng)"
    and "relays_for_config (sy_getpwnam_r sys) cfg = Some (Inr lr)"
  shows "main sys socket_path toml open_file rd compile =
           Some (case run_steps (startup_plan sys socket_path cfg) of
                   (evs, Inl e) \<Rightarrow> (evs, Inl e)
                 | (evs, Inr _) \<Rightarrow>
                     if dns_incomplete cfg then (evs, Inl KInvalidInput)
                     else (evs @ spawned (planned_daemon cfg eng lr), Inr (planned_daemon cfg eng lr))) \<and>
         ((\<exists>evs d. main sys socket_path toml open_file rd compile = Some (evs, Inr d)) \<longleftrightarrow>
            list_all (\<lambda>(ev, r). r = Inr ()) (startup_plan sys socket_path cfg) \<and> \<not> dns_incomplete cfg)"
proof -
  have m: "main sys socket_path toml open_file rd compile = Some (start_listeners sys socket_path cfg eng lr)"
    using assms by (simp add: main_def)
  show ?thesis
    unfolding m start_listeners_plan run_steps_ok_iff [symmetric]
    by (auto split: prod.splits sum.splits)
qed

text \<open>A machine on which everything succeeds and the configuration file is empty.\<close>

definition fresh_system :: system where
  "fresh_system =
     \<lparr>sy_config_env = None, sy_read_to_string = (\<lambda>_. Inr []), sy_getpwnam_r = (\<lambda>_ _. PwAbsent),
      sy_exists = (\<lambda>_. False), sy_remove_file = (\<lambda>_. Inr ()), sy_create_dir_all = (\<lambda>_. Inr ()),
      sy_bind_unix = (\<lambda>_. Inr ()), sy_set_permissions = (\<lambda>_ _. Inr ()), sy_bind_udp = (\<lambda>_. Inr ()),
      sy_bind_tcp = (\<lambda>_. Inr ())\<rparr>"

definition empty_engine :: "unit policy_engine" where
  "empty_engine =
     \<lparr>pe_rules = [], pe_blocklists = Map.empty, pe_default_verdict = DefaultPassthrough\<rparr>"

theorem startup_binds_before_serving_witness:
  "\<exists>evs d binds.
     main fresh_system ''/run/deezns.sock'' (\<lambda>_. Inr empty_config :: unit + policy_config)
       (\<lambda>_. Inl KNotFound) next_line (\<lambda>_. Inl () :: unit + unit) = Some (evs, Inr d) \<and>
     evs = binds @ [Serve PolicyListener] \<and> BindUnix ''/run/deezns.sock'' \<in> set binds"
proof -
  let ?d = "\<lparr>da_engine = empty_engine, da_policy_relays = relays_default, da_nscd = None, da_dns = None\<rparr>"
  have pp: "path_parent ''/run/deezns.sock'' = Some ''/run''" by code_simp
  have run: "main fresh_system ''/run/deezns.sock'' (\<lambda>_. Inr empty_config :: unit + policy_config)
      (\<lambda>_. Inl KNotFound) next_line (\<lambda>_. Inl () :: unit + unit) =
      Some ([CreateDirAll ''/run'', BindUnix ''/run/deezns.sock'', SetPermissions ''/run/deezns.sock'' 432,
             Serve PolicyListener], Inr ?d)"
    by (simp add: main_def fresh_system_def config_from_path_def engine_from_config_def empty_config_def
          default_passthrough_def relays_for_config_def relaying_def config_nscd_def config_dns_def
          config_nss_def filter_option_def relays_default_def start_listeners_def bind_policy_socket_def
          bind_unix_steps_def pp start_nscd_def start_dns_def spawned_def empty_engine_def)
  from startup_binds_before_serving [OF run] obtain binds where
    "[CreateDirAll ''/run'', BindUnix ''/run/deezns.sock'', SetPermissions ''/run/deezns.sock'' 432,
      Serve PolicyListener] = binds @ [Serve PolicyListener]" "BindUnix ''/run/deezns.sock'' \<in> set binds"
    by (auto simp: spawned_def bound_sockets_def)
  with run show ?thesis by blast
qed

section \<open>An example\<close>

text \<open>A daemon with both front-ends that denies everything, and how it comes to run.\<close>

definition two_front_config :: policy_config where
  "two_front_config =
     empty_config\<lparr>pc_default_verdict := DefaultDeny,
       pc_nscd_frontend := Some \<lparr>nf_enable = True, nf_listen = ''/run/nscd/socket'', nf_upstream = ''/run/nsncd''\<rparr>,
       pc_dns_frontend := Some \<lparr>df_enable = True, df_listen = sender, df_upstream = Some sender,
         df_upstream_timeout_ms = default_upstream_timeout_ms, df_identify_processes = False\<rparr>\<rparr>"

definition two_front_nscd :: "unit nscd_frontend" where
  "two_front_nscd =
     nscd_new \<lparr>nf_enable = True, nf_listen = ''/run/nscd/socket'', nf_upstream = ''/run/nsncd''\<rparr> deny_all"

definition two_front_dns :: "unit dns_frontend" where
  "two_front_dns =
     \<lparr>dn_listen = sender, dn_upstream = sender, dn_identify_processes = False,
      dn_timeout = unat default_upstream_timeout_ms, dn_read_timeout = DNS_READ_TIMEOUT,
      dn_tcp_slots = DNS_MAX_CONNECTIONS, dn_udp_slots = DNS_MAX_CONNECTIONS, dn_engine = deny_all,
      dn_relays = relays_default\<rparr>"

definition two_front_daemon :: "unit daemon" where
  "two_front_daemon =
     \<lparr>da_engine = deny_all, da_policy_relays = relays_default, da_nscd = Some two_front_nscd,
      da_dns = Some two_front_dns\<rparr>"

lemma two_front_daemon_starts:
  "\<exists>evs. main fresh_system ''/run/deezns.sock'' (\<lambda>_. Inr two_front_config :: unit + policy_config)
     (\<lambda>_. Inl KNotFound) next_line (\<lambda>_. Inl () :: unit + unit) = Some (evs, Inr two_front_daemon)"
proof -
  have "path_parent ''/run/deezns.sock'' = Some ''/run''" "path_parent ''/run/nscd/socket'' = Some ''/run/nscd''"
    by code_simp+
  then show ?thesis
    by (simp add: main_def fresh_system_def config_from_path_def engine_from_config_def two_front_config_def
          empty_config_def relays_for_config_def relaying_def config_nscd_def config_dns_def
          config_nss_def filter_option_def relays_default_def start_listeners_def bind_policy_socket_def
          bind_unix_steps_def start_nscd_def start_dns_def nscd_bind_def dns_bind_def dns_new_def
          dns_with_limits_def with_relays_def deny_all_def nscd_new_def nscd_with_limits_def Let_def
          two_front_daemon_def two_front_nscd_def two_front_dns_def)
qed

lemma two_front_daemon_parts:
  "da_nscd two_front_daemon = Some two_front_nscd" "da_dns two_front_daemon = Some two_front_dns"
  "da_engine two_front_daemon = deny_all" "da_policy_relays two_front_daemon = relays_default"
  "dn_relays two_front_dns = relays_default"
  by (simp_all add: two_front_daemon_def two_front_dns_def)

theorem startup_runs_plan_witness:
  "main (fresh_system\<lparr>sy_bind_tcp := (\<lambda>_. Inl (RawOs 98))\<rparr>) ''/run/deezns.sock''
     (\<lambda>_. Inr two_front_config :: unit + policy_config) (\<lambda>_. Inl KNotFound) next_line (\<lambda>_. Inl () :: unit + unit) =
   Some ([CreateDirAll ''/run'', BindUnix ''/run/deezns.sock'', SetPermissions ''/run/deezns.sock'' 432,
          CreateDirAll ''/run/nscd'', BindUnix ''/run/nscd/socket'', SetPermissions ''/run/nscd/socket'' 438,
          BindUdp sender, BindTcp sender], Inl (RawOs 98))"
proof -
  let ?sys = "fresh_system\<lparr>sy_bind_tcp := (\<lambda>_. Inl (RawOs 98))\<rparr>"
  let ?toml = "\<lambda>_. Inr two_front_config :: unit + policy_config"
  have "path_parent ''/run/deezns.sock'' = Some ''/run''" "path_parent ''/run/nscd/socket'' = Some ''/run/nscd''"
    by code_simp+
  then have plan: "run_steps (startup_plan ?sys ''/run/deezns.sock'' two_front_config) =
      ([CreateDirAll ''/run'', BindUnix ''/run/deezns.sock'', SetPermissions ''/run/deezns.sock'' 432,
        CreateDirAll ''/run/nscd'', BindUnix ''/run/nscd/socket'', SetPermissions ''/run/nscd/socket'' 438,
        BindUdp sender, BindTcp sender], Inl (RawOs 98))"
    by (simp add: startup_plan_def bind_unix_steps_def fresh_system_def two_front_config_def config_nscd_def
          config_dns_def filter_option_def)
  have c: "config_from_path (sy_read_to_string ?sys) ?toml
      (case sy_config_env ?sys of Some p \<Rightarrow> p | None \<Rightarrow> DEFAULT_CONFIG_PATH) = Inr two_front_config"
    by (simp add: config_from_path_def fresh_system_def)
  have e: "engine_from_config (\<lambda>_. Inl KNotFound) next_line (\<lambda>_. Inl () :: unit + unit) two_front_config = Some (Inr deny_all)"
    by (simp add: engine_from_config_def two_front_config_def empty_config_def deny_all_def)
  have r: "\<exists>lr. relays_for_config (sy_getpwnam_r ?sys) two_front_config = Some (Inr lr)"
    by (simp add: relays_for_config_def two_front_config_def empty_config_def relays_default_def relaying_def
          Let_def split: prod.split)
  then obtain lr where "relays_for_config (sy_getpwnam_r ?sys) two_front_config = Some (Inr lr)" by blast
  from startup_runs_plan [OF c e this, of "''/run/deezns.sock''"] plan show ?thesis by simp
qed

text \<open>
  (C17) A configuration file with a rule that lacks its expression or verdict, a blocklist that lacks
  its name or path, or a front-end section that lacks an address it needs stops the daemon before it
  binds anything: no part of such a file takes effect.
\<close>

theorem incomplete_file_stops_startup:
  assumes "sy_read_to_string sys (case sy_config_env sys of Some p \<Rightarrow> p | None \<Rightarrow> DEFAULT_CONFIG_PATH) = Inr txt"
    and "document txt = Inr t" "incomplete t"
  shows "main sys socket_path (toml_from_str document) open_file rd compile = Some ([], Inl KInvalidData)"
proof (cases "config_of_table t")
  case (Inl r)
  then show ?thesis using assms by (simp add: main_def config_from_path_def toml_from_str_def)
next
  case (Inr cfg)
  then show ?thesis using incomplete_refused [OF assms(3)] by simp
qed

theorem incomplete_file_stops_startup_witness:
  "main fresh_system ''/run/deezns.sock''
     (toml_from_str (\<lambda>_. Inr [(''rules'', TArray [TTable [(''expr'', TString ''true'')]])] :: unit + toml_table))
     (\<lambda>_. Inl KNotFound) next_line (\<lambda>_. Inl () :: unit + unit) = Some ([], Inl KInvalidData)"
  by (rule incomplete_file_stops_startup [where t = "[(''rules'', TArray [TTable [(''expr'', TString ''true'')]])]"])
     (simp_all add: fresh_system_def incomplete_def some_lacks_def lacks_def)

end
