(* ===== verification/Listeners.thy ===== *)
theory Listeners
  imports Daemon
begin

text \<open>
  The listener tasks: the accept loops of the nscd front-end and of the DNS front-end over TCP, the
  receive loop of the DNS front-end over UDP, and the accept loop of the policy socket. The first
  three take a permit of a semaphore before they accept, which the spawned handler gives back when
  it ends. They are step relations, labelled with what the outside sees: what the call of accept or
  receive returned, and which handler ended with which output. Connections, failures and the ends of
  handlers happen in any order. A handler that never returns (\<open>Stalled\<close>) never gives its permit back.
\<close>

section \<open>The loops\<close>

text \<open>A loop acquires a permit, waits for a connection, sleeps, or has returned.\<close>

datatype phase = Acquiring | Accepting | Sleeping | Stopped "unit io_result"

record 'c serve_state =
  sv_phase :: phase
  sv_free :: nat
  sv_tasks :: "'c list"

definition serve_start :: "usize \<Rightarrow> 'c serve_state" where
  "serve_start slots = \<lparr>sv_phase = Acquiring, sv_free = slots, sv_tasks = []\<rparr>"

text \<open>What a loop has returned, if it has.\<close>

definition stopped :: "'c serve_state \<Rightarrow> unit io_result option" where
  "stopped s = (case sv_phase s of Stopped res \<Rightarrow> Some res | _ \<Rightarrow> None)"

text \<open>
  \<open>Took r\<close>: the loop's accept or receive returned \<open>r\<close>. \<open>Handled c out\<close>: the handler of the task \<open>c\<close>
  ended and has done \<open>out\<close>. \<open>Internal\<close>: the loop took a permit or woke up.
\<close>

datatype ('c, 'o) loop_event = Took "'c io_result" | Handled 'c 'o | Internal

text \<open>Steps of any label.\<close>

definition some_step :: "('s \<Rightarrow> 'l \<Rightarrow> 's \<Rightarrow> bool) \<Rightarrow> 's \<Rightarrow> 's \<Rightarrow> bool" where
  "some_step step s s' \<longleftrightarrow> (\<exists>ev. step s ev s')"

text \<open>
  The accept loop, which nscd and DNS over TCP share: acquire a permit, accept a connection and
  spawn its handler, or sleep and start over, dropping the permit. \<open>work c\<close> is what the handler of
  \<open>c\<close> does and how it ends; its result is only logged.
\<close>

inductive accept_step ::
  "('c \<Rightarrow> 'o \<times> unit await) \<Rightarrow> 'c serve_state \<Rightarrow> ('c, 'o) loop_event \<Rightarrow> 'c serve_state \<Rightarrow> bool"
  for work :: "'c \<Rightarrow> 'o \<times> unit await"
where
  acquire: "sv_phase s = Acquiring \<Longrightarrow> sv_free s = Suc n \<Longrightarrow>
     accept_step work s Internal (s\<lparr>sv_phase := Accepting, sv_free := n\<rparr>)"
| accepted: "sv_phase s = Accepting \<Longrightarrow>
     accept_step work s (Took (Inr c)) (s\<lparr>sv_phase := Acquiring, sv_tasks := sv_tasks s @ [c]\<rparr>)"
| accept_failed: "sv_phase s = Accepting \<Longrightarrow>
     accept_step work s (Took (Inl e)) (s\<lparr>sv_phase := Sleeping\<rparr>)"
| retry: "sv_phase s = Sleeping \<Longrightarrow>
     accept_step work s Internal (s\<lparr>sv_phase := Acquiring, sv_free := Suc (sv_free s)\<rparr>)"
| finished: "c \<in> set (sv_tasks s) \<Longrightarrow> work c = (out, res) \<Longrightarrow> res \<noteq> Stalled \<Longrightarrow>
     accept_step work s (Handled c out) (s\<lparr>sv_free := Suc (sv_free s), sv_tasks := remove1 c (sv_tasks s)\<rparr>)"

text \<open>An nscd client is its connection and what the real nscd does for it.\<close>

type_synonym nscd_task = "nscd_client \<times> unix_net"

definition nscd_work ::
  "endianness \<Rightarrow> ('p, 'e, 'v) cel_execute \<Rightarrow> 'p nscd_frontend \<Rightarrow> nscd_task \<Rightarrow> nscd_event list \<times> unit await"
where
  "nscd_work en execute fe = (\<lambda>(cl, net). handle en execute net fe cl)"

definition nscd_step ::
  "endianness \<Rightarrow> ('p, 'e, 'v) cel_execute \<Rightarrow> 'p nscd_frontend
     \<Rightarrow> nscd_task serve_state \<Rightarrow> (nscd_task, nscd_event list) loop_event \<Rightarrow> nscd_task serve_state \<Rightarrow> bool"
where
  "nscd_step en execute fe = accept_step (nscd_work en execute fe)"

definition nscd_serve ::
  "endianness \<Rightarrow> ('p, 'e, 'v) cel_execute \<Rightarrow> 'p nscd_frontend
     \<Rightarrow> nscd_task serve_state \<Rightarrow> nscd_task serve_state \<Rightarrow> bool"
where
  "nscd_serve en execute fe = some_step (nscd_step en execute fe)"

text \<open>A TCP client is its connection, its address and the environment of its messages.\<close>

type_synonym tcp_task = "tcp_client \<times> socket_addr \<times> dns_env \<times> bool option"

definition tcp_work ::
  "('p, 'e, 'v) cel_execute \<Rightarrow> 'p dns_frontend \<Rightarrow> tcp_task \<Rightarrow> tcp_output list \<times> unit await"
where
  "tcp_work execute fe = (\<lambda>(cl, peer, env, once). serve_tcp_connection execute env fe cl peer once)"

definition tcp_step ::
  "('p, 'e, 'v) cel_execute \<Rightarrow> 'p dns_frontend
     \<Rightarrow> tcp_task serve_state \<Rightarrow> (tcp_task, tcp_output list) loop_event \<Rightarrow> tcp_task serve_state \<Rightarrow> bool"
where
  "tcp_step execute fe = accept_step (tcp_work execute fe)"

definition dns_serve_tcp ::
  "('p, 'e, 'v) cel_execute \<Rightarrow> 'p dns_frontend \<Rightarrow> tcp_task serve_state \<Rightarrow> tcp_task serve_state \<Rightarrow> bool"
where
  "dns_serve_tcp execute fe = some_step (tcp_step execute fe)"

text \<open>
  A task of the receive loop over UDP answers one datagram, of which the buffer keeps at most
  \<open>MAX_MESSAGE\<close> bytes.
\<close>

type_synonym udp_task = "bytes \<times> socket_addr"

definition udp_task_reply ::
  "('p, 'e, 'v) cel_execute \<Rightarrow> dns_net \<Rightarrow> procfs option \<Rightarrow> bool option \<Rightarrow> 'p dns_frontend \<Rightarrow> socket_addr
     \<Rightarrow> udp_task \<Rightarrow> (dns_event list \<times> bytes \<times> socket_addr) \<times> bool option"
where
  "udp_task_reply execute net fs once fe server task =
     (let (message, peer) = task;
          ((sent, reply), once') = respond execute net fs once fe message peer Udp server
      in ((sent, reply, peer), once'))"

definition received :: "bytes \<Rightarrow> socket_addr \<Rightarrow> udp_task" where
  "received datagram peer = (take MAX_MESSAGE datagram, peer)"

text \<open>
  The environment of a datagram: the network and \<open>/proc\<close> its task finds, the probe made before, and
  the fate of the reply.
\<close>

record udp_env =
  ue_net :: dns_net
  ue_fs :: "procfs option"
  ue_once :: "bool option"
  ue_send :: "unit await"

type_synonym udp_job = "udp_task \<times> udp_env"

definition spawned_job :: "udp_job \<Rightarrow> udp_job" where
  "spawned_job = (\<lambda>((datagram, peer), env). (received datagram peer, env))"

text \<open>
  What a task does: computing the reply always ends (\<open>respond\<close> is total), sending it may fail, which
  is only logged, or wait forever.
\<close>

definition udp_work ::
  "('p, 'e, 'v) cel_execute \<Rightarrow> 'p dns_frontend \<Rightarrow> socket_addr \<Rightarrow> udp_job
     \<Rightarrow> (dns_event list \<times> bytes \<times> socket_addr) \<times> unit await"
where
  "udp_work execute fe server =
     (\<lambda>(task, env). (fst (udp_task_reply execute (ue_net env) (ue_fs env) (ue_once env) fe server task), ue_send env))"

text \<open>The receive loop: a failed receive ends it.\<close>

inductive udp_step ::
  "(udp_job \<Rightarrow> 'o \<times> unit await) \<Rightarrow> udp_job serve_state \<Rightarrow> (udp_job, 'o) loop_event \<Rightarrow> udp_job serve_state \<Rightarrow> bool"
  for work :: "udp_job \<Rightarrow> 'o \<times> unit await"
where
  udp_acquire: "sv_phase s = Acquiring \<Longrightarrow> sv_free s = Suc n \<Longrightarrow>
     udp_step work s Internal (s\<lparr>sv_phase := Accepting, sv_free := n\<rparr>)"
| udp_received: "sv_phase s = Accepting \<Longrightarrow>
     udp_step work s (Took (Inr d)) (s\<lparr>sv_phase := Acquiring, sv_tasks := sv_tasks s @ [spawned_job d]\<rparr>)"
| udp_failed: "sv_phase s = Accepting \<Longrightarrow>
     udp_step work s (Took (Inl e)) (s\<lparr>sv_phase := Stopped (Inl e), sv_free := Suc (sv_free s)\<rparr>)"
| udp_finished: "d \<in> set (sv_tasks s) \<Longrightarrow> work d = (out, res) \<Longrightarrow> res \<noteq> Stalled \<Longrightarrow>
     udp_step work s (Handled d out) (s\<lparr>sv_free := Suc (sv_free s), sv_tasks := remove1 d (sv_tasks s)\<rparr>)"

definition dns_serve_udp ::
  "('p, 'e, 'v) cel_execute \<Rightarrow> 'p dns_frontend \<Rightarrow> socket_addr \<Rightarrow> udp_job serve_state \<Rightarrow> udp_job serve_state \<Rightarrow> bool"
where
  "dns_serve_udp execute fe server = some_step (udp_step (udp_work execute fe server))"

text \<open>
  \<open>serve\<close> of the DNS front-end runs both loops with \<open>try_join!\<close>: the first error is the result, and
  \<open>Ok\<close> takes both. Until then both go on; afterwards neither does.
\<close>

definition try_join :: "unit io_result option \<Rightarrow> unit io_result option \<Rightarrow> unit io_result option" where
  "try_join a b =
     (case (a, b) of
        (Some (Inl e), _) \<Rightarrow> Some (Inl e)
      | (_, Some (Inl e)) \<Rightarrow> Some (Inl e)
      | (Some (Inr _), Some (Inr _)) \<Rightarrow> Some (Inr ())
      | _ \<Rightarrow> None)"

inductive dns_serve ::
  "('p, 'e, 'v) cel_execute \<Rightarrow> 'p dns_frontend \<Rightarrow> socket_addr \<Rightarrow>
   udp_job serve_state \<times> tcp_task serve_state \<Rightarrow> udp_job serve_state \<times> tcp_task serve_state \<Rightarrow> bool"
  for execute :: "('p, 'e, 'v) cel_execute" and fe :: "'p dns_frontend" and server :: socket_addr
where
  serve_udp: "try_join (stopped u) (stopped t) = None \<Longrightarrow> dns_serve_udp execute fe server u u' \<Longrightarrow>
     dns_serve execute fe server (u, t) (u', t)"
| serve_tcp: "try_join (stopped u) (stopped t) = None \<Longrightarrow> dns_serve_tcp execute fe t t' \<Longrightarrow>
     dns_serve execute fe server (u, t) (u, t')"

text \<open>
  The policy socket: it takes no permit, every accepted connection gets a handler, and the first
  failed accept ends the loop with its error.
\<close>

inductive policy_serve ::
  "('c \<Rightarrow> 'o \<times> unit await) \<Rightarrow> 'c serve_state \<Rightarrow> ('c, 'o) loop_event \<Rightarrow> 'c serve_state \<Rightarrow> bool"
  for work :: "'c \<Rightarrow> 'o \<times> unit await"
where
  policy_accepted: "sv_phase s = Accepting \<Longrightarrow>
     policy_serve work s (Took (Inr c)) (s\<lparr>sv_tasks := sv_tasks s @ [c]\<rparr>)"
| policy_failed: "sv_phase s = Accepting \<Longrightarrow>
     policy_serve work s (Took (Inl e)) (s\<lparr>sv_phase := Stopped (Inl e)\<rparr>)"
| policy_finished: "c \<in> set (sv_tasks s) \<Longrightarrow> work c = (out, res) \<Longrightarrow> res \<noteq> Stalled \<Longrightarrow>
     policy_serve work s (Handled c out) (s\<lparr>sv_tasks := remove1 c (sv_tasks s)\<rparr>)"

definition policy_start :: "'c serve_state" where
  "policy_start = \<lparr>sv_phase = Accepting, sv_free = 0, sv_tasks = []\<rparr>"

text \<open>
  The same loop as a function of what its calls of accept return: the connections it spawns handlers
  for and what it returns, \<open>None\<close> for a loop that still waits.
\<close>

fun serve_policy_socket :: "('c io_result) list \<Rightarrow> 'c list \<times> unit io_result option" where
  "serve_policy_socket [] = ([], None)"
| "serve_policy_socket (Inl e # accepts) = ([], Some (Inl e))"
| "serve_policy_socket (Inr c # accepts) =
     (let (spawned, res) = serve_policy_socket accepts in (c # spawned, res))"

inductive_cases accept_stepE: "accept_step work s ev s'"
inductive_cases udp_stepE: "udp_step work s ev s'"
inductive_cases policy_serveE: "policy_serve work s ev s'"

inductive_simps accept_step_simps:
  "accept_step work s Internal s'" "accept_step work s (Took r) s'" "accept_step work s (Handled c out) s'"
inductive_simps udp_step_simps:
  "udp_step work s Internal s'" "udp_step work s (Took r) s'" "udp_step work s (Handled c out) s'"

lemmas serve_steps = nscd_serve_def nscd_step_def dns_serve_tcp_def tcp_step_def dns_serve_udp_def

section \<open>Permits\<close>

text \<open>The interface of a loop bounded by a semaphore: permits are conserved by every step.\<close>

locale bounded_server =
  fixes step :: "'s \<Rightarrow> 's \<Rightarrow> bool"
    and start :: 's
    and free held running :: "'s \<Rightarrow> nat"
    and slots :: nat
  assumes start_permits: "free start + held start + running start = slots"
    and step_permits: "step s s' \<Longrightarrow> free s' + held s' + running s' = free s + held s + running s"
begin

lemma permits: "step\<^sup>*\<^sup>* start s \<Longrightarrow> free s + held s + running s = slots"
  by (induction rule: rtranclp_induct) (auto simp: start_permits step_permits)

lemma bounded: "step\<^sup>*\<^sup>* start s \<Longrightarrow> running s \<le> slots"
  using permits by fastforce

lemma exhausted: "step\<^sup>*\<^sup>* start s \<Longrightarrow> free s = 0 \<Longrightarrow> held s = 0 \<Longrightarrow> running s = slots"
  using permits by fastforce

end

definition held_permits :: "'c serve_state \<Rightarrow> nat" where
  "held_permits s = (case sv_phase s of Accepting \<Rightarrow> 1 | Sleeping \<Rightarrow> 1 | _ \<Rightarrow> 0)"

definition running_tasks :: "'c serve_state \<Rightarrow> nat" where
  "running_tasks s = length (sv_tasks s)"

lemma remove1_tasks: "c \<in> set cs \<Longrightarrow> Suc (length (remove1 c cs)) = length cs"
  using length_pos_if_in_set [of c cs] by (simp add: length_remove1)

lemma serve_start_permits:
  "sv_free (serve_start n) + held_permits (serve_start n) + running_tasks (serve_start n) = n"
  by (simp add: serve_start_def held_permits_def running_tasks_def)

lemma accept_step_permits:
  "some_step (accept_step work) s s' \<Longrightarrow>
     sv_free s' + held_permits s' + running_tasks s' = sv_free s + held_permits s + running_tasks s"
  unfolding some_step_def by (elim exE accept_stepE) (auto simp: held_permits_def running_tasks_def dest!: remove1_tasks split: phase.split)

lemma udp_step_permits:
  "some_step (udp_step work) s s' \<Longrightarrow>
     sv_free s' + held_permits s' + running_tasks s' = sv_free s + held_permits s + running_tasks s"
  unfolding some_step_def by (elim exE udp_stepE) (auto simp: held_permits_def running_tasks_def dest!: remove1_tasks split: phase.split)

interpretation nscd_slots: bounded_server
  "nscd_serve en execute fe" "serve_start (fe_slots fe)" sv_free held_permits running_tasks "fe_slots fe"
  for en execute fe
  by unfold_locales
     (simp_all add: serve_start_permits serve_steps accept_step_permits)

interpretation dns_tcp_slots: bounded_server
  "dns_serve_tcp execute fe" "serve_start (dn_tcp_slots fe)" sv_free held_permits running_tasks "dn_tcp_slots fe"
  for execute fe
  by unfold_locales
     (simp_all add: serve_start_permits serve_steps accept_step_permits)

interpretation dns_udp_slots: bounded_server
  "dns_serve_udp execute fe server" "serve_start (dn_udp_slots fe)" sv_free held_permits running_tasks "dn_udp_slots fe"
  for execute fe server
  by unfold_locales
     (simp_all add: serve_start_permits serve_steps udp_step_permits)

section \<open>Progress\<close>

text \<open>The accept loops have no end.\<close>

lemma accept_never_stops:
  "(some_step (accept_step work))\<^sup>*\<^sup>* (serve_start n) s \<Longrightarrow> sv_phase s \<noteq> Stopped res"
  by (induction rule: rtranclp_induct) (auto simp: serve_start_def some_step_def elim!: accept_stepE)

lemma accept_blocked:
  assumes "(some_step (accept_step work))\<^sup>*\<^sup>* (serve_start n) s" "\<nexists>s'. some_step (accept_step work) s s'"
  shows "sv_phase s = Acquiring \<and> sv_free s = 0 \<and> list_all (\<lambda>c. snd (work c) = Stalled) (sv_tasks s)"
proof -
  have stuck: "\<not> accept_step work s ev s'" for ev s' using assms(2) by (auto simp: some_step_def)
  have "sv_phase s = Acquiring"
    using accept_never_stops [OF assms(1)] accept_failed retry stuck by (metis phase.exhaust)
  moreover have "sv_free s = 0"
    using stuck acquire calculation by (metis not0_implies_Suc)
  moreover have "snd (work c) = Stalled" if "c \<in> set (sv_tasks s)" for c
    using stuck finished [OF that] by (metis prod.collapse)
  ultimately show ?thesis by (simp add: list_all_iff)
qed

lemma accept_fill:
  "k \<le> n \<Longrightarrow> (some_step (accept_step work))\<^sup>*\<^sup>* (serve_start n)
     \<lparr>sv_phase = Acquiring, sv_free = n - k, sv_tasks = replicate k c\<rparr>"
proof (induction k)
  case (Suc k)
  let ?s = "\<lparr>sv_phase = Acquiring, sv_free = n - k, sv_tasks = replicate k c\<rparr>"
  let ?a = "\<lparr>sv_phase = Accepting, sv_free = n - Suc k, sv_tasks = replicate k c\<rparr>"
  have "sv_free ?s = Suc (n - Suc k)" using Suc.prems by simp
  from acquire [OF _ this, of work] have "some_step (accept_step work) ?s ?a"
    by (auto simp: some_step_def)
  moreover from accepted [of ?a work c]
  have "some_step (accept_step work) ?a \<lparr>sv_phase = Acquiring, sv_free = n - Suc k, sv_tasks = replicate (Suc k) c\<rparr>"
    by (auto simp: some_step_def replicate_append_same)
  ultimately show ?case using Suc by (meson Suc_leD rtranclp.rtrancl_into_rtrancl)
qed (simp add: serve_start_def)

lemma accept_starves:
  assumes "snd (work c) = Stalled"
  shows "\<exists>s. (some_step (accept_step work))\<^sup>*\<^sup>* (serve_start n) s \<and> sv_tasks s = replicate n c \<and>
           (\<nexists>s'. some_step (accept_step work) s s')"
proof (intro exI conjI)
  let ?s = "\<lparr>sv_phase = Acquiring, sv_free = 0, sv_tasks = replicate n c\<rparr>"
  show "(some_step (accept_step work))\<^sup>*\<^sup>* (serve_start n) ?s" using accept_fill [of n n work c] by simp
  show "\<nexists>s'. some_step (accept_step work) ?s s'" using assms by (auto simp: some_step_def elim!: accept_stepE)
qed simp

lemma dns_serve_projections:
  assumes "(dns_serve execute fe server)\<^sup>*\<^sup>* (serve_start m, serve_start n) ut"
  shows "(dns_serve_udp execute fe server)\<^sup>*\<^sup>* (serve_start m) (fst ut) \<and>
         (dns_serve_tcp execute fe)\<^sup>*\<^sup>* (serve_start n) (snd ut)"
  using assms
  by (induction rule: rtranclp_induct) (auto elim!: dns_serve.cases intro: rtranclp.rtrancl_into_rtrancl)

text \<open>Clients whose handlers return give their slots back.\<close>

lemma accept_frees:
  "snd (work c) \<noteq> Stalled \<Longrightarrow>
     (some_step (accept_step work))\<^sup>*\<^sup>* \<lparr>sv_phase = ph, sv_free = m, sv_tasks = replicate n c\<rparr>
       \<lparr>sv_phase = ph, sv_free = m + n, sv_tasks = []\<rparr>"
proof (induction n arbitrary: m)
  case (Suc n)
  have "some_step (accept_step work) \<lparr>sv_phase = ph, sv_free = m, sv_tasks = replicate (Suc n) c\<rparr>
      \<lparr>sv_phase = ph, sv_free = Suc m, sv_tasks = replicate n c\<rparr>"
    using finished [of c "\<lparr>sv_phase = ph, sv_free = m, sv_tasks = replicate (Suc n) c\<rparr>" work "fst (work c)" "snd (work c)"]
      Suc.prems
    by (auto simp: some_step_def)
  then show ?case using Suc.IH [OF Suc.prems, of "Suc m"] by (simp add: converse_rtranclp_into_rtranclp)
qed simp

lemma accept_fills_empty:
  "(some_step (accept_step work))\<^sup>*\<^sup>* \<lparr>sv_phase = Acquiring, sv_free = n, sv_tasks = []\<rparr>
     \<lparr>sv_phase = Acquiring, sv_free = 0, sv_tasks = replicate n c\<rparr>"
  using accept_fill [of n n work c] by (simp add: serve_start_def)

lemma accept_frees_all:
  "snd (work c) \<noteq> Stalled \<Longrightarrow>
     (some_step (accept_step work))\<^sup>*\<^sup>* \<lparr>sv_phase = ph, sv_free = 0, sv_tasks = replicate n c\<rparr>
       \<lparr>sv_phase = ph, sv_free = n, sv_tasks = []\<rparr>"
  using accept_frees [of work c ph 0 n] by simp

section \<open>Properties\<close>

text \<open>
  Work is bounded: in every reachable state of the nscd accept loop and of the two loops of the
  DNS front-end, run together, the free permits, the permit of the loop and the running handlers
  add up to the size of the semaphore, so never more connections or datagrams are handled at once,
  in whatever order connections come, accepts fail and handlers end.
\<close>

theorem listeners_bounded:
  assumes "(nscd_serve en execute nf)\<^sup>*\<^sup>* (serve_start (fe_slots nf)) s"
    and "(dns_serve execute df server)\<^sup>*\<^sup>* (serve_start (dn_udp_slots df), serve_start (dn_tcp_slots df)) (u, t)"
  shows "sv_free s + held_permits s + running_tasks s = fe_slots nf \<and> length (sv_tasks s) \<le> fe_slots nf \<and>
         sv_free t + held_permits t + running_tasks t = dn_tcp_slots df \<and> length (sv_tasks t) \<le> dn_tcp_slots df \<and>
         sv_free u + held_permits u + running_tasks u = dn_udp_slots df \<and> length (sv_tasks u) \<le> dn_udp_slots df"
proof -
  from dns_serve_projections [OF assms(2)]
  have "(dns_serve_udp execute df server)\<^sup>*\<^sup>* (serve_start (dn_udp_slots df)) u"
    "(dns_serve_tcp execute df)\<^sup>*\<^sup>* (serve_start (dn_tcp_slots df)) t" by simp_all
  then show ?thesis
    using nscd_slots.permits [OF assms(1)] dns_tcp_slots.permits [of execute df t]
      dns_udp_slots.permits [of execute df server u]
    by (simp add: running_tasks_def)
qed

theorem listeners_bounded_witness:
  "\<exists>s. (nscd_serve Little failing_execute front_deny_all)\<^sup>*\<^sup>* (serve_start 512) s \<and>
     sv_phase s = Accepting \<and> sv_free s + held_permits s + running_tasks s = 512"
proof -
  let ?s = "\<lparr>sv_phase = Accepting, sv_free = 511, sv_tasks = []\<rparr> :: nscd_task serve_state"
  have slots: "fe_slots front_deny_all = 512"
    by (simp add: front_deny_all_def nscd_new_def nscd_with_limits_def NSCD_MAX_CONNECTIONS_def)
  have "nscd_serve Little failing_execute front_deny_all (serve_start 512) ?s"
    using acquire [of "serve_start 512 :: nscd_task serve_state" 511] by (auto simp: serve_steps some_step_def serve_start_def)
  then have r: "(nscd_serve Little failing_execute front_deny_all)\<^sup>*\<^sup>*
      (serve_start (fe_slots front_deny_all)) ?s"
    by (auto simp: slots)
  from listeners_bounded [where df = dns_deny_all, OF this rtranclp.rtrancl_refl]
  have "sv_free ?s + held_permits ?s + running_tasks ?s = 512" by (simp add: slots)
  with r show ?thesis by (auto simp: slots)
qed

text \<open>
  (C23) The accept loops do not end and do not get stuck on failures: in every reachable state of the
  nscd loop and of the DNS loop over TCP, the loop or a handler can go on, except when every permit
  is held by the handler of a client that lets a write, or on nscd the shutdown, wait forever.
  Clients that send nothing, upstream servers that do not answer and failed accepts stop neither.
\<close>

theorem listeners_progress:
  assumes "(nscd_serve en execute nf)\<^sup>*\<^sup>* (serve_start (fe_slots nf)) s"
    and "(dns_serve_tcp execute df)\<^sup>*\<^sup>* (serve_start (dn_tcp_slots df)) t"
  shows "((\<exists>s'. nscd_serve en execute nf s s') \<or>
          (length (sv_tasks s) = fe_slots nf \<and>
           list_all (\<lambda>(cl, net). (\<exists>b. cl_write cl b = Stalled) \<or> cl_shutdown cl = Stalled) (sv_tasks s))) \<and>
         ((\<exists>t'. dns_serve_tcp execute df t t') \<or>
          (length (sv_tasks t) = dn_tcp_slots df \<and>
           list_all (\<lambda>(cl, peer, env, once). \<exists>k. tl_write cl k = Stalled) (sv_tasks t)))"
proof (intro conjI disjCI)
  assume "\<not> (length (sv_tasks s) = fe_slots nf \<and>
    list_all (\<lambda>(cl, net). (\<exists>b. cl_write cl b = Stalled) \<or> cl_shutdown cl = Stalled) (sv_tasks s))"
  then show "\<exists>s'. nscd_serve en execute nf s s'"
    using accept_blocked [OF assms(1) [unfolded serve_steps]] nscd_slots.exhausted [OF assms(1)] handle_stalled
    by (fastforce simp: serve_steps nscd_work_def held_permits_def running_tasks_def list_all_iff)
next
  assume "\<not> (length (sv_tasks t) = dn_tcp_slots df \<and>
    list_all (\<lambda>(cl, peer, env, once). \<exists>k. tl_write cl k = Stalled) (sv_tasks t))"
  then show "\<exists>t'. dns_serve_tcp execute df t t'"
    using accept_blocked [OF assms(2) [unfolded serve_steps]] dns_tcp_slots.exhausted [OF assms(2)]
      serve_tcp_connection_stalled
    by (fastforce simp: serve_steps tcp_work_def held_permits_def running_tasks_def list_all_iff)
qed

theorem listeners_progress_witness:
  "(\<exists>s'. nscd_serve Little failing_execute front_deny_all (serve_start 512) s') \<and>
   (\<exists>t'. dns_serve_tcp failing_execute dns_deny_all (serve_start 512) t')"
proof -
  have slots: "fe_slots front_deny_all = 512" "dn_tcp_slots dns_deny_all = 512"
    by (simp_all add: front_deny_all_def nscd_new_def nscd_with_limits_def NSCD_MAX_CONNECTIONS_def dns_deny_all_def)
  show ?thesis
    using listeners_progress [of Little failing_execute front_deny_all "serve_start 512" dns_deny_all "serve_start 512"]
    by (auto simp: slots serve_start_def)
qed

text \<open>
  (C37) A client that sends queries over TCP and never reads the replies can make its handler wait
  forever; as many such clients as there are permits stop DNS over TCP for everybody.
\<close>

theorem dns_tcp_starvation:
  assumes "snd (serve_tcp_connection execute env fe cl peer once) = Stalled"
  shows "\<exists>s. (dns_serve_tcp execute fe)\<^sup>*\<^sup>* (serve_start (dn_tcp_slots fe)) s \<and>
           length (sv_tasks s) = dn_tcp_slots fe \<and> (\<nexists>s'. dns_serve_tcp execute fe s s')"
proof -
  have "snd (tcp_work execute fe (cl, peer, env, once)) = Stalled" using assms by (simp add: tcp_work_def)
  from accept_starves [of "tcp_work execute fe", OF this, of "dn_tcp_slots fe"] show ?thesis
    unfolding serve_steps by (metis length_replicate)
qed

theorem dns_tcp_starvation_witness:
  "\<exists>s. (dns_serve_tcp failing_execute dns_deny_all)\<^sup>*\<^sup>* (serve_start 512) s \<and> length (sv_tasks s) = 512 \<and>
     (\<nexists>s'. dns_serve_tcp failing_execute dns_deny_all s s')"
proof -
  let ?cl = "\<lparr>tl_local = Inr sender, tl_incoming = (\<lambda>_. \<lparr>inbuf = [0, 1, 0], at_end = Silent\<rparr>),
    tl_write = (\<lambda>_. Stalled)\<rparr>"
  have "read_tcp_message \<lparr>inbuf = [0, 1, 0], at_end = Silent\<rparr> =
      (Ready (Some [0]), \<lparr>inbuf = [], at_end = Silent\<rparr>)" by code_simp
  then have "snd (serve_tcp_connection failing_execute (\<lambda>_. (dead_net, None)) dns_deny_all ?cl sender None) = Stalled"
    by (simp add: serve_tcp_connection_def connection_loop.simps split: prod.split)
  from dns_tcp_starvation [OF this] show ?thesis by (simp add: dns_deny_all_def)
qed

text \<open>
  The policy socket is different: its loop ends with the first accept that fails, whatever came
  before, and with it the daemon, which reports that error.
\<close>

theorem policy_accept_failure_stops_daemon:
  "serve_policy_socket (map Inr cs @ Inl e # rest) = (cs, Some (Inl e)) \<and>
   join_next (map_option Inr (snd (serve_policy_socket (map Inr cs @ Inl e # rest)))) = Inl e"
proof -
  have "serve_policy_socket (map Inr cs @ Inl e # rest) = (cs, Some (Inl e))" by (induction cs) simp_all
  then show ?thesis by (simp add: join_next_def)
qed

end
