(* ===== verification/Service.thy ===== *)
theory Service
  imports Listeners "HOL-Library.Multiset"
begin

text \<open>
  A listener in its environment: a loop whose calls of accept or receive return, one after the other,
  what the environment has for it, with a log of what its handlers have done. The log is written by
  the loop's own labels. What a loop owes its environment is the interface \<open>task_loop\<close>: a connection
  it takes becomes a task, and a task ends only by its handler doing all of its work. That nothing
  is then lost or handled twice is proved once, in the interface, which the four loops implement.
\<close>

section \<open>A loop and its environment\<close>

text \<open>How many results of accept or receive the loop has taken, and the handlers that ended.\<close>

record ('c, 'o) service =
  se_loop :: "'c serve_state"
  se_accepts :: nat
  se_done :: "('c \<times> 'o) list"

definition service_start :: "'c serve_state \<Rightarrow> ('c, 'o) service" where
  "service_start l = \<lparr>se_loop = l, se_accepts = 0, se_done = []\<rparr>"

text \<open>\<open>arrivals n\<close> is what the n-th call of accept or receive returns.\<close>

inductive service_step ::
  "(nat \<Rightarrow> 'c io_result) \<Rightarrow> ('c serve_state \<Rightarrow> ('c, 'o) loop_event \<Rightarrow> 'c serve_state \<Rightarrow> bool)
     \<Rightarrow> ('c, 'o) service \<Rightarrow> ('c, 'o) loop_event \<Rightarrow> ('c, 'o) service \<Rightarrow> bool"
  for arrivals :: "nat \<Rightarrow> 'c io_result"
    and step :: "'c serve_state \<Rightarrow> ('c, 'o) loop_event \<Rightarrow> 'c serve_state \<Rightarrow> bool"
where
  service_took: "step (se_loop s) (Took (arrivals (se_accepts s))) l \<Longrightarrow>
     service_step arrivals step s (Took (arrivals (se_accepts s)))
       (s\<lparr>se_loop := l, se_accepts := Suc (se_accepts s)\<rparr>)"
| service_handled: "step (se_loop s) (Handled c out) l \<Longrightarrow>
     service_step arrivals step s (Handled c out) (s\<lparr>se_loop := l, se_done := se_done s @ [(c, out)]\<rparr>)"
| service_internal: "step (se_loop s) Internal l \<Longrightarrow>
     service_step arrivals step s Internal (s\<lparr>se_loop := l\<rparr>)"

inductive_cases service_stepE: "service_step arrivals step s ev s'"
inductive_simps service_step_simps:
  "service_step arrivals step s Internal s'" "service_step arrivals step s (Took r) s'"
  "service_step arrivals step s (Handled c out) s'"

lemma service_start_simps [simp]:
  "se_loop (service_start l) = l" "se_accepts (service_start l) = 0" "se_done (service_start l) = []"
  by (simp_all add: service_start_def)

lemma service_step_loop: "some_step (service_step arrivals step) s s' \<Longrightarrow> some_step step (se_loop s) (se_loop s')"
  by (auto simp: some_step_def elim!: service_stepE)

lemma service_run_loop:
  "(some_step (service_step arrivals step))\<^sup>*\<^sup>* s s' \<Longrightarrow> (some_step step)\<^sup>*\<^sup>* (se_loop s) (se_loop s')"
  by (induction rule: rtranclp_induct) (auto dest: service_step_loop intro: rtranclp.rtrancl_into_rtrancl)

text \<open>The connections among the first \<open>n\<close> results, and the errors.\<close>

definition successes :: "(nat \<Rightarrow> 'c io_result) \<Rightarrow> nat \<Rightarrow> 'c list" where
  "successes arrivals n = concat (map (\<lambda>k. case arrivals k of Inr c \<Rightarrow> [c] | Inl _ \<Rightarrow> []) [0..<n])"

definition failures :: "(nat \<Rightarrow> 'c io_result) \<Rightarrow> nat \<Rightarrow> io_error list" where
  "failures arrivals n = concat (map (\<lambda>k. case arrivals k of Inl e \<Rightarrow> [e] | Inr _ \<Rightarrow> []) [0..<n])"

lemma successes_simps [simp]:
  "successes arrivals 0 = []"
  "successes arrivals (Suc n) = successes arrivals n @ (case arrivals n of Inr c \<Rightarrow> [c] | Inl _ \<Rightarrow> [])"
  by (simp_all add: successes_def)

lemma failures_simps [simp]:
  "failures arrivals 0 = []"
  "failures arrivals (Suc n) = failures arrivals n @ (case arrivals n of Inl e \<Rightarrow> [e] | Inr _ \<Rightarrow> [])"
  by (simp_all add: failures_def)

section \<open>What a loop owes its environment\<close>

text \<open>
  Every connection that arrived is a task under way or one that was handled, as multisets:
  \<open>task_of\<close> is what a loop keeps of an arrival.
\<close>

definition accounted :: "('c \<Rightarrow> 'c) \<Rightarrow> (nat \<Rightarrow> 'c io_result) \<Rightarrow> ('c, 'o) service \<Rightarrow> bool" where
  "accounted task_of arrivals s \<longleftrightarrow>
     mset (map task_of (successes arrivals (se_accepts s))) =
       mset (sv_tasks (se_loop s)) + mset (map fst (se_done s))"

locale task_loop =
  fixes step :: "'c serve_state \<Rightarrow> ('c, 'o) loop_event \<Rightarrow> 'c serve_state \<Rightarrow> bool"
    and work :: "'c \<Rightarrow> 'o \<times> unit await"
    and task_of :: "'c \<Rightarrow> 'c"
  assumes took_tasks: "step l (Took (Inr c)) l' \<Longrightarrow> sv_tasks l' = sv_tasks l @ [task_of c]"
    and failed_tasks: "step l (Took (Inl e)) l' \<Longrightarrow> sv_tasks l' = sv_tasks l"
    and internal_tasks: "step l Internal l' \<Longrightarrow> sv_tasks l' = sv_tasks l"
    and handled_tasks: "step l (Handled c out) l' \<Longrightarrow>
      c \<in> set (sv_tasks l) \<and> sv_tasks l' = remove1 c (sv_tasks l) \<and> fst (work c) = out \<and> snd (work c) \<noteq> Stalled"
    and can_handle: "c \<in> set (sv_tasks l) \<Longrightarrow> snd (work c) \<noteq> Stalled \<Longrightarrow> \<exists>l'. step l (Handled c (fst (work c))) l'"
begin

lemma accounted_step:
  assumes "service_step arrivals step s ev s'" "accounted task_of arrivals s"
  shows "accounted task_of arrivals s'"
  using assms(1)
proof (cases rule: service_step.cases)
  case (service_took l)
  then show ?thesis
    using assms(2) took_tasks failed_tasks
    by (cases "arrivals (se_accepts s)") (fastforce simp: accounted_def)+
next
  case (service_handled c out l)
  then show ?thesis using assms(2) handled_tasks [OF service_handled(3)] by (simp add: accounted_def)
next
  case (service_internal l)
  then show ?thesis using assms(2) internal_tasks by (simp add: accounted_def)
qed

lemma accounted_run:
  "(some_step (service_step arrivals step))\<^sup>*\<^sup>* (service_start l) s \<Longrightarrow> sv_tasks l = [] \<Longrightarrow> accounted task_of arrivals s"
  by (induction rule: rtranclp_induct)
     (auto simp: accounted_def [of task_of arrivals "service_start l"] some_step_def dest: accounted_step)

lemma done_worked:
  "(some_step (service_step arrivals step))\<^sup>*\<^sup>* (service_start l) s \<Longrightarrow> (c, out) \<in> set (se_done s) \<Longrightarrow>
     fst (work c) = out \<and> snd (work c) \<noteq> Stalled"
  by (induction arbitrary: c out rule: rtranclp_induct)
     (auto simp: some_step_def elim!: service_stepE dest: handled_tasks)

lemma can_finish:
  assumes "c \<in> set (sv_tasks (se_loop s))" "snd (work c) \<noteq> Stalled"
  shows "\<exists>s'. service_step arrivals step s (Handled c (fst (work c))) s' \<and>
           se_done s' = se_done s @ [(c, fst (work c))]"
  using can_handle [OF assms] service_handled [of step s c "fst (work c)"] by fastforce

end

lemma accept_task_loop: "task_loop (accept_step work) work id"
proof
  show "\<exists>l'. accept_step work l (Handled c (fst (work c))) l'"
    if "c \<in> set (sv_tasks l)" "snd (work c) \<noteq> Stalled" for c l
    using that finished [of c l work "fst (work c)" "snd (work c)"] by auto
qed (auto elim!: accept_stepE)

interpretation nscd_tasks: task_loop "nscd_step en execute fe" "nscd_work en execute fe" id for en execute fe
  unfolding nscd_step_def by (rule accept_task_loop)

interpretation tcp_tasks: task_loop "tcp_step execute fe" "tcp_work execute fe" id for execute fe
  unfolding tcp_step_def by (rule accept_task_loop)

interpretation udp_tasks: task_loop "udp_step work" work spawned_job for work
proof
  show "\<exists>l'. udp_step work l (Handled c (fst (work c))) l'"
    if "c \<in> set (sv_tasks l)" "snd (work c) \<noteq> Stalled" for c l
    using that udp_finished [of c l work "fst (work c)" "snd (work c)"] by auto
qed (auto elim!: udp_stepE)

interpretation policy_tasks: task_loop "policy_serve work" work id for work
proof
  show "\<exists>l'. policy_serve work l (Handled c (fst (work c))) l'"
    if "c \<in> set (sv_tasks l)" "snd (work c) \<noteq> Stalled" for c l
    using that policy_finished [of c l work "fst (work c)" "snd (work c)"] by auto
qed (auto elim!: policy_serveE)

section \<open>How the loops end\<close>

text \<open>
  The interface of a loop that the first failed accept or receive ends: it has returned exactly if
  one of the results it took is an error, and then that error, which was the last result it took.
\<close>

locale fatal_loop =
  fixes step :: "'c serve_state \<Rightarrow> ('c, 'o) loop_event \<Rightarrow> 'c serve_state \<Rightarrow> bool"
  assumes took_failure: "step l (Took (Inl e)) l' \<Longrightarrow> stopped l = None \<and> stopped l' = Some (Inl e)"
    and took_success: "step l (Took (Inr c)) l' \<Longrightarrow> stopped l = None \<and> stopped l' = None"
    and handled_keeps: "step l (Handled c out) l' \<Longrightarrow> stopped l' = stopped l"
    and internal_keeps: "step l Internal l' \<Longrightarrow> stopped l' = stopped l"
begin

lemma was_running:
  assumes "service_step arrivals step s ev s'" "stopped (se_loop s') = None"
  shows "stopped (se_loop s) = None"
  using assms(1)
proof (cases rule: service_step.cases)
  case (service_took l)
  then show ?thesis using took_failure took_success by (cases "arrivals (se_accepts s)") auto
next
  case (service_handled c out l)
  then show ?thesis using handled_keeps [OF service_handled(3)] assms(2) by simp
next
  case (service_internal l)
  then show ?thesis using internal_keeps [OF service_internal(3)] assms(2) by simp
qed

lemma end_of_run:
  assumes "(some_step (service_step arrivals step))\<^sup>*\<^sup>* (service_start l) s" "stopped l = None"
  shows "(case stopped (se_loop s) of
     None \<Rightarrow> failures arrivals (se_accepts s) = []
   | Some res \<Rightarrow> (\<exists>e n. res = Inl e \<and> se_accepts s = Suc n \<and> arrivals n = Inl e \<and> failures arrivals n = []))"
  using assms(1)
proof (induction rule: rtranclp_induct)
  case base
  show ?case using assms(2) by simp
next
  case (step s s')
  from step.hyps(2) obtain ev where "service_step arrivals step s ev s'" by (auto simp: some_step_def)
  then show ?case
  proof (cases rule: service_step.cases)
    case (service_took l)
    then show ?thesis
      using step.IH took_failure took_success
      by (cases "arrivals (se_accepts s)") (fastforce split: option.splits)+
  next
    case (service_handled c out l)
    then show ?thesis using step.IH handled_keeps [OF service_handled(3)] by (simp split: option.splits)
  next
    case (service_internal l)
    then show ?thesis using step.IH internal_keeps [OF service_internal(3)] by (simp split: option.splits)
  qed
qed

end

interpretation udp_end: fatal_loop "udp_step work" for work
  by unfold_locales (auto simp: stopped_def elim!: udp_stepE)

interpretation policy_end: fatal_loop "policy_serve work" for work
  by unfold_locales (auto simp: stopped_def elim!: policy_serveE)

lemma accept_loop_endless:
  "(some_step (service_step arrivals (accept_step work)))\<^sup>*\<^sup>* (service_start (serve_start n)) s \<Longrightarrow>
     stopped (se_loop s) = None"
  using accept_never_stops [of work n "se_loop s"] service_run_loop [of arrivals "accept_step work"]
  by (fastforce simp: stopped_def split: phase.split)

section \<open>The policy socket\<close>

lemma serve_policy_socket_snoc:
  "snd (serve_policy_socket as) = None \<Longrightarrow>
     serve_policy_socket (as @ [a]) =
       (case a of
          Inr c \<Rightarrow> (fst (serve_policy_socket as) @ [c], None)
        | Inl e \<Rightarrow> (fst (serve_policy_socket as), Some (Inl e)))"
  by (induction as rule: serve_policy_socket.induct) (auto simp: Let_def split: sum.splits prod.splits)

text \<open>
  The step relation and the function agree: the connections a run has taken, and its end, are those
  of \<open>serve_policy_socket\<close> on the results of accept it has seen.
\<close>

lemma policy_run_accepts:
  assumes "(some_step (service_step arrivals (policy_serve work)))\<^sup>*\<^sup>* (service_start policy_start) s"
  shows "serve_policy_socket (map arrivals [0..<se_accepts s]) =
     (successes arrivals (se_accepts s), stopped (se_loop s))"
  using assms
proof (induction rule: rtranclp_induct)
  case base
  show ?case by (simp add: policy_start_def stopped_def)
next
  case (step s s')
  from step.hyps(2) obtain ev where "service_step arrivals (policy_serve work) s ev s'"
    by (auto simp: some_step_def)
  then show ?case
  proof (cases rule: service_step.cases)
    case (service_took l)
    then show ?thesis
      using step.IH policy_end.took_failure policy_end.took_success
      by (cases "arrivals (se_accepts s)") (fastforce simp: serve_policy_socket_snoc)+
  next
    case (service_handled c out l)
    then show ?thesis using step.IH policy_end.handled_keeps [OF service_handled(3)] by simp
  next
    case (service_internal l)
    then show ?thesis using step.IH policy_end.internal_keeps [OF service_internal(3)] by simp
  qed
qed

lemma policy_phase:
  "(some_step (policy_serve work))\<^sup>*\<^sup>* policy_start l \<Longrightarrow> stopped l = None \<Longrightarrow> sv_phase l = Accepting"
  by (induction rule: rtranclp_induct)
     (auto simp: policy_start_def stopped_def some_step_def elim!: policy_serveE)

end
