(* ===== verification/Running.thy ===== *)
theory Running
  imports Service
begin

text \<open>
  A daemon that serves: its listener tasks, spawned by \<open>main\<close> of \<open>src/daemon.rs\<close>, run side by side,
  each in its environment as in \<open>Service\<close>, in any interleaving, until \<open>main\<close> sees the first of them
  return and exits with its result.
\<close>

section \<open>The state of a running daemon\<close>

definition policy_work ::
  "(string \<Rightarrow> 'j + resolve_request) \<Rightarrow> (resolve_response \<Rightarrow> bytes io_result) \<Rightarrow>
   ('p, 'e, 'v) cel_execute \<Rightarrow> 'p daemon \<Rightarrow> policy_client \<Rightarrow> bytes list \<times> unit await"
where
  "policy_work from_json to_json execute d =
     handle_connection from_json to_json execute (da_engine d) (da_policy_relays d)"

record running =
  rn_policy :: "(policy_client, bytes list) service"
  rn_nscd :: "(nscd_task, nscd_event list) service"
  rn_udp :: "(udp_job, dns_event list \<times> bytes \<times> socket_addr) service"
  rn_tcp :: "(tcp_task, tcp_output list) service"
  rn_exit :: "unit io_result option"

definition running_start :: "'p daemon \<Rightarrow> running" where
  "running_start d =
     \<lparr>rn_policy = service_start policy_start,
      rn_nscd = service_start (serve_start (case da_nscd d of Some fe \<Rightarrow> fe_slots fe | None \<Rightarrow> 0)),
      rn_udp = service_start (serve_start (case da_dns d of Some fe \<Rightarrow> dn_udp_slots fe | None \<Rightarrow> 0)),
      rn_tcp = service_start (serve_start (case da_dns d of Some fe \<Rightarrow> dn_tcp_slots fe | None \<Rightarrow> 0)),
      rn_exit = None\<rparr>"

text \<open>
  What the listener tasks have returned, in the order they were spawned: the policy socket, the nscd
  front-end and the DNS front-end, as far as they are configured.
\<close>

definition dns_result :: "running \<Rightarrow> unit io_result option" where
  "dns_result r = try_join (stopped (se_loop (rn_udp r))) (stopped (se_loop (rn_tcp r)))"

definition listener_results :: "'p daemon \<Rightarrow> running \<Rightarrow> unit io_result option list" where
  "listener_results d r =
     [stopped (se_loop (rn_policy r))] @
     (case da_nscd d of Some _ \<Rightarrow> [stopped (se_loop (rn_nscd r))] | None \<Rightarrow> []) @
     (case da_dns d of Some _ \<Rightarrow> [dns_result r] | None \<Rightarrow> [])"

text \<open>
  What a daemon runs on: the machine, the rule interpreter, the JSON forms, the address of the UDP
  socket, and what the calls of accept and receive of each listener return, one after the other.
\<close>

record ('p, 'e, 'v, 'j) world =
  wo_endianness :: endianness
  wo_execute :: "('p, 'e, 'v) cel_execute"
  wo_from_json :: "string \<Rightarrow> 'j + resolve_request"
  wo_to_json :: "resolve_response \<Rightarrow> bytes io_result"
  wo_udp_local :: "socket_addr io_result"
  wo_policy_accepts :: "nat \<Rightarrow> policy_client io_result"
  wo_nscd_accepts :: "nat \<Rightarrow> nscd_task io_result"
  wo_udp_receives :: "nat \<Rightarrow> udp_job io_result"
  wo_tcp_accepts :: "nat \<Rightarrow> tcp_task io_result"

text \<open>The listener tasks in their environments.\<close>

definition policy_service ::
  "('p, 'e, 'v, 'j) world \<Rightarrow> 'p daemon \<Rightarrow> (policy_client, bytes list) service
     \<Rightarrow> (policy_client, bytes list) loop_event \<Rightarrow> (policy_client, bytes list) service \<Rightarrow> bool"
where
  "policy_service w d =
     service_step (wo_policy_accepts w)
       (policy_serve (policy_work (wo_from_json w) (wo_to_json w) (wo_execute w) d))"

definition nscd_service ::
  "('p, 'e, 'v, 'j) world \<Rightarrow> 'p nscd_frontend \<Rightarrow> (nscd_task, nscd_event list) service
     \<Rightarrow> (nscd_task, nscd_event list) loop_event \<Rightarrow> (nscd_task, nscd_event list) service \<Rightarrow> bool"
where
  "nscd_service w nf = service_step (wo_nscd_accepts w) (nscd_step (wo_endianness w) (wo_execute w) nf)"

definition udp_service ::
  "('p, 'e, 'v, 'j) world \<Rightarrow> 'p dns_frontend \<Rightarrow> socket_addr
     \<Rightarrow> (udp_job, dns_event list \<times> bytes \<times> socket_addr) service
     \<Rightarrow> (udp_job, dns_event list \<times> bytes \<times> socket_addr) loop_event
     \<Rightarrow> (udp_job, dns_event list \<times> bytes \<times> socket_addr) service \<Rightarrow> bool"
where
  "udp_service w df server =
     service_step (wo_udp_receives w) (udp_step (udp_work (wo_execute w) df server))"

definition tcp_service ::
  "('p, 'e, 'v, 'j) world \<Rightarrow> 'p dns_frontend \<Rightarrow> (tcp_task, tcp_output list) service
     \<Rightarrow> (tcp_task, tcp_output list) loop_event \<Rightarrow> (tcp_task, tcp_output list) service \<Rightarrow> bool"
where
  "tcp_service w df = service_step (wo_tcp_accepts w) (tcp_step (wo_execute w) df)"

text \<open>
  One step of one listener task or of \<open>main\<close>. The loop over UDP begins with asking for the address of
  its socket, and returns if that fails. When \<open>try_join!\<close> has its result both DNS loops are dropped,
  while the handlers they spawned go on. \<open>main\<close> waits for a listener task to return, any of those that
  have, and its exit ends everything.
\<close>

definition is_handled :: "('c, 'o) loop_event \<Rightarrow> bool" where
  "is_handled ev \<longleftrightarrow> (case ev of Handled c out \<Rightarrow> True | _ \<Rightarrow> False)"

inductive running_step :: "('p, 'e, 'v, 'j) world \<Rightarrow> 'p daemon \<Rightarrow> running \<Rightarrow> running \<Rightarrow> bool"
  for w :: "('p, 'e, 'v, 'j) world" and d :: "'p daemon"
where
  run_policy: "rn_exit r = None \<Longrightarrow> policy_service w d (rn_policy r) ev s \<Longrightarrow>
     running_step w d r (r\<lparr>rn_policy := s\<rparr>)"
| run_nscd: "rn_exit r = None \<Longrightarrow> da_nscd d = Some nf \<Longrightarrow> nscd_service w nf (rn_nscd r) ev s \<Longrightarrow>
     running_step w d r (r\<lparr>rn_nscd := s\<rparr>)"
| run_udp: "rn_exit r = None \<Longrightarrow> da_dns d = Some df \<Longrightarrow> wo_udp_local w = Inr server \<Longrightarrow>
     udp_service w df server (rn_udp r) ev' s' \<Longrightarrow> dns_result r = None \<or> is_handled ev' \<Longrightarrow>
     running_step w d r (r\<lparr>rn_udp := s'\<rparr>)"
| run_udp_unbound: "rn_exit r = None \<Longrightarrow> da_dns d = Some df \<Longrightarrow> wo_udp_local w = Inl e \<Longrightarrow> dns_result r = None \<Longrightarrow>
     running_step w d r (r\<lparr>rn_udp := (rn_udp r)\<lparr>se_loop := (se_loop (rn_udp r))\<lparr>sv_phase := Stopped (Inl e)\<rparr>\<rparr>\<rparr>)"
| run_tcp: "rn_exit r = None \<Longrightarrow> da_dns d = Some df \<Longrightarrow> tcp_service w df (rn_tcp r) ev'' s'' \<Longrightarrow>
     dns_result r = None \<or> is_handled ev'' \<Longrightarrow> running_step w d r (r\<lparr>rn_tcp := s''\<rparr>)"
| run_exit: "rn_exit r = None \<Longrightarrow> Some res \<in> set (listener_results d r) \<Longrightarrow>
     running_step w d r (r\<lparr>rn_exit := Some (join_next (Some (Inr res)))\<rparr>)"

inductive_cases running_stepE: "running_step w d r r'"

text \<open>The runs of a daemon, from its start.\<close>

definition runs_to :: "('p, 'e, 'v, 'j) world \<Rightarrow> 'p daemon \<Rightarrow> running \<Rightarrow> bool" where
  "runs_to w d r \<longleftrightarrow> (running_step w d)\<^sup>*\<^sup>* (running_start d) r"

section \<open>Runs of a daemon are runs of its listeners\<close>

lemma some_step_run: "(some_step step)\<^sup>*\<^sup>* a s \<Longrightarrow> step s ev s' \<Longrightarrow> (some_step step)\<^sup>*\<^sup>* a s'"
  by (rule rtranclp.rtrancl_into_rtrancl) (auto simp: some_step_def)

lemma running_policy:
  "runs_to w d r \<Longrightarrow> (some_step (policy_service w d))\<^sup>*\<^sup>* (service_start policy_start) (rn_policy r)"
  unfolding runs_to_def
  by (induction rule: rtranclp_induct)
     (auto simp: running_start_def elim!: running_stepE intro: some_step_run)

lemma running_nscd:
  "runs_to w d r \<Longrightarrow> da_nscd d = Some nf \<Longrightarrow>
     (some_step (nscd_service w nf))\<^sup>*\<^sup>* (service_start (serve_start (fe_slots nf))) (rn_nscd r)"
  unfolding runs_to_def
  by (induction rule: rtranclp_induct)
     (auto simp: running_start_def elim!: running_stepE intro: some_step_run)

lemma running_tcp:
  "runs_to w d r \<Longrightarrow> da_dns d = Some df \<Longrightarrow>
     (some_step (tcp_service w df))\<^sup>*\<^sup>* (service_start (serve_start (dn_tcp_slots df))) (rn_tcp r)"
  unfolding runs_to_def
  by (induction rule: rtranclp_induct)
     (auto simp: running_start_def elim!: running_stepE intro: some_step_run)

lemma running_udp:
  "runs_to w d r \<Longrightarrow> da_dns d = Some df \<Longrightarrow> wo_udp_local w = Inr server \<Longrightarrow>
     (some_step (udp_service w df server))\<^sup>*\<^sup>* (service_start (serve_start (dn_udp_slots df))) (rn_udp r)"
  unfolding runs_to_def
  by (induction rule: rtranclp_induct)
     (auto simp: running_start_def elim!: running_stepE intro: some_step_run)

lemma running_udp_unbound:
  "runs_to w d r \<Longrightarrow> da_dns d = Some df \<Longrightarrow> wo_udp_local w = Inl e \<Longrightarrow>
     \<exists>ph \<in> {Acquiring, Stopped (Inl e)}. rn_udp r = service_start (serve_start (dn_udp_slots df)\<lparr>sv_phase := ph\<rparr>)"
  unfolding runs_to_def
  by (induction rule: rtranclp_induct)
     (auto simp: running_start_def serve_start_def service_start_def elim!: running_stepE)

lemma running_without_nscd: "runs_to w d r \<Longrightarrow> da_nscd d = None \<Longrightarrow> rn_nscd r = service_start (serve_start 0)"
  unfolding runs_to_def
  by (induction rule: rtranclp_induct) (auto simp: running_start_def elim!: running_stepE)

lemma running_without_dns:
  "runs_to w d r \<Longrightarrow> da_dns d = None \<Longrightarrow>
     rn_udp r = service_start (serve_start 0) \<and> rn_tcp r = service_start (serve_start 0)"
  unfolding runs_to_def
  by (induction rule: rtranclp_induct) (auto simp: running_start_def elim!: running_stepE)

lemmas running_services = policy_service_def nscd_service_def udp_service_def tcp_service_def

section \<open>What a running daemon does\<close>

text \<open>
  The effects of a service: what the handlers that ended have done, and what those under way do
  until they end, if they do.
\<close>

definition effects :: "('c \<Rightarrow> 'o \<times> unit await) \<Rightarrow> ('c, 'o) service \<Rightarrow> ('c \<times> 'o) set" where
  "effects work s = set (se_done s) \<union> {(c, fst (work c)) | c. c \<in> set (sv_tasks (se_loop s))}"

context task_loop
begin

lemma effects_worked:
  "(some_step (service_step arrivals step))\<^sup>*\<^sup>* (service_start l) s \<Longrightarrow> (c, out) \<in> effects work s \<Longrightarrow> out = fst (work c)"
  by (auto simp: effects_def dest: done_worked)

lemma effects_arrived:
  assumes "accounted task_of arrivals s" "(c, out) \<in> effects work s"
  shows "\<exists>k a. arrivals k = Inr a \<and> c = task_of a"
proof -
  have "c \<in># mset (sv_tasks (se_loop s)) + mset (map fst (se_done s))"
    using assms(2) by (force simp: effects_def)
  then have "c \<in># mset (map task_of (successes arrivals (se_accepts s)))"
    unfolding assms(1) [unfolded accounted_def] .
  then show ?thesis by (auto simp: successes_def split: sum.splits) metis
qed

end


lemma udp_work_reply:
  assumes "fst (udp_work execute df server ((m, peer), env)) = (sent, reply, to)"
  shows "to = peer" "length reply \<le> MAX_MESSAGE" "2 \<le> length m \<Longrightarrow> take 2 reply = take 2 m"
proof -
  have "to = peer" "reply = snd (fst (respond execute (ue_net env) (ue_fs env) (ue_once env) df m peer Udp server))"
    using assms by (auto simp: udp_work_def udp_task_reply_def split: prod.splits)
  then show "to = peer" "length reply \<le> MAX_MESSAGE" "2 \<le> length m \<Longrightarrow> take 2 reply = take 2 m"
    by (simp_all add: respond_length respond_udp_id)
qed


lemma accounted_start: "sv_tasks l = [] \<Longrightarrow> accounted task_of arrivals (service_start l)"
  by (simp add: accounted_def)

lemma serve_start_simps [simp]: "sv_tasks (serve_start n) = []" "stopped (serve_start n) = None"
  by (simp_all add: serve_start_def stopped_def)

lemma policy_start_simps [simp]: "sv_tasks policy_start = []" "stopped policy_start = None"
  by (simp_all add: policy_start_def stopped_def)

lemma running_accounted:
  assumes "runs_to w d r"
  shows "accounted id (wo_policy_accepts w) (rn_policy r)" "accounted id (wo_nscd_accepts w) (rn_nscd r)"
    "accounted spawned_job (wo_udp_receives w) (rn_udp r)" "accounted id (wo_tcp_accepts w) (rn_tcp r)"
proof -
  show "accounted id (wo_policy_accepts w) (rn_policy r)"
    using policy_tasks.accounted_run [OF running_policy [OF assms, unfolded running_services]] by simp
  show "accounted id (wo_nscd_accepts w) (rn_nscd r)"
    using running_without_nscd [OF assms] nscd_tasks.accounted_run [OF running_nscd [OF assms, unfolded running_services]]
    by (cases "da_nscd d") (simp_all add: accounted_start)
  show "accounted id (wo_tcp_accepts w) (rn_tcp r)"
    using running_without_dns [OF assms] tcp_tasks.accounted_run [OF running_tcp [OF assms, unfolded running_services]]
    by (cases "da_dns d") (simp_all add: accounted_start)
  have "da_dns d = Some df \<Longrightarrow> wo_udp_local w = Inl e \<Longrightarrow> accounted spawned_job (wo_udp_receives w) (rn_udp r)" for df e
    using running_udp_unbound [OF assms, of df e] by (auto simp: accounted_start)
  then show "accounted spawned_job (wo_udp_receives w) (rn_udp r)"
    using running_without_dns [OF assms] udp_tasks.accounted_run [OF running_udp [OF assms, unfolded running_services]]
    by (cases "da_dns d"; cases "wo_udp_local w") (simp_all add: accounted_start)
qed

section \<open>How a daemon ends\<close>

text \<open>
  The errors that end a daemon: failed accepts of the policy socket, and with the DNS front-end the
  failed receives and the failed lookup of the socket's own address.
\<close>

definition fatal_errors :: "('p, 'e, 'v, 'j) world \<Rightarrow> 'p daemon \<Rightarrow> running \<Rightarrow> io_error set" where
  "fatal_errors w d r =
     set (failures (wo_policy_accepts w) (se_accepts (rn_policy r))) \<union>
     (if da_dns d = None then {}
      else set (failures (wo_udp_receives w) (se_accepts (rn_udp r))) \<union>
           (case wo_udp_local w of Inl e \<Rightarrow> {e} | Inr _ \<Rightarrow> {}))"

lemma listener_results_iff:
  "Some res \<in> set (listener_results d r) \<longleftrightarrow>
     stopped (se_loop (rn_policy r)) = Some res \<or>
     da_nscd d \<noteq> None \<and> stopped (se_loop (rn_nscd r)) = Some res \<or> da_dns d \<noteq> None \<and> dns_result r = Some res"
  by (cases "da_nscd d"; cases "da_dns d") (auto simp: listener_results_def)

lemma endless_listeners:
  assumes "runs_to w d r"
  shows "stopped (se_loop (rn_nscd r)) = None" "stopped (se_loop (rn_tcp r)) = None"
proof -
  show "stopped (se_loop (rn_nscd r)) = None"
    using running_without_nscd [OF assms] accept_loop_endless
      running_nscd [OF assms, unfolded running_services nscd_step_def]
    by (cases "da_nscd d") auto
  show "stopped (se_loop (rn_tcp r)) = None"
    using running_without_dns [OF assms] accept_loop_endless
      running_tcp [OF assms, unfolded running_services tcp_step_def]
    by (cases "da_dns d") auto
qed

lemma policy_result:
  assumes "runs_to w d r"
  shows "case stopped (se_loop (rn_policy r)) of
     None \<Rightarrow> failures (wo_policy_accepts w) (se_accepts (rn_policy r)) = []
   | Some res \<Rightarrow> (\<exists>e n. res = Inl e \<and> se_accepts (rn_policy r) = Suc n \<and> wo_policy_accepts w n = Inl e \<and>
       failures (wo_policy_accepts w) n = [])"
  using policy_end.end_of_run [OF running_policy [OF assms, unfolded running_services]] by simp

lemma udp_result:
  assumes "runs_to w d r"
  shows "case stopped (se_loop (rn_udp r)) of
     None \<Rightarrow> failures (wo_udp_receives w) (se_accepts (rn_udp r)) = []
   | Some res \<Rightarrow> da_dns d \<noteq> None \<and>
       (\<exists>e. res = Inl e \<and>
          (wo_udp_local w = Inl e \<and> se_accepts (rn_udp r) = 0 \<or>
           (\<exists>n. se_accepts (rn_udp r) = Suc n \<and> wo_udp_receives w n = Inl e \<and> failures (wo_udp_receives w) n = [])))"
proof (cases "da_dns d")
  case None
  then show ?thesis using running_without_dns [OF assms] by simp
next
  case (Some df)
  show ?thesis
  proof (cases "wo_udp_local w")
    case (Inl e)
    then show ?thesis
      using running_udp_unbound [OF assms Some Inl] Some by (auto simp: stopped_def)
  next
    case (Inr server)
    then show ?thesis
      using udp_end.end_of_run [OF running_udp [OF assms Some Inr, unfolded running_services]] Some
      by (auto split: option.splits)
  qed
qed

lemma dns_result_udp: "runs_to w d r \<Longrightarrow> dns_result r = stopped (se_loop (rn_udp r))" if "stopped (se_loop (rn_udp r)) \<noteq> Some (Inr ())"
  using that endless_listeners(2) [of w d r] by (auto simp: dns_result_def try_join_def split: option.splits sum.splits)

lemma listener_result_fatal:
  assumes "runs_to w d r" "Some res \<in> set (listener_results d r)"
  shows "\<exists>e \<in> fatal_errors w d r. res = Inl e"
proof -
  have udp: "stopped (se_loop (rn_udp r)) \<noteq> Some (Inr ())" using udp_result [OF assms(1)] by auto
  consider "stopped (se_loop (rn_policy r)) = Some res" | "da_dns d \<noteq> None" "stopped (se_loop (rn_udp r)) = Some res"
    using assms endless_listeners(1) [OF assms(1)] dns_result_udp [OF udp assms(1)]
    by (auto simp: listener_results_iff)
  then show ?thesis
  proof cases
    case 1
    then show ?thesis using policy_result [OF assms(1)] by (auto simp: fatal_errors_def)
  next
    case 2
    then show ?thesis using udp_result [OF assms(1)] by (auto simp: fatal_errors_def)
  qed
qed

lemma exit_fatal:
  assumes "runs_to w d r" "rn_exit r = Some res"
  shows "\<exists>e \<in> fatal_errors w d r. res = Inl e"
  using assms(1) [unfolded runs_to_def] assms(2)
proof (cases rule: rtranclp.cases)
  case (rtrancl_into_rtrancl b)
  then show ?thesis
    using assms(2) listener_result_fatal [of w d b]
    by (auto simp: runs_to_def fatal_errors_def join_next_def elim!: running_stepE)
qed (simp add: running_start_def)

lemma can_exit:
  assumes "rn_exit r = None" "Some res \<in> set (listener_results d r)"
  shows "\<exists>r'. (running_step w d)\<^sup>*\<^sup>* r r' \<and> rn_exit r' = Some res"
  using run_exit [OF assms, of w] by (auto simp: join_next_def)

lemma fatal_can_exit:
  assumes "runs_to w d r" "rn_exit r = None" "fatal_errors w d r \<noteq> {}"
  shows "\<exists>r' e. e \<in> fatal_errors w d r \<and> (running_step w d)\<^sup>*\<^sup>* r r' \<and> rn_exit r' = Some (Inl e)"
proof (cases "\<exists>res. Some res \<in> set (listener_results d r)")
  case True
  then show ?thesis using can_exit [OF assms(2)] listener_result_fatal [OF assms(1)] by metis
next
  case False
  then have none: "stopped (se_loop (rn_policy r)) = None" "da_dns d \<noteq> None \<Longrightarrow> dns_result r = None"
    unfolding listener_results_iff by (metis option.exhaust)+
  have udp: "stopped (se_loop (rn_udp r)) \<noteq> Some (Inr ())" using udp_result [OF assms(1)] by auto
  obtain df e where e: "da_dns d = Some df" "wo_udp_local w = Inl e" "e \<in> fatal_errors w d r"
    using assms(3) none policy_result [OF assms(1)] udp_result [OF assms(1)] dns_result_udp [OF udp assms(1)]
    by (auto simp: fatal_errors_def split: if_splits sum.splits)
  let ?r = "r\<lparr>rn_udp := (rn_udp r)\<lparr>se_loop := (se_loop (rn_udp r))\<lparr>sv_phase := Stopped (Inl e)\<rparr>\<rparr>\<rparr>"
  have "running_step w d r ?r" using run_udp_unbound [OF assms(2) e(1,2)] none(2) e(1) by simp
  moreover have "Some (Inl e) \<in> set (listener_results d ?r)"
    using e(1) by (simp add: listener_results_iff dns_result_def try_join_def stopped_def)
  ultimately show ?thesis
    using can_exit [of ?r "Inl e" d w] assms(2) e(3) by (auto intro: converse_rtranclp_into_rtranclp)
qed

lemma policy_keeps_accepting:
  assumes "runs_to w d r" "rn_exit r = None" "fatal_errors w d r = {}"
  shows "\<exists>r'. running_step w d r r' \<and> se_accepts (rn_policy r') = Suc (se_accepts (rn_policy r))"
proof -
  let ?work = "policy_work (wo_from_json w) (wo_to_json w) (wo_execute w) d" and ?p = "rn_policy r"
  note run = running_policy [OF assms(1), unfolded running_services]
  have "stopped (se_loop ?p) = None"
    using policy_result [OF assms(1)] assms(3) by (auto simp: fatal_errors_def split: option.splits)
  then have "sv_phase (se_loop ?p) = Accepting"
    using policy_phase service_run_loop [OF run] by simp
  then obtain l where "policy_serve ?work (se_loop ?p) (Took (wo_policy_accepts w (se_accepts ?p))) l"
    using policy_accepted policy_failed by (metis sum.exhaust)
  from run_policy [OF assms(2), of w d, unfolded policy_service_def, OF service_took, OF this]
  show ?thesis by fastforce
qed

section \<open>Handling every request once\<close>

text \<open>
  Every connection that arrived at a listener is under way or was handled, and the log says what
  handling it means: all that its handler does, to the end.
\<close>

definition handled_once ::
  "('c \<Rightarrow> 'o \<times> unit await) \<Rightarrow> ('c \<Rightarrow> 'c) \<Rightarrow> (nat \<Rightarrow> 'c io_result) \<Rightarrow> ('c, 'o) service \<Rightarrow> bool"
where
  "handled_once work task_of arrivals s \<longleftrightarrow>
     mset (map task_of (successes arrivals (se_accepts s))) =
       mset (sv_tasks (se_loop s)) + mset (map fst (se_done s)) \<and>
     list_all (\<lambda>(c, out). out = fst (work c) \<and> snd (work c) \<noteq> Stalled) (se_done s)"

text \<open>A task under way can be handled next, unless its handler never returns.\<close>

definition can_finish_tasks ::
  "('r \<Rightarrow> 'r \<Rightarrow> bool) \<Rightarrow> ('c \<Rightarrow> 'o \<times> unit await) \<Rightarrow> ('r \<Rightarrow> ('c, 'o) service) \<Rightarrow> 'r \<Rightarrow> bool"
where
  "can_finish_tasks step work of_listener r \<longleftrightarrow>
     (\<forall>c \<in> set (sv_tasks (se_loop (of_listener r))).
        snd (work c) \<noteq> Stalled \<longrightarrow>
        (\<exists>r'. step r r' \<and> se_done (of_listener r') = se_done (of_listener r) @ [(c, fst (work c))]))"

context task_loop
begin

lemma handled_once_run:
  assumes "(some_step (service_step arrivals step))\<^sup>*\<^sup>* (service_start l) s" "accounted task_of arrivals s"
  shows "handled_once work task_of arrivals s"
  using assms done_worked [OF assms(1)] by (auto simp: handled_once_def accounted_def list_all_iff)

lemma can_finish_tasksI:
  assumes "\<And>s c out. service_step arrivals step (of_listener r) (Handled c out) s \<Longrightarrow> \<exists>r'. rstep r r' \<and> of_listener r' = s"
  shows "can_finish_tasks rstep work of_listener r"
  unfolding can_finish_tasks_def using can_finish assms by metis

end

lemma running_can_finish:
  assumes "runs_to w d r" "rn_exit r = None"
  shows "can_finish_tasks (running_step w d) (policy_work (wo_from_json w) (wo_to_json w) (wo_execute w) d) rn_policy r"
    and "da_nscd d = Some nf \<Longrightarrow>
      can_finish_tasks (running_step w d) (nscd_work (wo_endianness w) (wo_execute w) nf) rn_nscd r"
    and "da_dns d = Some df \<Longrightarrow> can_finish_tasks (running_step w d) (tcp_work (wo_execute w) df) rn_tcp r"
    and "da_dns d = Some df \<Longrightarrow> wo_udp_local w = Inr server \<Longrightarrow>
      can_finish_tasks (running_step w d) (udp_work (wo_execute w) df server) rn_udp r"
proof -
  show "can_finish_tasks (running_step w d) (policy_work (wo_from_json w) (wo_to_json w) (wo_execute w) d) rn_policy r"
    using run_policy [OF assms(2), of w d]
    by (intro policy_tasks.can_finish_tasksI [of "wo_policy_accepts w"]) (fastforce simp: running_services)
  show "can_finish_tasks (running_step w d) (nscd_work (wo_endianness w) (wo_execute w) nf) rn_nscd r"
    if "da_nscd d = Some nf"
    using run_nscd [OF assms(2) that, of w]
    by (intro nscd_tasks.can_finish_tasksI [of "wo_nscd_accepts w"]) (fastforce simp: running_services)
  show "can_finish_tasks (running_step w d) (tcp_work (wo_execute w) df) rn_tcp r"
    if "da_dns d = Some df"
    using run_tcp [OF assms(2) that, of w]
    by (intro tcp_tasks.can_finish_tasksI [of "wo_tcp_accepts w"]) (fastforce simp: running_services is_handled_def)
  show "can_finish_tasks (running_step w d) (udp_work (wo_execute w) df server) rn_udp r"
    if "da_dns d = Some df" "wo_udp_local w = Inr server"
    using run_udp [OF assms(2) that]
    by (intro udp_tasks.can_finish_tasksI [of "wo_udp_receives w"]) (fastforce simp: running_services is_handled_def)
qed

section \<open>Properties\<close>


text \<open>
  (C6) No request is lost, handled twice or answered to somebody else. In every state a daemon
  reaches, the connections and datagrams that the calls of accept and receive of a listener have
  returned so far are, as multisets, its tasks under way and those it has handled, where handling is
  all that the handler of that very connection or datagram does, to its end. A task under way can be
  handled next unless its handler never returns. Each front-end works on at most as many as its limit
  allows; and the reply to a datagram goes to its sender, with its id, and fits a datagram.
\<close>

theorem every_request_handled_once:
  assumes "runs_to w d r"
  shows "handled_once (policy_work (wo_from_json w) (wo_to_json w) (wo_execute w) d) id (wo_policy_accepts w) (rn_policy r) \<and>
         (da_nscd d = Some nf \<longrightarrow>
            handled_once (nscd_work (wo_endianness w) (wo_execute w) nf) id (wo_nscd_accepts w) (rn_nscd r) \<and>
            length (sv_tasks (se_loop (rn_nscd r))) \<le> fe_slots nf) \<and>
         (da_dns d = Some df \<longrightarrow>
            handled_once (tcp_work (wo_execute w) df) id (wo_tcp_accepts w) (rn_tcp r) \<and>
            length (sv_tasks (se_loop (rn_tcp r))) \<le> dn_tcp_slots df) \<and>
         (da_dns d = Some df \<longrightarrow> wo_udp_local w = Inr server \<longrightarrow>
            handled_once (udp_work (wo_execute w) df server) spawned_job (wo_udp_receives w) (rn_udp r) \<and>
            length (sv_tasks (se_loop (rn_udp r))) \<le> dn_udp_slots df \<and>
            ((((m, peer), uenv), sent, reply, to) \<in> set (se_done (rn_udp r)) \<longrightarrow>
               to = peer \<and> length reply \<le> MAX_MESSAGE \<and> (2 \<le> length m \<longrightarrow> take 2 reply = take 2 m))) \<and>
         (rn_exit r = None \<longrightarrow>
            can_finish_tasks (running_step w d) (policy_work (wo_from_json w) (wo_to_json w) (wo_execute w) d) rn_policy r \<and>
            (da_nscd d = Some nf \<longrightarrow>
               can_finish_tasks (running_step w d) (nscd_work (wo_endianness w) (wo_execute w) nf) rn_nscd r) \<and>
            (da_dns d = Some df \<longrightarrow>
               can_finish_tasks (running_step w d) (tcp_work (wo_execute w) df) rn_tcp r \<and>
               (wo_udp_local w = Inr server \<longrightarrow>
                  can_finish_tasks (running_step w d) (udp_work (wo_execute w) df server) rn_udp r)))"
proof (intro conjI impI)
  note acc = running_accounted [OF assms]
  show "handled_once (policy_work (wo_from_json w) (wo_to_json w) (wo_execute w) d) id (wo_policy_accepts w) (rn_policy r)"
    using policy_tasks.handled_once_run [OF running_policy [OF assms, unfolded running_services] acc(1)] .
  { assume nf: "da_nscd d = Some nf"
    note run = running_nscd [OF assms nf, unfolded running_services]
    show "handled_once (nscd_work (wo_endianness w) (wo_execute w) nf) id (wo_nscd_accepts w) (rn_nscd r)"
      using nscd_tasks.handled_once_run [OF run acc(2)] .
    show "length (sv_tasks (se_loop (rn_nscd r))) \<le> fe_slots nf"
      using nscd_slots.bounded service_run_loop [OF run] by (simp add: running_tasks_def nscd_serve_def) }
  { assume df: "da_dns d = Some df"
    note run = running_tcp [OF assms df, unfolded running_services]
    show "handled_once (tcp_work (wo_execute w) df) id (wo_tcp_accepts w) (rn_tcp r)"
      using tcp_tasks.handled_once_run [OF run acc(4)] .
    show "length (sv_tasks (se_loop (rn_tcp r))) \<le> dn_tcp_slots df"
      using dns_tcp_slots.bounded service_run_loop [OF run] by (simp add: running_tasks_def dns_serve_tcp_def) }
  { assume udp: "da_dns d = Some df" "wo_udp_local w = Inr server"
    note run = running_udp [OF assms udp, unfolded running_services]
    show "handled_once (udp_work (wo_execute w) df server) spawned_job (wo_udp_receives w) (rn_udp r)"
      using udp_tasks.handled_once_run [OF run acc(3)] .
    show "length (sv_tasks (se_loop (rn_udp r))) \<le> dn_udp_slots df"
      using dns_udp_slots.bounded service_run_loop [OF run] by (simp add: running_tasks_def dns_serve_udp_def)
    assume "(((m, peer), uenv), sent, reply, to) \<in> set (se_done (rn_udp r))"
    then have "fst (udp_work (wo_execute w) df server ((m, peer), uenv)) = (sent, reply, to)"
      using udp_tasks.done_worked [OF run] by blast
    from udp_work_reply [OF this]
    show "to = peer" "length reply \<le> MAX_MESSAGE" "2 \<le> length m \<Longrightarrow> take 2 reply = take 2 m" by simp_all }
qed (simp_all add: running_can_finish [OF assms])

text \<open>
  (C19) How a daemon ends: never successfully, and only with the error of a failed accept of the
  policy socket, of a failed receive over UDP, or of the lookup of the UDP socket's own address.
  Until one of these fails, the policy socket can always take its next connection; once one has, the
  daemon can end with such an error, and the listener that failed takes nothing more. Failing accepts
  of the two other listeners, failing handlers and handlers that never return do not end it.
\<close>

theorem daemon_end:
  assumes "runs_to w d r"
  shows "(case rn_exit r of
            Some res \<Rightarrow> \<exists>e \<in> fatal_errors w d r. res = Inl e
          | None \<Rightarrow>
              if fatal_errors w d r = {}
              then \<exists>r'. running_step w d r r' \<and> se_accepts (rn_policy r') = Suc (se_accepts (rn_policy r))
              else \<exists>r' e. e \<in> fatal_errors w d r \<and> (running_step w d)\<^sup>*\<^sup>* r r' \<and> rn_exit r' = Some (Inl e)) \<and>
         failures (wo_policy_accepts w) (se_accepts (rn_policy r) - 1) = [] \<and>
         failures (wo_udp_receives w) (se_accepts (rn_udp r) - 1) = []"
proof (intro conjI)
  show "case rn_exit r of
      Some res \<Rightarrow> \<exists>e \<in> fatal_errors w d r. res = Inl e
    | None \<Rightarrow>
        if fatal_errors w d r = {}
        then \<exists>r'. running_step w d r r' \<and> se_accepts (rn_policy r') = Suc (se_accepts (rn_policy r))
        else \<exists>r' e. e \<in> fatal_errors w d r \<and> (running_step w d)\<^sup>*\<^sup>* r r' \<and> rn_exit r' = Some (Inl e)"
    using exit_fatal [OF assms] fatal_can_exit [OF assms] policy_keeps_accepting [OF assms]
    by (cases "rn_exit r") auto
  have shorter: "failures arrivals n = [] \<Longrightarrow> failures arrivals (n - 1) = []" for arrivals :: "nat \<Rightarrow> 'x io_result" and n
    by (cases n) simp_all
  show "failures (wo_policy_accepts w) (se_accepts (rn_policy r) - 1) = []"
    using policy_result [OF assms] shorter by (auto split: option.splits)
  show "failures (wo_udp_receives w) (se_accepts (rn_udp r) - 1) = []"
    using udp_result [OF assms] shorter by (auto split: option.splits)
qed

section \<open>An example\<close>


definition open_nscd :: "unit nscd_frontend" where
  "open_nscd = two_front_nscd\<lparr>fe_engine := empty_engine\<rparr>"

definition open_dns :: "unit dns_frontend" where
  "open_dns = two_front_dns\<lparr>dn_engine := empty_engine\<rparr>"

definition open_daemon :: "unit daemon" where
  "open_daemon =
     \<lparr>da_engine = empty_engine, da_policy_relays = relays_default, da_nscd = Some open_nscd, da_dns = Some open_dns\<rparr>"


definition user_client :: nscd_client where
  "user_client =
     \<lparr>cl_cred = Inr \<lparr>cred_pid = 7, cred_uid = 1000, cred_gid = 100\<rparr>,
      cl_incoming = (\<lambda>_. \<lparr>inbuf = encode Little GetPwByName [97, 0], at_end = Silent\<rparr>),
      cl_write = (\<lambda>_. Ready ()), cl_shutdown = Ready ()\<rparr>"

definition user_net :: unix_net where
  "user_net = (\<lambda>_ _. Ready \<lparr>uc_write = (\<lambda>_. Ready ()), uc_answer = (\<lambda>_. \<lparr>inbuf = [7], at_end = Closed\<rparr>)\<rparr>)"

definition query_job :: udp_job where
  "query_job =
     ((query_a, sender),
      \<lparr>ue_net = dead_net\<lparr>net_udp_bind :=
         (\<lambda>_ _. Ready \<lparr>us_connect = (\<lambda>_. Ready ()), us_send = (\<lambda>_. Ready ()), us_recv = (\<lambda>_. [])\<rparr>)\<rparr>,
       ue_fs = Some one_socket, ue_once = None, ue_send = Ready ()\<rparr>)"

definition open_world :: "(unit, unit, unit, unit) world" where
  "open_world =
     \<lparr>wo_endianness = Little, wo_execute = failing_execute, wo_from_json = (\<lambda>_. Inl ()),
      wo_to_json = (\<lambda>_. Inr []), wo_udp_local = Inr sender, wo_policy_accepts = (\<lambda>_. Inl KOther),
      wo_nscd_accepts = (\<lambda>n. if n = 0 then Inl KOther else Inr (user_client, user_net)),
      wo_udp_receives = (\<lambda>_. Inr query_job), wo_tcp_accepts = (\<lambda>_. Inl KOther)\<rparr>"

text \<open>The nscd front-end works on a client's request, and a datagram has been answered.\<close>

definition busy_nscd :: "(nscd_task, nscd_event list) service" where
  "busy_nscd =
     \<lparr>se_loop = \<lparr>sv_phase = Acquiring, sv_free = 511, sv_tasks = [(user_client, user_net)]\<rparr>,
      se_accepts = 2, se_done = []\<rparr>"

definition busy_udp :: "(udp_job, dns_event list \<times> bytes \<times> socket_addr) service" where
  "busy_udp =
     \<lparr>se_loop = \<lparr>sv_phase = Acquiring, sv_free = 512, sv_tasks = []\<rparr>,
      se_accepts = 1, se_done = [(query_job, [UdpSend sender query_a], servfail (projr (query_parse query_a)), sender)]\<rparr>"

definition busy :: running where
  "busy = (running_start open_daemon)\<lparr>rn_nscd := busy_nscd, rn_udp := busy_udp\<rparr>"

lemma open_parts [simp]:
  "da_engine open_daemon = empty_engine" "da_nscd open_daemon = Some open_nscd" "da_dns open_daemon = Some open_dns"
  "fe_slots open_nscd = 512" "dn_udp_slots open_dns = 512" "dn_upstream open_dns = sender"
  "dn_relays open_dns = relays_default" "dn_engine open_dns = empty_engine"
  by (simp_all add: open_daemon_def open_nscd_def open_dns_def two_front_nscd_def two_front_dns_def nscd_new_def
        nscd_with_limits_def NSCD_MAX_CONNECTIONS_def DNS_MAX_CONNECTIONS_def)

lemma open_world_simps [simp]:
  "wo_endianness open_world = Little" "wo_execute open_world = failing_execute" "wo_udp_local open_world = Inr sender"
  "wo_policy_accepts open_world n = Inl KOther" "wo_udp_receives open_world n = Inr query_job"
  "wo_nscd_accepts open_world n = (if n = 0 then Inl KOther else Inr (user_client, user_net))"
  by (simp_all add: open_world_def)


lemma query_job_handled:
  "udp_work failing_execute open_dns sender query_job =
     (([UdpSend sender query_a], servfail (projr (query_parse query_a)), sender), Ready ())"
proof -
  have "evaluate_for failing_execute empty_engine nm c = PassThrough" for nm c
    by (simp add: evaluate_for_def empty_engine_def)
  moreover obtain c once' where "identify_caller (Some one_socket) None open_dns sender Udp sender = (c, once')"
    by fastforce
  ultimately show ?thesis
    using query_a_parses
    by (simp add: udp_work_def udp_task_reply_def query_job_def respond_def respond_as_def dns_forward_def
          forward_udp_def dead_net_def timeout_def relays_contains_def relays_default_def await_bind_def split: option.split)
qed

text \<open>Runs of one listener are runs of the daemon.\<close>

lemma runs_nscd:
  assumes "(some_step (nscd_service w nf))\<^sup>*\<^sup>* (rn_nscd r) s" "runs_to w d r" "rn_exit r = None" "da_nscd d = Some nf"
  shows "runs_to w d (r\<lparr>rn_nscd := s\<rparr>)"
  using assms(1)
proof (induction rule: rtranclp_induct)
  case base
  show ?case using assms(2) by simp
next
  case (step s s')
  then obtain ev where "nscd_service w nf s ev s'" by (auto simp: some_step_def)
  from run_nscd [of "r\<lparr>rn_nscd := s\<rparr>", OF _ assms(4)] this assms(3)
  have "running_step w d (r\<lparr>rn_nscd := s\<rparr>) (r\<lparr>rn_nscd := s'\<rparr>)" by fastforce
  with step.IH show ?case unfolding runs_to_def by (rule rtranclp.rtrancl_into_rtrancl)
qed

lemma runs_udp:
  assumes "(some_step (udp_service w df server))\<^sup>*\<^sup>* (rn_udp r) s" "stopped (se_loop s) = None" "runs_to w d r"
    "rn_exit r = None" "da_dns d = Some df" "wo_udp_local w = Inr server"
  shows "runs_to w d (r\<lparr>rn_udp := s\<rparr>)"
  using assms(1,2)
proof (induction rule: rtranclp_induct)
  case base
  show ?case using assms(3) by simp
next
  case (step s s')
  then obtain ev where ev: "udp_service w df server s ev s'" by (auto simp: some_step_def)
  then have s: "stopped (se_loop s) = None"
    using step.prems udp_end.was_running unfolding udp_service_def by blast
  then have "dns_result (r\<lparr>rn_udp := s\<rparr>) = None"
    using endless_listeners(2) [OF assms(3)] by (simp add: dns_result_def try_join_def)
  then have "running_step w d (r\<lparr>rn_udp := s\<rparr>) (r\<lparr>rn_udp := s'\<rparr>)"
    using run_udp [of "r\<lparr>rn_udp := s\<rparr>", OF _ assms(5,6), of ev s'] ev assms(4) by simp
  with step.IH [OF s] show ?case unfolding runs_to_def by (rule rtranclp.rtrancl_into_rtrancl)
qed

lemma busy_nscd_reached:
  "(some_step (nscd_service open_world open_nscd))\<^sup>*\<^sup>* (service_start (serve_start 512)) busy_nscd"
proof -
  let ?step = "nscd_service open_world open_nscd"
  let ?s = "\<lambda>ph free n. \<lparr>se_loop = \<lparr>sv_phase = ph, sv_free = free, sv_tasks = []\<rparr>, se_accepts = n, se_done = []\<rparr>
    :: (nscd_task, nscd_event list) service"
  note steps = nscd_service_def nscd_step_def service_step_simps accept_step_simps
  have "?step (?s Acquiring 512 0) Internal (?s Accepting 511 0)" by (simp add: steps)
  moreover have "?step (?s Accepting 511 0) (Took (Inl KOther)) (?s Sleeping 511 1)" by (simp add: steps)
  moreover have "?step (?s Sleeping 511 1) Internal (?s Acquiring 512 1)" by (simp add: steps)
  moreover have "?step (?s Acquiring 512 1) Internal (?s Accepting 511 1)" by (simp add: steps)
  moreover have "?step (?s Accepting 511 1) (Took (Inr (user_client, user_net))) busy_nscd"
    by (simp add: steps busy_nscd_def)
  ultimately have "(some_step ?step)\<^sup>*\<^sup>* (?s Acquiring 512 0) busy_nscd"
    using rtranclp.rtrancl_refl [of "some_step ?step" "?s Acquiring 512 0"] by (blast dest: some_step_run)
  then show ?thesis by (simp add: service_start_def serve_start_def)
qed

lemma query_a_length: "length query_a = 19"
  by code_simp

lemma busy_udp_reached:
  "(some_step (udp_service open_world open_dns sender))\<^sup>*\<^sup>* (service_start (serve_start 512)) busy_udp"
proof -
  let ?step = "udp_service open_world open_dns sender"
  let ?s = "\<lambda>ph free ts n. \<lparr>se_loop = \<lparr>sv_phase = ph, sv_free = free, sv_tasks = ts\<rparr>, se_accepts = n, se_done = []\<rparr>
    :: (udp_job, dns_event list \<times> bytes \<times> socket_addr) service"
  let ?out = "([UdpSend sender query_a], servfail (projr (query_parse query_a)), sender)"
  note steps = udp_service_def service_step_simps udp_step_simps
  have job: "spawned_job query_job = query_job"
    using query_a_length by (simp add: spawned_job_def query_job_def received_def MAX_MESSAGE_def)
  have "?step (?s Acquiring 512 [] 0) Internal (?s Accepting 511 [] 0)" by (simp add: steps)
  moreover have "?step (?s Accepting 511 [] 0) (Took (Inr query_job)) (?s Acquiring 511 [query_job] 1)"
    using job by (simp add: steps) (metis prod.exhaust)
  moreover have "?step (?s Acquiring 511 [query_job] 1) (Handled query_job ?out) busy_udp"
    by (simp add: steps busy_udp_def query_job_handled)
  ultimately have "(some_step ?step)\<^sup>*\<^sup>* (?s Acquiring 512 [] 0) busy_udp"
    using rtranclp.rtrancl_refl [of "some_step ?step" "?s Acquiring 512 [] 0"] by (blast dest: some_step_run)
  then show ?thesis by (simp add: service_start_def serve_start_def)
qed

lemma busy_reached: "runs_to open_world open_daemon busy"
proof -
  let ?r0 = "running_start open_daemon"
  have "runs_to open_world open_daemon ?r0" by (simp add: runs_to_def)
  from runs_nscd [OF _ this, of open_nscd busy_nscd] busy_nscd_reached
  have nscd: "runs_to open_world open_daemon (?r0\<lparr>rn_nscd := busy_nscd\<rparr>)" by (simp add: running_start_def)
  from runs_udp [OF _ _ this, of open_dns sender busy_udp] busy_udp_reached
  show ?thesis by (simp add: busy_def busy_udp_def running_start_def stopped_def)
qed


theorem every_request_handled_once_witness:
  "handled_once (nscd_work Little failing_execute open_nscd) id (wo_nscd_accepts open_world) busy_nscd \<and>
   handled_once (udp_work failing_execute open_dns sender) spawned_job (wo_udp_receives open_world) busy_udp \<and>
   can_finish_tasks (running_step open_world open_daemon) (nscd_work Little failing_execute open_nscd) rn_nscd busy \<and>
   se_done busy_udp = [(query_job, [UdpSend sender query_a], servfail (projr (query_parse query_a)), sender)]"
  using every_request_handled_once [OF busy_reached, of open_nscd open_dns sender]
  by (simp add: busy_def busy_udp_def running_start_def)

theorem daemon_end_witness:
  "(\<exists>r. running_step open_world open_daemon busy r) \<and>
   (\<exists>r. runs_to open_world open_daemon r \<and> rn_exit r = Some (Inl KOther))"
proof -
  have udp: "failures (wo_udp_receives open_world) n = []" for n by (induction n) simp_all
  have "fatal_errors open_world open_daemon busy = {}" "rn_exit busy = None"
    by (simp_all add: fatal_errors_def udp busy_def running_start_def)
  with daemon_end [OF busy_reached] obtain r where r: "running_step open_world open_daemon busy r"
    "se_accepts (rn_policy r) = 1" by (auto simp: busy_def running_start_def)
  from r(1) busy_reached have run: "runs_to open_world open_daemon r"
    unfolding runs_to_def by (meson rtranclp.rtrancl_into_rtrancl)
  have "fatal_errors open_world open_daemon r = {KOther}"
    using r(2) by (simp add: fatal_errors_def udp)
  with daemon_end [OF run] obtain r' where "(running_step open_world open_daemon)\<^sup>*\<^sup>* r r'" "rn_exit r' = Some (Inl KOther)"
    by (cases "rn_exit r") auto
  with r run show ?thesis unfolding runs_to_def by (meson rtranclp_trans)
qed

end
