(* ===== verification/Client_View.thy ===== *)
theory Client_View
  imports Nscd_Frontend Dns_Frontend Policy_Socket
begin

text \<open>
  The replies as the clients read them: a decoder for the replies of nscd, following the layout
  glibc reads, and one for DNS messages, following RFC 1035. Both are written from the side of the
  client and share nothing with the encoders but the layout; that they recover what was encoded
  shows that the three protocols give their clients the same addresses.
\<close>

section \<open>Addresses in network order\<close>

interpretation u128be: fixed_codec 16 "to_be_bytes 16 :: 128 word \<Rightarrow> bytes" from_be_bytes
proof
  fix bs :: bytes
  assume "length bs = 16"
  then show "to_be_bytes 16 (from_be_bytes bs :: 128 word) = bs"
    using le_bytes_le_word [where 'a = 128, of "rev bs"]
    by (simp del: le_bytes_numeral add: to_be_bytes_def from_be_bytes_def)
qed (simp_all del: le_bytes_numeral
       add: to_be_bytes_def from_be_bytes_def le_word_le_bytes take_bit_full_word)

definition of_octets :: "bytes \<Rightarrow> ip_addr option" where
  "of_octets bs =
     (if length bs = 4 then Some (V4 (from_be_bytes bs))
      else if length bs = 16 then Some (V6 (from_be_bytes bs))
      else None)"

lemma of_octets_octets [simp]: "of_octets (octets a) = Some a"
  by (cases a) (simp_all add: of_octets_def octets_def u32be.dec_enc u128be.dec_enc)

text \<open>Addresses of given lengths, one after the other; also what follows them.\<close>

fun read_addrs :: "nat list \<Rightarrow> bytes \<Rightarrow> (ip_addr list \<times> bytes) option" where
  "read_addrs [] bs = Some ([], bs)"
| "read_addrs (n # ns) bs =
     (if length bs < n then None
      else
        case of_octets (take n bs) of
          None \<Rightarrow> None
        | Some a \<Rightarrow> map_option (apfst (Cons a)) (read_addrs ns (drop n bs)))"

lemma read_addrs_octets [simp]:
  "read_addrs (map (\<lambda>a. length (octets a)) addrs) (concat (map octets addrs) @ rest) = Some (addrs, rest)"
  by (induction addrs) simp_all

section \<open>Replies of nscd\<close>

datatype host_answer = HostFound bytes "ip_addr list" | HostError i32 | Unusable

definition client_ai :: "endianness \<Rightarrow> bytes \<Rightarrow> host_answer" where
  "client_ai en bs =
     (if length bs < 24 \<or> int_at en bs 0 \<noteq> 2 then Unusable
      else if int_at en bs 4 = 0 then HostError (int_at en bs 20)
      else if int_at en bs 4 = 1 then
        let naddrs = unat (int_at en bs 8); addrslen = unat (int_at en bs 12); canonlen = unat (int_at en bs 16);
            packed = take addrslen (drop 24 bs);
            families = take naddrs (drop (24 + addrslen) bs);
            canon = drop (24 + addrslen + naddrs) bs
        in case read_addrs (map (\<lambda>f. if f = 2 then 4 else 16) families) packed of
             Some (addrs, []) \<Rightarrow>
               if length addrs = naddrs \<and> length canon = canonlen then HostFound canon addrs else Unusable
           | _ \<Rightarrow> Unusable
      else Unusable)"

definition client_hst :: "endianness \<Rightarrow> bytes \<Rightarrow> host_answer" where
  "client_hst en bs =
     (if length bs < 32 \<or> int_at en bs 0 \<noteq> 2 then Unusable
      else if int_at en bs 4 = 0 then HostError (int_at en bs 28)
      else if int_at en bs 4 = 1 then
        let name_len = unat (int_at en bs 8); aliases = unat (int_at en bs 12);
            addr_len = unat (int_at en bs 20); count = unat (int_at en bs 24)
        in case read_addrs (replicate count addr_len) (drop (32 + name_len + 4 * aliases) bs) of
             Some (addrs, []) \<Rightarrow> HostFound (take name_len (drop 32 bs)) addrs
           | _ \<Rightarrow> Unusable
      else Unusable)"

definition client_host :: "endianness \<Rightarrow> request_type \<Rightarrow> bytes \<Rightarrow> host_answer" where
  "client_host en t bs = (if t = GetAi then client_ai en bs else client_hst en bs)"

text \<open>What a request type asks for.\<close>

definition asked_addrs :: "request_type \<Rightarrow> ip_addr list \<Rightarrow> ip_addr list" where
  "asked_addrs t addrs =
     (if t = GetAi then addrs else if t = GetHostByName then filter is_ipv4 addrs
      else filter (\<lambda>a. \<not> is_ipv4 a) addrs)"

lemma unat_i32: "n < 2 ^ 31 \<Longrightarrow> unat (word_of_nat n :: i32) = n"
  by (simp add: unat_of_nat)

lemma address_bytes_octets: "address_bytes = octets"
  by (rule ext) (simp add: address_bytes_def)

lemma family_length:
  "(if (ucast (address_family a) :: byte) = 2 then 4 else 16) = length (octets a)"
  by (simp add: address_family_def AF_INET_def AF_INET6_def octets_def split: ip_addr.split)

lemma not_found_decodes: "client_host en t (not_found en t err) = HostError err"
  using length_ai_reply [of en 0 err "[]" "[]"] length_hst_reply [of en 0 err "[]" "-1" "[]"]
  by (simp add: client_host_def client_ai_def client_hst_def not_found_cases ai_not_found_def hst_not_found_def
        ai_fields hst_fields VERSION_def)

lemma ai_found_decodes:
  assumes "length nm < 2 ^ 30" "length addrs < 2 ^ 26"
  shows "client_ai en (ai_found en nm addrs) = HostFound (as_bytes nm @ [0]) addrs"
proof -
  let ?r = "ai_reply en 1 0 nm addrs" and ?p = "concat (map octets addrs)"
  let ?fams = "map (\<lambda>a. ucast (address_family a) :: byte) addrs"
  have body: "drop 24 ?r = ?p @ ?fams @ as_bytes nm @ [0]"
    by (simp add: ai_body address_bytes_octets)
  have "drop (24 + n) ?r = drop n (drop 24 ?r)" for n by (simp add: add.commute)
  then have parts: "take (length ?p) (drop 24 ?r) = ?p" "take (length addrs) (drop (24 + length ?p) ?r) = ?fams"
    "drop (24 + length ?p + length addrs) ?r = as_bytes nm @ [0]"
    by (simp_all add: body add.assoc del: drop_drop)
  have n: "unat (int_at en ?r 8) = length addrs" "unat (int_at en ?r 12) = length ?p"
    "unat (int_at en ?r 16) = Suc (length nm)"
    using assms length_packed_le [of addrs] unat_i32 [of "length addrs"] unat_i32 [of "length ?p"]
      unat_i32 [of "Suc (length nm)"]
    by (simp_all add: ai_fields address_bytes_octets)
  show ?thesis
    using read_addrs_octets [of addrs "[]"] length_ai_reply [of en 1 0 nm addrs]
    by (simp add: client_ai_def ai_found_def ai_fields(1,2) n parts VERSION_def Let_def comp_def family_length)
qed

lemma hst_found_decodes:
  assumes "length nm < 2 ^ 30" "length addrs < 2 ^ 26" "list_all (\<lambda>a. address_family a = family) addrs"
    and "family = AF_INET \<or> family = AF_INET6"
  shows "client_hst en (hst_reply en 1 0 nm family addrs) = HostFound (as_bytes nm @ [0]) addrs"
proof -
  let ?r = "hst_reply en 1 0 nm family addrs" and ?len = "if family = AF_INET6 then 16 else 4 :: nat"
  have body: "drop 32 ?r = as_bytes nm @ [0] @ concat (map octets addrs)"
    by (simp add: hst_body address_bytes_octets)
  have "drop (33 + length nm) ?r = drop (Suc (length nm)) (drop 32 ?r)" by simp
  then have parts: "take (Suc (length nm)) (drop 32 ?r) = as_bytes nm @ [0]"
    "drop (33 + length nm) ?r = concat (map octets addrs)"
    by (simp_all add: body del: drop_drop)
  have "word_of_nat (length nm) + 1 = (word_of_nat (Suc (length nm)) :: i32)" by simp
  then have n: "unat (int_at en ?r 8) = Suc (length nm)" "unat (int_at en ?r 12) = 0"
    "unat (int_at en ?r 20) = ?len" "unat (int_at en ?r 24) = length addrs"
    using assms(1,2) unat_i32 [of "length addrs"] unat_i32 [of "Suc (length nm)"]
    by (simp_all only: hst_fields) simp_all
  have "replicate (length addrs) ?len = map (\<lambda>a. length (octets a)) addrs"
    using assms(3,4) unfolding map_replicate_const [symmetric]
    by (auto simp: list_all_iff address_family_def AF_INET_def AF_INET6_def octets_def split: ip_addr.splits)
  then show ?thesis
    using read_addrs_octets [of addrs "[]"] length_hst_reply [of en 1 0 nm family addrs]
    by (simp add: client_hst_def hst_fields(1,2) n parts VERSION_def Let_def del: replicate.simps)
qed

lemma family_filters:
  "filter (\<lambda>a. address_family a = AF_INET) addrs = filter is_ipv4 addrs"
  "filter (\<lambda>a. address_family a = AF_INET6) addrs = filter (\<lambda>a. \<not> is_ipv4 a) addrs"
  by (simp_all add: address_family_def is_ipv4_def AF_INET_def AF_INET6_def cong: filter_cong split: ip_addr.split)

lemma hst_case_decodes:
  assumes "length nm < 2 ^ 30" "length addrs < 2 ^ 26" "family = AF_INET \<or> family = AF_INET6"
  shows "client_hst en (case hst_found en nm family addrs of Some b \<Rightarrow> b | None \<Rightarrow> hst_not_found en NO_DATA) =
     (if filter (\<lambda>a. address_family a = family) addrs = [] then HostError NO_DATA
      else HostFound (as_bytes nm @ [0]) (filter (\<lambda>a. address_family a = family) addrs))"
proof -
  have "client_hst en (hst_not_found en NO_DATA) = HostError NO_DATA"
    using not_found_decodes [of en GetHostByName NO_DATA] by (simp add: client_host_def not_found_cases)
  moreover have "length (filter (\<lambda>a. address_family a = family) addrs) < 2 ^ 26"
    using length_filter_le assms(2) by (rule le_less_trans)
  ultimately show ?thesis
    using hst_found_decodes [of nm "filter (\<lambda>a. address_family a = family) addrs" family en] assms(1,3)
    by (simp add: hst_found_def Let_def list_all_iff)
qed

lemma found_decodes:
  assumes "length nm < 2 ^ 30" "length addrs < 2 ^ 26"
  shows "client_host en t (found en t nm addrs) =
     (if t \<noteq> GetAi \<and> asked_addrs t addrs = [] then HostError NO_DATA
      else HostFound (as_bytes nm @ [0]) (asked_addrs t addrs))"
  using hst_case_decodes [OF assms, of AF_INET en] hst_case_decodes [OF assms, of AF_INET6 en]
    ai_found_decodes [OF assms, of en]
  by (cases t) (simp_all add: client_host_def asked_addrs_def found_def family_filters)

section \<open>DNS messages\<close>

text \<open>
  A resource record whose owner is the name of the question, with its type and address, and what
  follows it; as many records as announced.
\<close>

definition read_record :: "bytes \<Rightarrow> (u16 \<times> ip_addr \<times> bytes) option" where
  "read_record bs =
     (if length bs < 12 \<or> take 2 bs \<noteq> [0xC0, 12] then None
      else
        let rdlen = unat (from_be_bytes (take 2 (drop 10 bs)) :: u16) in
        if length bs < 12 + rdlen then None
        else
          case of_octets (take rdlen (drop 12 bs)) of
            None \<Rightarrow> None
          | Some a \<Rightarrow> Some (from_be_bytes (take 2 (drop 2 bs)), a, drop (12 + rdlen) bs))"

fun read_records :: "nat \<Rightarrow> bytes \<Rightarrow> (u16 \<times> ip_addr) list option" where
  "read_records 0 bs = (if bs = [] then Some [] else None)"
| "read_records (Suc n) bs =
     (case read_record bs of
        None \<Rightarrow> None
      | Some (t, a, rest) \<Rightarrow> map_option (Cons (t, a)) (read_records n rest))"

text \<open>A response: its id, its response code and the addresses of the asked type.\<close>

definition client_dns :: "bytes \<Rightarrow> (u16 \<times> u16 \<times> ip_addr list) option" where
  "client_dns bs =
     (case (be16 bs 0, be16 bs 2, be16 bs 4, be16 bs 6, label_loop bs [] 12) of
        (Some i, Some flags, Some qdcount, Some ancount, Inr (labels, at)) \<Rightarrow>
          (case be16 bs at of
             None \<Rightarrow> None
           | Some qtype \<Rightarrow>
               if flags AND FLAG_QR = 0 \<or> qdcount \<noteq> 1 then None
               else
                 map_option (\<lambda>rs. (i, flags AND 0xF, map snd (filter (\<lambda>(t, _). t = qtype) rs)))
                   (read_records (unat ancount) (drop (at + 4) bs)))
      | _ \<Rightarrow> None)"

lemma read_record_answer:
  "read_record (answer_record q a @ rest) = Some (qn_type (qy_question q), a, rest)"
proof -
  let ?r = "answer_record q a @ rest"
  have "length (octets a) < 2 ^ 16" by (simp add: length_octets)
  then have len: "unat (word_of_nat (length (octets a)) :: u16) = length (octets a)"
    by (simp add: unat_of_nat)
  have "drop (12 + n) ?r = drop n (drop 12 ?r)" for n by (metis add.commute drop_drop)
  then have "take 2 ?r = [0xC0, 12]" "take 2 (drop 2 ?r) = to_be_bytes 2 (qn_type (qy_question q))"
    "take 2 (drop 10 ?r) = to_be_bytes 2 (word_of_nat (length (octets a)) :: u16)"
    "take (length (octets a)) (drop 12 ?r) = octets a" "drop (12 + length (octets a)) ?r = rest"
    by (simp_all add: answer_record_def eval_nat_numeral del: drop_drop)
  moreover have "\<not> length ?r < 12 + length (octets a)" "\<not> length ?r < 12" by (simp_all add: answer_record_def)
  ultimately show ?thesis by (simp add: read_record_def u16be.dec_enc len Let_def)
qed

lemma read_records_answers:
  "read_records (length addrs) (concat (map (answer_record q) addrs)) =
     Some (map (\<lambda>a. (qn_type (qy_question q), a)) addrs)"
  by (induction addrs) (simp_all add: read_record_answer)

lemma question_bytes_labels:
  assumes "query_parse msg = Inr q"
  obtains ls where "name_ok ls" "qn_end (qy_question q) = 17 + length (wire_labels ls)"
    "question_bytes q = wire_labels ls @ 0 # to_be_bytes 2 (qn_type (qy_question q)) @
       to_be_bytes 2 (qn_class (qy_question q))"
  using query_parse_sound [OF assms]
  by (auto simp: question_bytes_def query_message_def DNS_HEADER_LEN_def intro!: that)

lemma client_dns_response:
  assumes "query_parse msg = Inr q" "rcode \<in> {0, 1, 2, 3}"
  shows "client_dns (response q rcode answers n) =
     map_option (\<lambda>rs. (qy_id q, rcode, map snd (filter (\<lambda>(t, _). t = qn_type (qy_question q)) rs)))
       (read_records (unat n) answers)"
proof -
  let ?r = "response q rcode answers n" and ?t = "qn_type (qy_question q)"
  obtain ls where ls: "name_ok ls" "qn_end (qy_question q) = 17 + length (wire_labels ls)"
    "question_bytes q = wire_labels ls @ 0 # to_be_bytes 2 ?t @ to_be_bytes 2 (qn_class (qy_question q))"
    using question_bytes_labels [OF assms(1)] .
  have "drop 12 ?r = question_bytes q @ answers" by (simp add: response_def Let_def)
  then have loop: "label_loop ?r [] 12 = Inr (map label_text ls, 13 + length (wire_labels ls))"
    using ls(1) by (subst label_loop_complete) (simp_all add: name_ok_def ls(3))
  have i: "be16 ?r 0 = Some (qy_id q)" using be16_field [of "[]" 0 "qy_id q"] by (simp add: response_def Let_def)
  have t: "be16 ?r (13 + length (wire_labels ls)) = Some ?t"
  proof -
    have "drop (13 + length (wire_labels ls)) ?r = drop (Suc (length (wire_labels ls))) (drop 12 ?r)" by simp
    then have "drop (13 + length (wire_labels ls)) ?r = to_be_bytes 2 ?t @ to_be_bytes 2 (qn_class (qy_question q)) @ answers"
      unfolding \<open>drop 12 ?r = question_bytes q @ answers\<close> by (simp add: ls(3))
    then show ?thesis by (rule be16_at)
  qed
  from response_is_response_to [OF assms, of answers n] obtain flags where
    "be16 ?r 2 = Some flags" "flags AND FLAG_QR \<noteq> 0" "flags AND 0xF = rcode"
    "be16 ?r 4 = Some 1" "be16 ?r 6 = Some n" "drop (17 + length (wire_labels ls)) ?r = answers"
    by (auto simp: response_to_def ls(2) split: option.splits)
  with loop i t show ?thesis by (simp add: client_dns_def)
qed

lemma answer_decodes:
  assumes "query_parse msg = Inr q" "length (matching q addrs) < 2 ^ 16"
  shows "client_dns (answer q addrs) = Some (qy_id q, RCODE_NOERROR, matching q addrs)"
  using assms(2)
  by (simp add: answer_eq client_dns_response [OF assms(1)] RCODE_NOERROR_def unat_of_nat read_records_answers comp_def)

section \<open>Properties\<close>

text \<open>
  (C24) A client of nscd reads back what was answered: from a positive reply the name and, in order,
  exactly the addresses its request asked for, or "no data" if there is none of the asked family;
  from a negative reply the error it was built with. This holds for both byte orders, up to sizes
  no request reaches.
\<close>

theorem nscd_reply_decodes:
  assumes "length nm < 2 ^ 30" "length addrs < 2 ^ 26"
  shows "client_host en t (found en t nm addrs) =
           (if t \<noteq> GetAi \<and> asked_addrs t addrs = [] then HostError NO_DATA
            else HostFound (as_bytes nm @ [0]) (asked_addrs t addrs)) \<and>
         client_host en t (not_found en t err) = HostError err"
  using found_decodes [OF assms] not_found_decodes by simp

theorem nscd_reply_decodes_witness:
  "client_host Big GetHostByName (found Big GetHostByName ''a'' [V6 1, V4 0x7F000001]) =
     HostFound [97, 0] [V4 0x7F000001]"
proof -
  have "as_bytes ''a'' = [97]" by code_simp
  then show ?thesis
    using nscd_reply_decodes [of "''a''" "[V6 1, V4 0x7F000001]" Big GetHostByName 0]
    by (simp add: asked_addrs_def is_ipv4_def)
qed

text \<open>
  (C25) A DNS client reads back what was answered: from the daemon's own answer the id of its query,
  NOERROR and, in order, exactly the addresses of the asked type; from a refusal NXDOMAIN and from a
  failure SERVFAIL, each with its id and without addresses.
\<close>

theorem dns_answer_decodes:
  assumes "query_parse msg = Inr q" "length (matching q addrs) < 2 ^ 16"
  shows "client_dns (answer q addrs) = Some (qy_id q, RCODE_NOERROR, matching q addrs) \<and>
         client_dns (nxdomain q) = Some (qy_id q, RCODE_NXDOMAIN, []) \<and>
         client_dns (servfail q) = Some (qy_id q, RCODE_SERVFAIL, [])"
  using answer_decodes [OF assms]
  by (simp add: nxdomain_def servfail_def client_dns_response [OF assms(1)] RCODE_NXDOMAIN_def RCODE_SERVFAIL_def)

theorem dns_answer_decodes_witness:
  "\<exists>q. query_parse query_a = Inr q \<and> client_dns (answer q [V4 0x7F000001, V6 1]) = Some (7, RCODE_NOERROR, [V4 0x7F000001])"
  using query_a_parses dns_answer_decodes [OF query_a_parses, of "[V4 0x7F000001, V6 1]"]
  by (simp add: matching_def is_ipv4_def dns_consts)

text \<open>
  (C10) The daemon's own records are the same on all three protocols: when an engine allows a name
  the daemon has addresses for, an nscd client reads exactly those its request asks for, an A and an
  AAAA query between them get exactly the IPv4 and the IPv6 ones, and the policy socket hands out
  the whole list; none of them contacts an upstream.
\<close>

theorem own_answers_agree:
  assumes "evaluate_for execute eng nm c = Allowed" "upstream_resolve nm = addrs" "addrs \<noteq> []"
    and "fe_engine nf = eng" "nscd_subject hreq = Some nm"
    and "dn_engine df = eng" "\<not> relays_contains (dn_relays df) c"
    and "query_parse m4 = Inr q4" "query_hostname q4 = nm" "qn_type (qy_question q4) = TYPE_A"
    and "query_parse m6 = Inr q6" "query_hostname q6 = nm" "qn_type (qy_question q6) = TYPE_AAAA"
    and "\<not> relays_contains rs c" "rq_hostname preq = nm"
  shows "(\<exists>b. reply_for en execute unet nf hreq c = ([], Bytes b) \<and>
            client_host en (ty hreq) b =
              (if ty hreq \<noteq> GetAi \<and> asked_addrs (ty hreq) addrs = [] then HostError NO_DATA
               else HostFound (as_bytes nm @ [0]) (asked_addrs (ty hreq) addrs))) \<and>
         (\<exists>b. respond_as execute net df tr q4 c = ([], b) \<and>
            client_dns b = Some (qy_id q4, RCODE_NOERROR, asked_addrs GetHostByName addrs)) \<and>
         (\<exists>b. respond_as execute net df tr q6 c = ([], b) \<and>
            client_dns b = Some (qy_id q6, RCODE_NOERROR, asked_addrs GetHostByNameV6 addrs)) \<and>
         socket_response execute eng rs preq c = RResolved addrs"
proof -
  have len: "length addrs \<le> 1" "length nm < 2 ^ 30"
    using length_upstream_resolve [of nm] upstream_resolve_records [of nm] assms(2,3) by auto
  have dec: "lookup_decision (evaluate_for execute eng) relayed nm c = Own addrs" if "\<not> relayed c" for relayed
    using that assms(1-3) by (simp add: lookup_decision_def)
  have m: "matching q4 addrs = asked_addrs GetHostByName addrs" "matching q6 addrs = asked_addrs GetHostByNameV6 addrs"
    using assms(10,13) by (auto simp: matching_def asked_addrs_def dns_consts intro: filter_cong)
  have "length (matching q addrs) \<le> length addrs" for q by (simp add: matching_def)
  then have short: "length (matching q addrs) < 2 ^ 16" for q
    using len(1) by (rule le_less_trans [OF order_trans]) simp
  have "reply_for en execute unet nf hreq c = ([], Bytes (found en (ty hreq) nm addrs))"
    using nscd_front.respond_realises [OF assms(5), of en execute unet nf c] dec [of "\<lambda>_. False"] assms(4,5)
    by (auto simp: nscd_realise_def nscd_subject_def split: if_splits)
  moreover have "respond_as execute net df tr q4 c = ([], answer q4 addrs)" "respond_as execute net df tr q6 c = ([], answer q6 addrs)"
    using dns_front.respond_realises [OF refl, where execute = execute and fe = df and c = c and net = net and tr = tr]
      dec [of "relays_contains (dn_relays df)"] assms(6,7,9,12)
    by (simp_all add: dns_realise_def)
  moreover have "socket_response execute eng rs preq c = RResolved addrs"
    using policy_front.respond_realises [OF refl, where execute = execute and eng = eng and c = c and rs = rs and r = preq]
      dec [of "relays_contains rs"] assms(14,15)
    by (simp add: socket_realise_def)
  ultimately show ?thesis
    using found_decodes [OF len(2), of addrs en "ty hreq"] len(1) answer_decodes [OF assms(8) short]
      answer_decodes [OF assms(11) short]
    by (simp add: m)
qed

text \<open>
  (C36) Own records depend on the spelling of a name, although verdicts do not: under an engine that
  allows the daemon's own name, the name itself is answered from its records, and the same name with
  a final dot, which has the same canonical form and verdict, is passed on instead.
\<close>

theorem own_records_depend_on_spelling:
  assumes "evaluate_for execute eng ''example.local'' c = Allowed" "\<not> relays_contains rs c"
  shows "canonical_hostname ''example.local.'' = canonical_hostname ''example.local'' \<and>
         evaluate_for execute eng ''example.local.'' c = Allowed \<and>
         socket_response execute eng rs \<lparr>rq_hostname = ''example.local''\<rparr> c = RResolved [V4 0x0A000001] \<and>
         socket_response execute eng rs \<lparr>rq_hostname = ''example.local.''\<rparr> c = RPassThrough"
proof -
  have same: "canonical_hostname ''example.local.'' = canonical_hostname ''example.local''" by code_simp
  have "upstream_resolve ''example.local'' = [V4 0x0A000001]" by code_simp
  with assms engine_judge.same_name [OF same, of execute eng c] same show ?thesis
    by (simp add: socket_response_def verdict_response_def)
qed

text \<open>An engine that allows everything, and requests for the daemon's own name.\<close>

definition allow_all :: "unit policy_engine" where
  "allow_all = deny_all\<lparr>pe_rules := [\<lparr>cr_note = ''all'', cr_program = (), cr_verdict = RuleAllow\<rparr>]\<rparr>"

definition true_execute :: "(unit, unit, unit) cel_execute" where
  "true_execute = (\<lambda>p ctx. Inr (CelBool True))"

definition example_query :: "u16 \<Rightarrow> bytes" where
  "example_query t =
     query_message 7 0x100 [0, 0, 0, 0, 0, 0] [as_bytes ''example'', as_bytes ''local''] t CLASS_IN []"

lemma example_query_parses:
  "\<exists>q. query_parse (example_query t) = Inr q \<and> query_hostname q = ''example.local'' \<and>
     qn_type (qy_question q) = t \<and> qy_id q = 7"
proof -
  have "join ''.'' (map label_text [as_bytes ''example'', as_bytes ''local'']) = ''example.local''"
    "name_ok [as_bytes ''example'', as_bytes ''local'']" by code_simp+
  then show ?thesis
    unfolding example_query_def
    by (subst query_parse_complete) (simp_all add: FLAG_QR_def query_hostname_def)
qed

theorem own_answers_agree_witness:
  "\<exists>b. respond_as true_execute dead_net (dns_deny_all\<lparr>dn_engine := allow_all\<rparr>) Udp
         (projr (query_parse (example_query TYPE_A))) caller_unknown = ([], b) \<and>
     client_dns b = Some (7, RCODE_NOERROR, [V4 0x0A000001])"
proof -
  let ?hreq = "\<lparr>ty = GetAi, key = as_bytes ''example.local'', raw = []\<rparr>"
  obtain q4 q6 where q4: "query_parse (example_query TYPE_A) = Inr q4" "query_hostname q4 = ''example.local''"
      "qn_type (qy_question q4) = TYPE_A" "qy_id q4 = 7"
    and q6: "query_parse (example_query TYPE_AAAA) = Inr q6" "query_hostname q6 = ''example.local''"
      "qn_type (qy_question q6) = TYPE_AAAA"
    using example_query_parses by metis
  have allowed: "evaluate_for true_execute allow_all ''example.local'' caller_unknown = Allowed"
    by (simp add: evaluate_for_def allow_all_def deny_all_def true_execute_def rule_outcome_def)
  have own: "upstream_resolve ''example.local'' = [V4 0x0A000001]" by code_simp
  have no_relay: "\<not> relays_contains rs caller_unknown" for rs
    by (simp add: relays_contains_def caller_unknown_def)
  have subject: "nscd_subject ?hreq = Some ''example.local''" by code_simp
  have "\<exists>b. respond_as true_execute dead_net (dns_deny_all\<lparr>dn_engine := allow_all\<rparr>) Udp q4 caller_unknown = ([], b) \<and>
      client_dns b = Some (qy_id q4, RCODE_NOERROR, asked_addrs GetHostByName [V4 0x0A000001])"
    using own_answers_agree [OF allowed own _ _ subject _ no_relay q4(1-3) q6 no_relay,
        of "front_deny_all\<lparr>fe_engine := allow_all\<rparr>" "dns_deny_all\<lparr>dn_engine := allow_all\<rparr>"
        "\<lparr>rq_hostname = ''example.local''\<rparr>" Little "\<lambda>_ _. Stalled" dead_net Udp]
    by simp
  then show ?thesis using q4 by (simp add: asked_addrs_def is_ipv4_def)
qed

theorem own_records_depend_on_spelling_witness:
  "socket_response true_execute allow_all relays_default \<lparr>rq_hostname = ''example.local.''\<rparr> caller_unknown = RPassThrough"
proof -
  have "evaluate_for true_execute allow_all ''example.local'' caller_unknown = Allowed"
    by (simp add: evaluate_for_def allow_all_def deny_all_def true_execute_def rule_outcome_def)
  from own_records_depend_on_spelling [OF this, of relays_default] show ?thesis
    by (simp add: relays_contains_def caller_unknown_def)
qed

end
