(* ===== verification/Message_Format.thy ===== *)
theory Message_Format
  imports Protocol Serde
begin

text \<open>
  The messages of the policy socket as JSON values: what the \<open>serde\<close> attributes of
  \<open>src/protocol.rs\<close> make of a request (a structure with one field) and of a response (an enum
  tagged by the field \<open>verdict\<close>), in both directions. Turning values into text and back is the
  \<open>serde_json\<close> crate's part: \<open>print\<close> and \<open>parse\<close> are parameters.
\<close>

section \<open>Values\<close>

text \<open>Numbers, which no message contains, are \<open>JNumber\<close> without their value.\<close>

datatype json =
    JNull
  | JBool bool
  | JNumber
  | JString string
  | JArray "json list"
  | JObject "(string \<times> json) list"

definition string_of_json :: "json \<Rightarrow> refusal + string" where
  "string_of_json j = (case j of JString s \<Rightarrow> Inr s | _ \<Rightarrow> Inl InvalidType)"

definition ip_of_json :: "json \<Rightarrow> refusal + ip_addr" where
  "ip_of_json j =
     (case j of
        JString s \<Rightarrow> (case parse_ip_addr s of Some a \<Rightarrow> Inr a | None \<Rightarrow> Inl InvalidValue)
      | _ \<Rightarrow> Inl InvalidType)"

definition ips_of_json :: "json \<Rightarrow> refusal + ip_addr list" where
  "ips_of_json j = (case j of JArray js \<Rightarrow> read_all ip_of_json js | _ \<Rightarrow> Inl InvalidType)"

text \<open>A field of an object; the same field twice is an error.\<close>

definition json_field :: "string \<Rightarrow> (json \<Rightarrow> refusal + 'a) \<Rightarrow> json table \<Rightarrow> refusal + 'a" where
  "json_field k rd t =
     (if 1 < length (filter (\<lambda>kv. fst kv = k) t) then Inl (DuplicateField k) else required k rd t)"

definition object_of_json :: "(json table \<Rightarrow> refusal + 'a) \<Rightarrow> json \<Rightarrow> refusal + 'a" where
  "object_of_json rd j =
     (case j of JObject t \<Rightarrow> rd t | JArray js \<Rightarrow> Inl OtherForm | _ \<Rightarrow> Inl InvalidType)"

section \<open>Requests and responses\<close>

definition json_of_request :: "resolve_request \<Rightarrow> json" where
  "json_of_request r = JObject [(''hostname'', JString (rq_hostname r))]"

definition request_of_json :: "json \<Rightarrow> refusal + resolve_request" where
  "request_of_json =
     object_of_json (\<lambda>t. and_then (json_field ''hostname'' string_of_json t) (\<lambda>h. Inr \<lparr>rq_hostname = h\<rparr>))"

definition json_of_response :: "resolve_response \<Rightarrow> json" where
  "json_of_response r =
     (case r of
        RDenied why \<Rightarrow> JObject [(''verdict'', JString ''Denied''), (''reason'', JString why)]
      | RPassThrough \<Rightarrow> JObject [(''verdict'', JString ''PassThrough'')]
      | RResolved addrs \<Rightarrow>
          JObject [(''verdict'', JString ''Resolved''),
                   (''addresses'', JArray (map (\<lambda>a. JString (ip_text a)) addrs))])"

definition response_of_json :: "json \<Rightarrow> refusal + resolve_response" where
  "response_of_json =
     object_of_json (\<lambda>t. and_then (json_field ''verdict'' string_of_json t) (\<lambda>tag.
       if tag = ''Denied'' then and_then (json_field ''reason'' string_of_json t) (\<lambda>why. Inr (RDenied why))
       else if tag = ''PassThrough'' then Inr RPassThrough
       else if tag = ''Resolved'' then and_then (json_field ''addresses'' ips_of_json t) (\<lambda>a. Inr (RResolved a))
       else Inl (UnknownVariant tag)))"

text \<open>\<open>serde_json::to_vec\<close>/\<open>to_writer\<close> and \<open>serde_json::from_str\<close> of a message.\<close>

definition text_of_message :: "(json \<Rightarrow> bytes io_result) \<Rightarrow> ('m \<Rightarrow> json) \<Rightarrow> 'm \<Rightarrow> bytes io_result" where
  "text_of_message print wr m = print (wr m)"

definition message_of_text :: "(string \<Rightarrow> 'j + json) \<Rightarrow> (json \<Rightarrow> refusal + 'm) \<Rightarrow> string \<Rightarrow> ('j + refusal) + 'm" where
  "message_of_text parse rd txt =
     (case parse txt of
        Inl e \<Rightarrow> Inl (Inl e)
      | Inr j \<Rightarrow> (case rd j of Inl r \<Rightarrow> Inl (Inr r) | Inr m \<Rightarrow> Inr m))"

section \<open>Messages read back\<close>

interpretation json_ip: reads_back "\<lambda>a. JString (ip_text a)" ip_of_json
  by unfold_locales (simp add: ip_of_json_def)

interpretation json_ips: reads_back "\<lambda>addrs. JArray (map (\<lambda>a. JString (ip_text a)) addrs)" ips_of_json
  by unfold_locales (simp add: ips_of_json_def json_ip.all_back)

interpretation json_request: reads_back json_of_request request_of_json
  by unfold_locales (simp add: request_of_json_def json_of_request_def object_of_json_def json_field_def required_def
    string_of_json_def)

interpretation json_response: reads_back json_of_response response_of_json
proof
  fix r
  show "response_of_json (json_of_response r) = Inr r"
    by (cases r) (simp_all add: response_of_json_def json_of_response_def object_of_json_def json_field_def
      required_def string_of_json_def json_ips.read_back)
qed

lemma message_of_text_written: "parse txt = Inr (wr m) \<Longrightarrow> rd (wr m) = Inr m \<Longrightarrow> message_of_text parse rd txt = Inr m"
  by (simp add: message_of_text_def)

end
