(* ===== verification/Nss_Module.thy ===== *)
theory Nss_Module
  imports Policy_Socket Message_Format
begin

text \<open>
  The NSS module (\<open>src/lib.rs\<close>), loaded by glibc into every process that looks a host up: it asks
  the daemon over the policy socket and turns the verdict into an NSS status. The calls block, so
  a lookup may never return (\<open>None\<close>). The JSON forms of the messages are serde's and parameters;
  the socket path is fixed at build time and a parameter too.
\<close>

section \<open>The types of libnss\<close>

datatype address_family_hint = IPv4 | IPv6 | Unspecified | UnknownFamily

datatype addresses = AddrsV4 "32 word list" | AddrsV6 "128 word list"

record host =
  ho_name :: string
  ho_addresses :: addresses
  ho_aliases :: "string list"

datatype 'a nss_response = NssUnavail | NssNotFound | NssSuccess 'a

section \<open>Asking the daemon\<close>

record nss_conn =
  nc_write :: "bytes \<Rightarrow> unit await"
  nc_answer :: "bytes \<Rightarrow> stream"

text \<open>\<open>BufRead::read_line\<close>: the line with its newline; the outer \<open>None\<close> is a read that never returns.\<close>

definition read_line :: "stream \<Rightarrow> string io_result option" where
  "read_line st =
     (let decode = (\<lambda>l. case from_utf8 l of Some s \<Rightarrow> Inr s | None \<Rightarrow> Inl KInvalidData) in
      if 10 \<in> set (inbuf st) then Some (decode (fst (split_line (inbuf st))))
      else
        (case at_end st of
           Closed \<Rightarrow> Some (decode (inbuf st))
         | Broken e \<Rightarrow> Some (Inl e)
         | Silent \<Rightarrow> None))"

definition query_daemon ::
  "(resolve_request \<Rightarrow> bytes io_result) \<Rightarrow> (string \<Rightarrow> 'j + resolve_response) \<Rightarrow> (string \<Rightarrow> nss_conn io_result)
     \<Rightarrow> string \<Rightarrow> string \<Rightarrow> resolve_response option option"
where
  "query_daemon to_json from_json connect socket_path nm =
     (case connect socket_path of
        Inl e \<Rightarrow> Some None
      | Inr conn \<Rightarrow>
          (case to_json \<lparr>rq_hostname = nm\<rparr> of
             Inl e \<Rightarrow> Some None
           | Inr buf \<Rightarrow>
               (case nc_write conn (buf @ [10]) of
                  Failed e \<Rightarrow> Some None
                | Stalled \<Rightarrow> None
                | Ready _ \<Rightarrow>
                    (case read_line (nc_answer conn (buf @ [10])) of
                       None \<Rightarrow> None
                     | Some (Inl e) \<Rightarrow> Some None
                     | Some (Inr line) \<Rightarrow>
                         Some (case from_json line of Inr r \<Rightarrow> Some r | Inl _ \<Rightarrow> None)))))"

section \<open>Addresses of a family\<close>

definition v4_of :: "ip_addr \<Rightarrow> 32 word option" where
  "v4_of ip = (case ip of V4 a \<Rightarrow> Some a | V6 _ \<Rightarrow> None)"

definition v6_of :: "ip_addr \<Rightarrow> 128 word option" where
  "v6_of ip = (case ip of V6 a \<Rightarrow> Some a | V4 _ \<Rightarrow> None)"

definition filter_addrs :: "ip_addr list \<Rightarrow> address_family_hint \<Rightarrow> addresses option" where
  "filter_addrs addrs family =
     (case family of
        IPv4 \<Rightarrow>
          let v4 = List.map_filter v4_of addrs in if v4 = [] then None else Some (AddrsV4 v4)
      | IPv6 \<Rightarrow>
          let v6 = List.map_filter v6_of addrs in if v6 = [] then None else Some (AddrsV6 v6)
      | _ \<Rightarrow>
          let (v4, v6) = partition is_ipv4 addrs in
          if v4 \<noteq> [] then Some (AddrsV4 (List.map_filter v4_of v4))
          else if v6 \<noteq> [] then Some (AddrsV6 (List.map_filter v6_of v6))
          else None)"

section \<open>The hooks\<close>

definition get_all_entries :: "host list nss_response" where
  "get_all_entries = NssNotFound"

definition response_status :: "string \<Rightarrow> address_family_hint \<Rightarrow> resolve_response \<Rightarrow> host nss_response" where
  "response_status nm family resp =
     (case resp of
        RDenied _ \<Rightarrow> NssNotFound
      | RPassThrough \<Rightarrow> NssUnavail
      | RResolved addrs \<Rightarrow>
          (case filter_addrs addrs family of
             Some a \<Rightarrow> NssSuccess \<lparr>ho_name = nm, ho_addresses = a, ho_aliases = []\<rparr>
           | None \<Rightarrow> NssNotFound))"

definition get_host_by_name ::
  "(resolve_request \<Rightarrow> bytes io_result) \<Rightarrow> (string \<Rightarrow> 'j + resolve_response) \<Rightarrow> (string \<Rightarrow> nss_conn io_result)
     \<Rightarrow> string \<Rightarrow> string \<Rightarrow> address_family_hint \<Rightarrow> host nss_response option"
where
  "get_host_by_name to_json from_json connect socket_path nm family =
     (case query_daemon to_json from_json connect socket_path nm of
        None \<Rightarrow> None
      | Some None \<Rightarrow> Some NssUnavail
      | Some (Some resp) \<Rightarrow> Some (response_status nm family resp))"

definition get_host_by_addr :: "ip_addr \<Rightarrow> host nss_response" where
  "get_host_by_addr a = NssNotFound"

section \<open>Addresses given back\<close>

lemma v4_back: "map V4 (List.map_filter v4_of addrs) = filter is_ipv4 addrs"
  by (induction addrs) (auto simp: List.map_filter_simps v4_of_def is_ipv4_def split: ip_addr.split)

lemma v6_back: "map V6 (List.map_filter v6_of addrs) = filter (\<lambda>a. \<not> is_ipv4 a) addrs"
  by (induction addrs) (auto simp: List.map_filter_simps v6_of_def is_ipv4_def split: ip_addr.split)

definition host_ips :: "addresses \<Rightarrow> ip_addr list" where
  "host_ips a = (case a of AddrsV4 xs \<Rightarrow> map V4 xs | AddrsV6 xs \<Rightarrow> map V6 xs)"

lemma map_filter_Nil_iff:
  "List.map_filter v4_of addrs = [] \<longleftrightarrow> filter is_ipv4 addrs = []"
  "List.map_filter v6_of addrs = [] \<longleftrightarrow> filter (\<lambda>a. \<not> is_ipv4 a) addrs = []"
  using v4_back [of addrs] v6_back [of addrs] by (metis map_is_Nil_conv)+

lemma filter_addrs_ips:
  "map_option host_ips (filter_addrs addrs family) =
     (let v4 = filter is_ipv4 addrs; v6 = filter (\<lambda>a. \<not> is_ipv4 a) addrs;
          xs = (case family of IPv4 \<Rightarrow> v4 | IPv6 \<Rightarrow> v6 | _ \<Rightarrow> if v4 \<noteq> [] then v4 else v6)
      in if xs = [] then None else Some xs)"
  by (cases family)
     (simp_all add: filter_addrs_def host_ips_def Let_def map_filter_Nil_iff v4_back v6_back comp_def)

section \<open>Module and daemon together\<close>

text \<open>
  The connection of the module to the daemon's handler: what the daemon writes for the bytes the
  module sent, with the connection left open on both sides.
\<close>

definition daemon_conn ::
  "(string \<Rightarrow> 'j + resolve_request) \<Rightarrow> (resolve_response \<Rightarrow> bytes io_result) \<Rightarrow>
   ('p, 'e, 'v) cel_execute \<Rightarrow> 'p policy_engine \<Rightarrow> relays \<Rightarrow> int + ucred \<Rightarrow> nss_conn"
where
  "daemon_conn from_json to_json execute eng rs cred =
     \<lparr>nc_write = (\<lambda>_. Ready ()),
      nc_answer = (\<lambda>bs.
        \<lparr>inbuf = concat (fst (handle_connection from_json to_json execute eng rs
                  \<lparr>pl_cred = cred, pl_incoming = \<lparr>inbuf = bs, at_end = Silent\<rparr>, pl_write = (\<lambda>_. Ready ())\<rparr>)),
         at_end = Silent\<rparr>)\<rparr>"

lemma request_loop_one:
  assumes "plain_line l" "from_json l = Inr req" "to_json (reply req) = Inr buf"
  shows "request_loop from_json to_json reply (\<lambda>_. Ready ())
           \<lparr>inbuf = line_bytes l, at_end = Silent\<rparr> 0 = ([buf @ [10]], Stalled)"
proof -
  have "request_loop from_json to_json reply (\<lambda>_. Ready ()) \<lparr>inbuf = [], at_end = Silent\<rparr> k = ([], Stalled)" for k
    by (subst request_loop.simps) (simp add: stream_next_line_def)
  then show ?thesis
    using stream_next_plain [OF assms(1), of "[]" Silent] assms(2,3)
    by (subst request_loop.simps) simp
qed

lemma read_line_one:
  assumes "10 \<notin> set buf" "utf8_valid (buf @ [10])"
  shows "read_line \<lparr>inbuf = buf @ [10], at_end = Silent\<rparr> = Some (Inr (str_of_bytes (buf @ [10])))"
  using split_line_newline [of buf "[]"] assms
  by (simp add: read_line_def from_utf8_def)

text \<open>A lookup over one line each way.\<close>

lemma lookup_over_lines:
  assumes "connect socket_path = Inr (daemon_conn from_req to_resp execute eng rs cred)"
    and "peer_caller cred = Inr c" "resp = socket_response execute eng rs \<lparr>rq_hostname = nm\<rparr> c"
    and "to_req \<lparr>rq_hostname = nm\<rparr> = Inr (as_bytes l)" "plain_line l" "from_req l = Inr \<lparr>rq_hostname = nm\<rparr>"
    and "to_resp resp = Inr buf" "10 \<notin> set buf" "utf8_valid (buf @ [10])"
    and "from_resp (str_of_bytes (buf @ [10])) = Inr resp"
  shows "get_host_by_name to_req from_resp connect socket_path nm family =
     Some (if relays_contains rs c then NssUnavail
           else case evaluate_for execute eng nm c of
                  Denied _ \<Rightarrow> NssNotFound
                | PassThrough \<Rightarrow> NssUnavail
                | Allowed \<Rightarrow>
                    if upstream_resolve nm = [] then NssUnavail
                    else (case filter_addrs (upstream_resolve nm) family of
                            Some a \<Rightarrow> NssSuccess \<lparr>ho_name = nm, ho_addresses = a, ho_aliases = []\<rparr>
                          | None \<Rightarrow> NssNotFound))"
proof -
  have "fst (handle_connection from_req to_resp execute eng rs
      \<lparr>pl_cred = cred, pl_incoming = \<lparr>inbuf = line_bytes l, at_end = Silent\<rparr>, pl_write = (\<lambda>_. Ready ())\<rparr>) =
      [buf @ [10]]"
    using request_loop_one [where from_json = from_req, OF assms(5,6), of to_resp "\<lambda>req. socket_response execute eng rs req c" buf]
      assms(2,3,7)
    by (simp add: handle_connection_def)
  then have "get_host_by_name to_req from_resp connect socket_path nm family =
      Some (response_status nm family resp)"
    using assms read_line_one [OF assms(8,9)]
    by (simp add: get_host_by_name_def query_daemon_def daemon_conn_def flip: line_bytes_def)
  then show ?thesis
    by (simp add: assms(3) response_status_def socket_response_def verdict_response_def Let_def
          split: policy_verdict.split)
qed

section \<open>Properties\<close>

text \<open>
  (C11) A lookup through the NSS module gets the daemon's verdict for the calling process: a denied
  name does not exist, a name the policy passes through (or a relay asks for) is left to the next
  source, and an answer from the daemon's records is given back; provided the JSON values of this
  request and of its response are printed on one line each and parsed as they were.
\<close>

theorem nss_lookup_end_to_end:
  assumes "connect socket_path = Inr (daemon_conn (message_of_text parse request_of_json)
      (text_of_message print json_of_response) execute eng rs cred)"
    and "peer_caller cred = Inr c" "resp = socket_response execute eng rs \<lparr>rq_hostname = nm\<rparr> c"
    and "print (json_of_request \<lparr>rq_hostname = nm\<rparr>) = Inr (as_bytes l)" "plain_line l"
    and "parse l = Inr (json_of_request \<lparr>rq_hostname = nm\<rparr>)"
    and "print (json_of_response resp) = Inr buf" "10 \<notin> set buf" "utf8_valid (buf @ [10])"
    and "parse (str_of_bytes (buf @ [10])) = Inr (json_of_response resp)"
  shows "get_host_by_name (text_of_message print json_of_request) (message_of_text parse response_of_json)
       connect socket_path nm family =
     Some (if relays_contains rs c then NssUnavail
           else case evaluate_for execute eng nm c of
                  Denied _ \<Rightarrow> NssNotFound
                | PassThrough \<Rightarrow> NssUnavail
                | Allowed \<Rightarrow>
                    if upstream_resolve nm = [] then NssUnavail
                    else (case filter_addrs (upstream_resolve nm) family of
                            Some a \<Rightarrow> NssSuccess \<lparr>ho_name = nm, ho_addresses = a, ho_aliases = []\<rparr>
                          | None \<Rightarrow> NssNotFound))"
proof (rule lookup_over_lines [where connect = connect, OF assms(1) assms(2,3) _ assms(5) _ _ assms(8,9)])
  show "text_of_message print json_of_request \<lparr>rq_hostname = nm\<rparr> = Inr (as_bytes l)"
    "text_of_message print json_of_response resp = Inr buf"
    using assms(4,7) by (simp_all add: text_of_message_def)
  show "message_of_text parse request_of_json l = Inr \<lparr>rq_hostname = nm\<rparr>"
    by (rule message_of_text_written, rule assms(6), rule json_request.read_back)
  show "message_of_text parse response_of_json (str_of_bytes (buf @ [10])) = Inr resp"
    by (rule message_of_text_written, rule assms(10), rule json_response.read_back)
qed

text \<open>The two values of a lookup of \<open>a\<close> that is denied, printed by their names.\<close>

definition two_print :: "json \<Rightarrow> bytes io_result" where
  "two_print j = Inr (if j = json_of_request \<lparr>rq_hostname = ''a''\<rparr> then as_bytes ''a'' else [68])"

definition two_parse :: "string \<Rightarrow> unit + json" where
  "two_parse txt =
     Inr (if txt = ''a'' then json_of_request \<lparr>rq_hostname = ''a''\<rparr>
          else json_of_response (RDenied ''a denied by default policy''))"

theorem nss_lookup_end_to_end_witness:
  "get_host_by_name (text_of_message two_print json_of_request) (message_of_text two_parse response_of_json)
     (\<lambda>_. Inr (daemon_conn (message_of_text two_parse request_of_json) (text_of_message two_print json_of_response)
        failing_execute deny_all \<lparr>rl_uids = {}\<rparr> (Inr \<lparr>cred_pid = 1, cred_uid = 2, cred_gid = 3\<rparr>)))
     ''/run/deezns.sock'' ''a'' IPv4 = Some NssNotFound"
proof -
  let ?cred = "Inr \<lparr>cred_pid = 1, cred_uid = 2, cred_gid = 3\<rparr> :: int + ucred"
  have c: "peer_caller ?cred = Inr (caller_new 2 3 1)" by (simp add: peer_caller_def)
  have h: "canonical_hostname ''a'' = ''a''" by code_simp
  have r: "RDenied ''a denied by default policy'' =
      socket_response failing_execute deny_all \<lparr>rl_uids = {}\<rparr> \<lparr>rq_hostname = ''a''\<rparr> (caller_new 2 3 1)"
    by (simp add: socket_response_def relays_contains_def caller_new_def verdict_response_def deny_all_denies h)
  have l: "plain_line ''a''" by code_simp
  have v: "utf8_valid ([68] @ [10])" by code_simp
  have p: "two_print (json_of_response (RDenied ''a denied by default policy'')) = Inr [68]"
    by (simp add: two_print_def json_of_request_def json_of_response_def)
  have q: "two_parse (str_of_bytes ([68] @ [10])) = Inr (json_of_response (RDenied ''a denied by default policy''))"
    by (simp add: two_parse_def char_of_byte_def)
  show ?thesis
    by (subst nss_lookup_end_to_end [where print = two_print and parse = two_parse, OF _ c r _ l _ p _ v q])
       (simp_all add: two_print_def two_parse_def relays_contains_def caller_new_def deny_all_denies)
qed

text \<open>Without an understandable answer of the daemon the module reports "unavailable".\<close>

lemma nss_fails_open:
  "query_daemon to_json from_json connect socket_path nm = Some None \<Longrightarrow>
     get_host_by_name to_json from_json connect socket_path nm family = Some NssUnavail"
  by (simp add: get_host_by_name_def)

text \<open>
  Addresses are handed to glibc by family: those of the requested one, or, without a
  preference, the IPv4 ones if there are any and the IPv6 ones otherwise, in the daemon's order;
  never an empty list.
\<close>

theorem nss_addresses_by_family:
  "map_option host_ips (filter_addrs addrs family) =
     (let v4 = filter is_ipv4 addrs; v6 = filter (\<lambda>a. \<not> is_ipv4 a) addrs;
          xs = (case family of IPv4 \<Rightarrow> v4 | IPv6 \<Rightarrow> v6 | _ \<Rightarrow> if v4 \<noteq> [] then v4 else v6)
      in if xs = [] then None else Some xs)"
  by (rule filter_addrs_ips)

end
