(* ===== verification/Test_World.thy ===== *)
theory Test_World
  imports Protocol Identify Config_Format
begin

text \<open>
  The world the crate's tests run in, as far as they depend on it: the identity of the test process,
  the rows and descriptors by which the kernel shows its sockets, and what the CEL expressions of the
  test configurations mean. The CEL interpreter stays a parameter; \<open>cel_reads\<close> states of one
  expression that it compiles and evaluates to its meaning.
\<close>

section \<open>The test process\<close>

record test_process =
  tp_uid :: u32
  tp_gid :: u32
  tp_pid :: i32

definition this_caller :: "test_process \<Rightarrow> caller" where
  "this_caller me = caller_new (tp_uid me) (tp_gid me) (tp_pid me)"

text \<open>
  The socket tables show one socket of this process connected from \<open>peer\<close> to \<open>server\<close>, and this
  process is seen to hold it.
\<close>

definition own_socket ::
  "procfs \<Rightarrow> bool option \<Rightarrow> transport \<Rightarrow> socket_addr \<Rightarrow> socket_addr \<Rightarrow> test_process \<Rightarrow> bool"
where
  "own_socket fs once tr peer server me \<longleftrightarrow>
     (\<exists>row proc.
        filter (connected_row peer server) (socket_tables fs tr) = [row] \<and> se_uid row = tp_uid me \<and>
        socket_holder fs (fst (can_inspect_other_processes fs once)) (se_inode row) proc \<and>
        pr_pid proc = tp_pid me \<and> pr_status_egid proc = Inr (tp_gid me))"

text \<open>No socket of this transport has the port of \<open>peer\<close>.\<close>

definition unlisted :: "procfs \<Rightarrow> transport \<Rightarrow> socket_addr \<Rightarrow> bool" where
  "unlisted fs tr peer \<longleftrightarrow> list_all (\<lambda>e. sa_port (se_local e) \<noteq> sa_port peer) (socket_tables fs tr)"

lemma identify_own_socket:
  assumes "own_socket fs once tr peer server me"
  shows "fst (identify fs once tr peer server True) = this_caller me"
    and "fst (identify fs once tr peer server False) = \<lparr>uid = Some (tp_uid me), gid = None, pid = None\<rparr>"
proof -
  from assms obtain row proc where r: "filter (connected_row peer server) (socket_tables fs tr) = [row]"
    "se_uid row = tp_uid me" "socket_holder fs (fst (can_inspect_other_processes fs once)) (se_inode row) proc"
    "pr_pid proc = tp_pid me" "pr_status_egid proc = Inr (tp_gid me)"
    by (auto simp: own_socket_def)
  show "fst (identify fs once tr peer server True) = this_caller me"
    using identify_connected(2) [OF r(1,3)] r by (simp add: this_caller_def caller_new_def ok_def)
  show "fst (identify fs once tr peer server False) = \<lparr>uid = Some (tp_uid me), gid = None, pid = None\<rparr>"
    using identify_connected(1) [OF r(1)] r by simp
qed

lemma identify_of_unlisted:
  "unlisted fs tr peer \<Longrightarrow> fst (identify fs once tr peer server processes) = caller_unknown"
  by (simp add: unlisted_def identify_unlisted)

text \<open>Only the canonical forms of the addresses matter.\<close>

definition canonical_addr :: "socket_addr \<Rightarrow> socket_addr" where
  "canonical_addr a = \<lparr>sa_ip = to_canonical (sa_ip a), sa_port = sa_port a\<rparr>"

lemma connected_row_canonical:
  "\<not> is_unspecified (sa_ip server) \<Longrightarrow> \<not> is_unspecified (to_canonical (sa_ip server)) \<Longrightarrow>
     connected_row (canonical_addr peer) (canonical_addr server) = connected_row peer server"
  by (rule ext) (simp add: connected_row_def canonical_addr_def same_host_def)

lemma own_socket_canonical:
  "own_socket fs once tr peer server me \<Longrightarrow>
   \<not> is_unspecified (sa_ip server) \<Longrightarrow> \<not> is_unspecified (to_canonical (sa_ip server)) \<Longrightarrow>
     own_socket fs once tr (canonical_addr peer) (canonical_addr server) me"
  by (simp add: own_socket_def connected_row_canonical)

section \<open>Rules and their meaning\<close>

definition cel_reads ::
  "(string \<Rightarrow> 'e + 'p) \<Rightarrow> ('p, 'x, 'v) cel_execute \<Rightarrow> string \<Rightarrow> (cel_context \<Rightarrow> bool) \<Rightarrow> bool"
where
  "cel_reads compile execute expr meaning \<longleftrightarrow>
     (\<exists>p. compile expr = Inr p \<and> (\<forall>ctx. execute p ctx = Inr (CelBool (meaning ctx))))"

text \<open>A rule of a test configuration, with what its expression means.\<close>

type_synonym meant_rule = "rule_config \<times> (cel_context \<Rightarrow> bool)"

definition meant :: "string \<Rightarrow> string \<Rightarrow> (cel_context \<Rightarrow> bool) \<Rightarrow> rule_verdict \<Rightarrow> meant_rule" where
  "meant nt expr meaning verdict = (\<lparr>rc_note = nt, rc_expr = expr, rc_verdict = verdict\<rparr>, meaning)"

definition cel_reads_rules ::
  "(string \<Rightarrow> 'e + 'p) \<Rightarrow> ('p, 'x, 'v) cel_execute \<Rightarrow> meant_rule list \<Rightarrow> bool"
where
  "cel_reads_rules compile execute rules \<longleftrightarrow>
     list_all (\<lambda>(r, m). cel_reads compile execute (rc_expr r) m) rules"

lemma cel_reads_rules_append [simp]:
  "cel_reads_rules compile execute (rs @ rs') \<longleftrightarrow>
     cel_reads_rules compile execute rs \<and> cel_reads_rules compile execute rs'"
  by (simp add: cel_reads_rules_def)

definition test_config :: "default_verdict \<Rightarrow> meant_rule list \<Rightarrow> policy_config" where
  "test_config dv rules = empty_config\<lparr>pc_default_verdict := dv, pc_rules := map fst rules\<rparr>"

text \<open>The document such a configuration is written as.\<close>

definition test_rule :: "rule_config \<Rightarrow> toml" where
  "test_rule r =
     TTable [(''note'', TString (rc_note r)), (''expr'', TString (rc_expr r)),
             (''verdict'', TString (rule_verdict_text (rc_verdict r)))]"

definition test_document :: "default_verdict \<Rightarrow> meant_rule list \<Rightarrow> toml_table" where
  "test_document dv rules =
     (''default_verdict'', TString (default_verdict_text dv)) #
     (if rules = [] then [] else [(''rules'', TArray (map (test_rule \<circ> fst) rules))])"

lemma test_rule_reads: "struct_of_toml rule_of_table (test_rule r) = Inr r"
  by (simp add: test_rule_def struct_of_toml_def rule_of_table_def defaulted_def required_def)

lemma test_rules_read: "read_all (struct_of_toml rule_of_table) (map (test_rule \<circ> fst) rules) = Inr (map fst rules)"
  by (induction rules) (simp_all add: test_rule_reads)

lemma test_document_reads: "config_of_table (test_document dv rules) = Inr (test_config dv rules)"
  by (simp add: config_of_table_def test_document_def defaulted_def list_of_toml_def test_rules_read
        test_config_def empty_config_def)

definition meant_outcome :: "rule_config \<Rightarrow> policy_verdict" where
  "meant_outcome r =
     (case rc_verdict r of
        RuleAllow \<Rightarrow> Allowed
      | RuleDeny \<Rightarrow> Denied (''matched rule: '' @ rc_note r)
      | RulePassthrough \<Rightarrow> PassThrough)"

text \<open>The verdict by the meaning of the rules: the first that applies decides.\<close>

definition meant_verdict :: "default_verdict \<Rightarrow> meant_rule list \<Rightarrow> cel_context \<Rightarrow> policy_verdict" where
  "meant_verdict dv rules ctx =
     (case find (\<lambda>(r, m). m ctx) rules of
        Some (r, m) \<Rightarrow> meant_outcome r
      | None \<Rightarrow> default_outcome dv (cx_hostname ctx))"

definition no_lists_context :: "string \<Rightarrow> caller \<Rightarrow> cel_context" where
  "no_lists_context h c =
     \<lparr>cx_hostname = h, cx_uid = uid_value c, cx_gid = gid_value c, cx_pid = pid_value c,
      cx_blocked_by = (\<lambda>_. False)\<rparr>"

lemma no_lists_context_sel [simp]:
  "cx_hostname (no_lists_context h c) = h" "cx_uid (no_lists_context h c) = uid_value c"
  "cx_gid (no_lists_context h c) = gid_value c" "cx_pid (no_lists_context h c) = pid_value c"
  by (simp_all add: no_lists_context_def)

lemma meant_rules_compile:
  assumes "cel_reads_rules compile execute rules"
  shows "\<exists>crs. compile_rules compile i (map fst rules) = Inr crs \<and>
     (\<forall>ctx. evaluate_rules execute ctx crs =
        (case find (\<lambda>(r, m). m ctx) rules of
           Some (r, m) \<Rightarrow> Some (meant_outcome r)
         | None \<Rightarrow> None))"
  using assms
proof (induction rules arbitrary: i)
  case (Cons rm rules)
  obtain r m where rm: "rm = (r, m)" by (cases rm)
  then obtain p where p: "compile (rc_expr r) = Inr p" "\<And>ctx. execute p ctx = Inr (CelBool (m ctx))"
    using Cons.prems by (auto simp: cel_reads_rules_def cel_reads_def)
  moreover have "cel_reads_rules compile execute rules" using Cons.prems by (simp add: cel_reads_rules_def)
  then obtain crs where "compile_rules compile (i + 1) (map fst rules) = Inr crs"
    "\<And>ctx. evaluate_rules execute ctx crs =
        (case find (\<lambda>(r, m). m ctx) rules of
           Some (r, m) \<Rightarrow> Some (meant_outcome r)
         | None \<Rightarrow> None)"
    using Cons.IH [of "i + 1"] by blast
  ultimately show ?case by (auto simp: rm rule_outcome_def meant_outcome_def split: bool.split rule_verdict.split)
qed simp

text \<open>The context of a lookup against some lists.\<close>

definition lists_context :: "(string \<rightharpoonup> blocklist) \<Rightarrow> string \<Rightarrow> caller \<Rightarrow> cel_context" where
  "lists_context m h c =
     \<lparr>cx_hostname = h, cx_uid = uid_value c, cx_gid = gid_value c, cx_pid = pid_value c,
      cx_blocked_by = (\<lambda>nm. case m nm of Some bl \<Rightarrow> contains bl h | None \<Rightarrow> False)\<rparr>"

lemma lists_context:
  "cel_context_for \<lparr>pe_rules = crs, pe_blocklists = m, pe_default_verdict = dv\<rparr> h c = lists_context m h c"
  by (auto simp: cel_context_for_def lists_context_def bl_results_def split: option.split)

lemma meant_engine_lists:
  assumes "cel_reads_rules compile execute rules"
  shows "\<exists>crs. compile_rules compile 0 (map fst rules) = Inr crs \<and>
     (\<forall>h c. evaluate_for execute \<lparr>pe_rules = crs, pe_blocklists = m, pe_default_verdict = dv\<rparr> h c =
        meant_verdict dv rules (lists_context m (canonical_hostname h) c))"
proof -
  obtain crs where "compile_rules compile 0 (map fst rules) = Inr crs"
    and ev: "\<And>ctx. evaluate_rules execute ctx crs =
        (case find (\<lambda>(r, m). m ctx) rules of Some (r, m) \<Rightarrow> Some (meant_outcome r) | None \<Rightarrow> None)"
    using meant_rules_compile [OF assms, of 0] by blast
  moreover have "cx_hostname (lists_context m h c) = h" for h c by (simp add: lists_context_def)
  then have "evaluate_for execute \<lparr>pe_rules = crs, pe_blocklists = m, pe_default_verdict = dv\<rparr> h c =
        meant_verdict dv rules (lists_context m (canonical_hostname h) c)" for h c
    by (auto simp: evaluate_for_def lists_context ev meant_verdict_def default_outcome_def Let_def
          split: option.split default_verdict.split)
  ultimately show ?thesis by blast
qed

lemma meant_engine:
  assumes "cel_reads_rules compile execute rules"
  shows "\<exists>crs. compile_rules compile 0 (map fst rules) = Inr crs \<and>
     (\<forall>h c. evaluate_for execute \<lparr>pe_rules = crs, pe_blocklists = Map.empty, pe_default_verdict = dv\<rparr> h c =
        meant_verdict dv rules (no_lists_context (canonical_hostname h) c))"
proof -
  have "lists_context Map.empty h c = no_lists_context h c" for h c
    by (simp add: lists_context_def no_lists_context_def)
  then show ?thesis using meant_engine_lists [OF assms, of Map.empty dv] by simp
qed

text \<open>Numbers as \<open>format!\<close> prints them.\<close>

definition decimal :: "nat \<Rightarrow> string" where
  "decimal n = number_text 10 n"

text \<open>The string functions of CEL the rules use.\<close>

definition ends_with :: "string \<Rightarrow> string \<Rightarrow> bool" where
  "ends_with suf s = starts_with (rev suf) (rev s)"

text \<open>
  The rules both front-ends are tested with: a denied name, a name that only this process may look
  up, and one of the daemon's own records.
\<close>

definition policy_for_this_user :: "test_process \<Rightarrow> meant_rule list" where
  "policy_for_this_user me =
     [meant ''blocked'' ''hostname == \"blocked.test\"'' (\<lambda>x. cx_hostname x = ''blocked.test'') RuleDeny,
      meant ''mine''
        (''uid == '' @ decimal (unat (tp_uid me)) @ '' && gid == '' @ decimal (unat (tp_gid me)) @
         '' && pid == '' @ decimal (unat (tp_pid me)) @ '' && hostname == \"mine.test\"'')
        (\<lambda>x. cx_uid x = uint (tp_uid me) \<and> cx_gid x = uint (tp_gid me) \<and> cx_pid x = uint (tp_pid me) \<and>
             cx_hostname x = ''mine.test'') RuleAllow,
      meant ''not mine'' ''hostname == \"mine.test\"'' (\<lambda>x. cx_hostname x = ''mine.test'') RuleDeny,
      meant ''daemon record'' ''hostname == \"example.local\"'' (\<lambda>x. cx_hostname x = ''example.local'') RuleAllow]"

text \<open>A process id is positive, and the user id \<open>-1\<close> is nobody's.\<close>

definition real_process :: "test_process \<Rightarrow> bool" where
  "real_process me \<longleftrightarrow> 0 \<le> sint (tp_pid me) \<and> tp_uid me \<noteq> -1"

definition user_verdict :: "test_process \<Rightarrow> string \<Rightarrow> caller \<Rightarrow> policy_verdict" where
  "user_verdict me h c =
     (if h = ''blocked.test'' then Denied ''matched rule: blocked''
      else if h = ''mine.test'' then (if c = this_caller me then Allowed else Denied ''matched rule: not mine'')
      else if h = ''example.local'' then Allowed
      else PassThrough)"

lemma uid_value_Some_iff: "uid_value c = uint u \<longleftrightarrow> uid c = Some u"
  using uint_not_minus_one [of u] by (auto simp: uid_value_def word_uint_eq_iff split: option.split)

lemma gid_value_Some_iff: "gid_value c = uint g \<longleftrightarrow> gid c = Some g"
  using uint_not_minus_one [of g] by (auto simp: gid_value_def word_uint_eq_iff split: option.split)

lemma pid_value_Some_iff: "0 \<le> sint p \<Longrightarrow> pid_value c = sint p \<longleftrightarrow> pid c = Some p"
  by (auto simp: pid_value_def signed_word_eqI split: option.split)

lemma caller_values_mine:
  assumes "real_process me"
  shows "uid_value c = uint (tp_uid me) \<and> gid_value c = uint (tp_gid me) \<and> pid_value c = uint (tp_pid me) \<longleftrightarrow>
     c = this_caller me"
proof -
  have "uint (tp_pid me) = sint (tp_pid me)"
    using assms sint32_bounds [of "tp_pid me"]
    by (simp only: uint_sint [of "tp_pid me"] real_process_def take_bit_int_eq_self_iff) simp
  moreover have "0 \<le> sint (tp_pid me)" using assms by (simp only: real_process_def)
  ultimately show ?thesis
    by (simp only: uid_value_Some_iff gid_value_Some_iff pid_value_Some_iff)
       (cases c, auto simp: this_caller_def caller_new_def)
qed

lemma policy_for_this_user_verdict:
  "real_process me \<Longrightarrow>
     meant_verdict DefaultPassthrough (policy_for_this_user me) (no_lists_context h c) = user_verdict me h c"
  using caller_values_mine [of me c]
  by (auto simp: meant_verdict_def policy_for_this_user_def meant_def meant_outcome_def user_verdict_def
        default_outcome_def)

text \<open>An interpreter for a table of expressions, as an instance of the parameter.\<close>

definition table_compile :: "meant_rule list \<Rightarrow> string \<Rightarrow> unit + (cel_context \<Rightarrow> bool)" where
  "table_compile rules expr =
     (case map_of (map (\<lambda>(r, m). (rc_expr r, m)) rules) expr of Some m \<Rightarrow> Inr m | None \<Rightarrow> Inl ())"

definition table_execute :: "(cel_context \<Rightarrow> bool, unit, unit) cel_execute" where
  "table_execute m ctx = Inr (CelBool (m ctx))"

lemma table_reads:
  assumes "distinct (map (\<lambda>(r, m). rc_expr r) rules)" "set rules' \<subseteq> set rules"
  shows "cel_reads_rules (table_compile rules) table_execute rules'"
proof -
  have d: "distinct (map fst (map (\<lambda>(r, m). (rc_expr r, m)) rules))"
    using assms(1) by (simp add: comp_def case_prod_unfold)
  have "cel_reads (table_compile rules) table_execute (rc_expr r) m" if "(r, m) \<in> set rules'" for r m
  proof -
    have "(rc_expr r, m) \<in> set (map (\<lambda>(r, m). (rc_expr r, m)) rules)" using that assms(2) by force
    then have "map_of (map (\<lambda>(r, m). (rc_expr r, m)) rules) (rc_expr r) = Some m"
      using d by (simp add: map_of_is_SomeI)
    then show ?thesis by (simp add: cel_reads_def table_compile_def table_execute_def)
  qed
  then show ?thesis by (auto simp: cel_reads_rules_def list_all_iff)
qed

end
