(* ===== verification/Example_Policy.thy ===== *)
theory Example_Policy
  imports Test_World
begin

text \<open>
  The configuration the repository ships (\<open>src/config/policy.toml\<close>): the document, its five rules
  with what their CEL expressions mean, and the verdict it gives for every caller and name, from the
  file to the engine. The CEL interpreter stays a parameter that reads these expressions as meant.
\<close>

section \<open>The document\<close>

definition adblock_expr :: string where
  "adblock_expr =
     ''blocked_by(\"stevenblack\") || blocked_by(\"oisd\")''"

definition root_expr :: string where
  "root_expr =
     ''uid == 0''"

definition developer_expr :: string where
  "developer_expr =
     (''  uid == 1000 && (\<newline>'' @
          ''    hostname == \"github.com\" ||\<newline>'' @
          ''    hostname.endsWith(\".github.com\") ||\<newline>'' @
          ''    hostname == \"crates.io\" ||\<newline>'' @
          ''    hostname.endsWith(\".crates.io\") ||\<newline>'' @
          ''    hostname == \"docs.rs\" ||\<newline>'' @
          ''    hostname.endsWith(\".docs.rs\") ||\<newline>'' @
          ''    hostname == \"nixos.org\" ||\<newline>'' @
          ''    hostname.endsWith(\".nixos.org\") ||\<newline>'' @
          ''    hostname.endsWith(\".archive.ubuntu.com\") ||\<newline>'' @
          ''    hostname == \"security.ubuntu.com\"\<newline>'' @
          ''  )\<newline>'')"

definition internal_expr :: string where
  "internal_expr =
     (''  gid == 1001 && (\<newline>'' @
          ''    hostname == \"internal.corp.example.com\" ||\<newline>'' @
          ''    hostname.endsWith(\".internal.corp.example.com\")\<newline>'' @
          ''  )\<newline>'')"

definition fallthrough_expr :: string where
  "fallthrough_expr =
     ''true''"

definition example_document :: toml_table where
  "example_document =
     [(''default_verdict'', TString ''deny''),
      (''blocklists'', TArray
        [TTable [(''name'', TString ''stevenblack''), (''path'', TString ''/etc/deezns/lists/stevenblack-hosts.txt'')],
         TTable [(''name'', TString ''oisd''), (''path'', TString ''/etc/deezns/lists/oisd-abp.txt'')]]),
      (''rules'', TArray
        [TTable [(''note'', TString ''Global adblock/tracker deny''), (''expr'', TString adblock_expr), (''verdict'', TString ''deny'')],
         TTable [(''note'', TString ''Root: allow all''), (''expr'', TString root_expr), (''verdict'', TString ''allow'')],
         TTable [(''note'', TString ''uid 1000: development allowlist''), (''expr'', TString developer_expr), (''verdict'', TString ''allow'')],
         TTable [(''note'', TString ''gid 1001: internal corp''), (''expr'', TString internal_expr), (''verdict'', TString ''allow'')],
         TTable [(''note'', TString ''Explicit deny-all fallthrough''), (''expr'', TString fallthrough_expr), (''verdict'', TString ''deny'')]])]"

section \<open>The rules\<close>

text \<open>A name or one below it.\<close>

definition at_or_below :: "string \<Rightarrow> string \<Rightarrow> bool" where
  "at_or_below d h \<longleftrightarrow> h = d \<or> ends_with (''.'' @ d) h"

definition developer_host :: "string \<Rightarrow> bool" where
  "developer_host h \<longleftrightarrow>
     at_or_below ''github.com'' h \<or> at_or_below ''crates.io'' h \<or> at_or_below ''docs.rs'' h \<or>
     at_or_below ''nixos.org'' h \<or> ends_with ''.archive.ubuntu.com'' h \<or> h = ''security.ubuntu.com''"

definition internal_host :: "string \<Rightarrow> bool" where
  "internal_host h \<longleftrightarrow> at_or_below ''internal.corp.example.com'' h"

definition example_rules :: "meant_rule list" where
  "example_rules =
     [meant ''Global adblock/tracker deny'' adblock_expr (\<lambda>x. cx_blocked_by x ''stevenblack'' \<or> cx_blocked_by x ''oisd'') RuleDeny,
      meant ''Root: allow all'' root_expr (\<lambda>x. cx_uid x = 0) RuleAllow,
      meant ''uid 1000: development allowlist'' developer_expr (\<lambda>x. cx_uid x = 1000 \<and> developer_host (cx_hostname x)) RuleAllow,
      meant ''gid 1001: internal corp'' internal_expr (\<lambda>x. cx_gid x = 1001 \<and> internal_host (cx_hostname x)) RuleAllow,
      meant ''Explicit deny-all fallthrough'' fallthrough_expr (\<lambda>x. True) RuleDeny]"

definition example_blocklists :: "blocklist_config list" where
  "example_blocklists =
     [\<lparr>bc_name = ''stevenblack'', bc_path = ''/etc/deezns/lists/stevenblack-hosts.txt''\<rparr>,
      \<lparr>bc_name = ''oisd'', bc_path = ''/etc/deezns/lists/oisd-abp.txt''\<rparr>]"

definition example_config :: policy_config where
  "example_config =
     empty_config\<lparr>pc_default_verdict := DefaultDeny, pc_blocklists := example_blocklists,
                   pc_rules := map fst example_rules\<rparr>"

section \<open>The verdict\<close>

text \<open>Some line of a list file blocks a name.\<close>

definition file_blocks :: "bytes \<Rightarrow> string \<Rightarrow> bool" where
  "file_blocks bs h \<longleftrightarrow>
     list_ex (\<lambda>l. case entry_of_line l of
                     Some (Exact d) \<Rightarrow> h = d
                   | Some (DomainAndSubs d) \<Rightarrow> at_or_below d h
                   | None \<Rightarrow> False) (good_lines bs)"

lemma ends_with_iff: "ends_with suf s \<longleftrightarrow> (\<exists>pre. s = pre @ suf)"
proof -
  have "ends_with suf s \<longleftrightarrow> (\<exists>r. rev s = rev suf @ r)"
    by (auto simp: ends_with_def starts_with_def) (metis append_take_drop_id length_rev)
  then show ?thesis by (metis rev_append rev_rev_ident)
qed

lemma at_or_below_iff: "at_or_below d h \<longleftrightarrow> entry_blocks (DomainAndSubs d) h"
  by (simp add: at_or_below_def ends_with_iff)

text \<open>
  What the comments of the file promise: listed names are denied to everyone; root may look up
  everything else, the developer a list of hosts, the service accounts the internal domain; whatever
  is left is denied.
\<close>

definition example_verdict :: "bytes \<Rightarrow> bytes \<Rightarrow> string \<Rightarrow> caller \<Rightarrow> policy_verdict" where
  "example_verdict stevenblack oisd h c =
     (if file_blocks stevenblack h \<or> file_blocks oisd h then Denied ''matched rule: Global adblock/tracker deny''
      else if uid c = Some 0 \<or> uid c = Some 1000 \<and> developer_host h \<or> gid c = Some 1001 \<and> internal_host h
      then Allowed
      else Denied ''matched rule: Explicit deny-all fallthrough'')"

lemma file_blocks_iff:
  "file_blocks bs h \<longleftrightarrow> (\<exists>l \<in> set (good_lines bs). \<exists>e. entry_of_line l = Some e \<and> entry_blocks e h)"
proof -
  have "(case entry_of_line l of Some (Exact d) \<Rightarrow> h = d | Some (DomainAndSubs d) \<Rightarrow> at_or_below d h | None \<Rightarrow> False) \<longleftrightarrow>
      (\<exists>e. entry_of_line l = Some e \<and> entry_blocks e h)" for l
    by (simp add: at_or_below_iff split: option.split blocklist_entry.split)
  then show ?thesis by (simp add: file_blocks_def list_ex_iff)
qed

lemma example_document_reads: "config_of_table example_document = Inr example_config"
  by (simp add: config_of_table_def example_document_def defaulted_def list_of_toml_def struct_of_toml_def
        blocklist_of_table_def rule_of_table_def required_def default_verdict_of_toml_def rule_verdict_of_toml_def
        enum_of_toml_def example_config_def example_rules_def example_blocklists_def meant_def empty_config_def)

lemma caller_is:
  "uid_value c = 0 \<longleftrightarrow> uid c = Some 0" "uid_value c = 1000 \<longleftrightarrow> uid c = Some 1000"
  "gid_value c = 1001 \<longleftrightarrow> gid c = Some 1001"
  using uid_value_Some_iff [of c 0] uid_value_Some_iff [of c 1000] gid_value_Some_iff [of c 1001] by simp_all

lemma file_list_loads:
  assumes "open_file path = Inr bs"
  shows "\<exists>bl. blocklist_load open_file next_line path nm = Some (Inr bl) \<and>
     (\<forall>h. contains bl h \<longleftrightarrow> file_blocks bs (to_ascii_lowercase h))"
proof -
  obtain bl where bl: "blocklist_parse next_line bs nm = Some bl"
    using file_lines.blocklist_parse_returns by blast
  then have "contains bl h \<longleftrightarrow> file_blocks bs (to_ascii_lowercase h)" for h
    using entries_blocklist_parse_file [OF bl]
    by (auto simp: contains_entries file_blocks_iff)
  then show ?thesis using bl assms by (auto simp: blocklist_load_def)
qed

lemma example_meant_verdict:
  assumes "m ''stevenblack'' = Some sb" "contains sb h \<longleftrightarrow> file_blocks sbs h"
    and "m ''oisd'' = Some oi" "contains oi h \<longleftrightarrow> file_blocks ois h"
  shows "meant_verdict DefaultDeny example_rules (lists_context m h c) = example_verdict sbs ois h c"
  using assms by (simp add: meant_verdict_def example_rules_def meant_def meant_outcome_def lists_context_def
    example_verdict_def caller_is)

lemma example_lists_load:
  "blocklist_load open_file rd ''/etc/deezns/lists/stevenblack-hosts.txt'' ''stevenblack'' = Some (Inr sb) \<Longrightarrow>
   blocklist_load open_file rd ''/etc/deezns/lists/oisd-abp.txt'' ''oisd'' = Some (Inr oi) \<Longrightarrow>
     load_blocklists open_file rd example_blocklists Map.empty = Some (Inr [''stevenblack'' \<mapsto> sb, ''oisd'' \<mapsto> oi])"
  by (simp add: example_blocklists_def)

text \<open>
  (C13) The shipped configuration does what its comments say. Read from the file, with its two lists
  loaded from files and its expressions read by the CEL interpreter as meant, it gives every caller
  exactly this verdict on every name: denied if a line of a list blocks the name; otherwise allowed to
  root, to user 1000 for the development hosts and to group 1001 for the internal domain; denied to
  everyone else, unidentified callers included.
\<close>

theorem example_policy_verdict:
  assumes "open_file ''/etc/deezns/lists/stevenblack-hosts.txt'' = Inr sbs"
    and "open_file ''/etc/deezns/lists/oisd-abp.txt'' = Inr ois"
    and "cel_reads_rules compile execute example_rules"
  shows "\<exists>cfg eng. config_of_table example_document = Inr cfg \<and>
     engine_from_config open_file next_line compile cfg = Some (Inr eng) \<and>
     (\<forall>h c. evaluate_for execute eng h c = example_verdict sbs ois (canonical_hostname h) c)"
proof -
  obtain sb where sb: "blocklist_load open_file next_line ''/etc/deezns/lists/stevenblack-hosts.txt'' ''stevenblack'' = Some (Inr sb)"
    "\<And>h. contains sb h \<longleftrightarrow> file_blocks sbs (to_ascii_lowercase h)"
    using file_list_loads [of open_file, OF assms(1)] by blast
  obtain oi where oi: "blocklist_load open_file next_line ''/etc/deezns/lists/oisd-abp.txt'' ''oisd'' = Some (Inr oi)"
    "\<And>h. contains oi h \<longleftrightarrow> file_blocks ois (to_ascii_lowercase h)"
    using file_list_loads [of open_file, OF assms(2)] by blast
  let ?m = "[''stevenblack'' \<mapsto> sb, ''oisd'' \<mapsto> oi]"
  obtain crs where crs: "compile_rules compile 0 (map fst example_rules) = Inr crs"
    "\<And>h c. evaluate_for execute \<lparr>pe_rules = crs, pe_blocklists = ?m, pe_default_verdict = DefaultDeny\<rparr> h c =
        meant_verdict DefaultDeny example_rules (lists_context ?m (canonical_hostname h) c)"
    using meant_engine_lists [OF assms(3), of ?m DefaultDeny] by blast
  have "engine_from_config open_file next_line compile example_config =
      Some (Inr \<lparr>pe_rules = crs, pe_blocklists = ?m, pe_default_verdict = DefaultDeny\<rparr>)"
    by (simp add: engine_from_config_def example_config_def crs example_lists_load [OF sb(1) oi(1)])
  moreover have "meant_verdict DefaultDeny example_rules (lists_context ?m (canonical_hostname h) c) =
      example_verdict sbs ois (canonical_hostname h) c" for h c
    by (rule example_meant_verdict [where sb = sb and oi = oi]) (simp_all add: sb(2) oi(2) canonical_hostname_lowercase)
  ultimately show ?thesis using crs(2) example_document_reads by auto
qed

theorem example_policy_verdict_witness:
  "\<exists>cfg eng. config_of_table example_document = Inr cfg \<and>
     engine_from_config (\<lambda>path. Inr (if path = ''/etc/deezns/lists/oisd-abp.txt'' then as_bytes ''||ads.test^'' else []))
       next_line (table_compile example_rules) cfg = Some (Inr eng) \<and>
     evaluate_for table_execute eng ''X.ads.test.'' (caller_new 0 0 1) =
       Denied ''matched rule: Global adblock/tracker deny'' \<and>
     evaluate_for table_execute eng ''GitHub.com'' (caller_new 1000 1000 7) = Allowed"
proof -
  let ?open = "\<lambda>path. Inr (if path = ''/etc/deezns/lists/oisd-abp.txt'' then as_bytes ''||ads.test^'' else []) :: bytes io_result"
  have "distinct (map (\<lambda>(r, m). rc_expr r) example_rules)"
    by (simp add: example_rules_def meant_def adblock_expr_def root_expr_def developer_expr_def internal_expr_def
          fallthrough_expr_def)
  then have reads: "cel_reads_rules (table_compile example_rules) table_execute example_rules"
    by (rule table_reads) simp
  have v: "example_verdict [] (as_bytes ''||ads.test^'') (canonical_hostname ''X.ads.test.'') (caller_new 0 0 1) =
      Denied ''matched rule: Global adblock/tracker deny''"
    "example_verdict [] (as_bytes ''||ads.test^'') (canonical_hostname ''GitHub.com'') (caller_new 1000 1000 7) = Allowed"
    by code_simp+
  have "\<exists>cfg eng. config_of_table example_document = Inr cfg \<and>
     engine_from_config ?open next_line (table_compile example_rules) cfg = Some (Inr eng) \<and>
     (\<forall>h c. evaluate_for table_execute eng h c =
        example_verdict [] (as_bytes ''||ads.test^'') (canonical_hostname h) c)"
    by (rule example_policy_verdict) (simp_all add: reads)
  then show ?thesis using v by metis
qed

end
