(* ===== verification/Identify_Tests.thy ===== *)
theory Identify_Tests
  imports Test_World
begin

text \<open>
  The tests of \<open>src/identify.rs\<close> and \<open>src/peercred.rs\<close> over the model. The tests that open sockets of their own run in any
  world whose socket tables show such a socket and its holder (\<open>own_socket\<close>).
\<close>

section \<open>Sockets\<close>

definition v4_addr :: "byte \<Rightarrow> byte \<Rightarrow> byte \<Rightarrow> byte \<Rightarrow> u16 \<Rightarrow> socket_addr" where
  "v4_addr a b c d port = \<lparr>sa_ip = V4 (ipv4_new a b c d), sa_port = port\<rparr>"

definition v4_mapped_addr :: "byte \<Rightarrow> byte \<Rightarrow> byte \<Rightarrow> byte \<Rightarrow> u16 \<Rightarrow> socket_addr" where
  "v4_mapped_addr a b c d port = \<lparr>sa_ip = V6 (to_ipv6_mapped (ipv4_new a b c d)), sa_port = port\<rparr>"

definition v6_any :: "u16 \<Rightarrow> socket_addr" where
  "v6_any port = \<lparr>sa_ip = V6 0, sa_port = port\<rparr>"

definition entry_of :: "socket_addr \<Rightarrow> socket_addr \<Rightarrow> u32 \<Rightarrow> u64 \<Rightarrow> socket_entry" where
  "entry_of l r u i = \<lparr>se_local = l, se_remote = r, se_uid = u, se_inode = i\<rparr>"

definition SERVER :: socket_addr where
  "SERVER = v4_addr 127 0 0 1 53"

definition the_most_specific_matching_socket_wins :: bool where
  "the_most_specific_matching_socket_wins =
     (let e0 = entry_of (v4_addr 0 0 0 0 5000) (v4_addr 0 0 0 0 0) 1000 1;
          e1 = entry_of (v4_addr 127 0 0 1 5000) (v4_addr 0 0 0 0 0) 1001 2;
          e2 = entry_of (v4_addr 127 0 0 1 5000) (v4_addr 127 0 0 1 53) 1002 3;
          e3 = entry_of (v4_addr 127 0 0 1 5000) (v4_addr 127 0 0 1 54) 1003 4
      in find_socket [e0, e1, e2, e3] (v4_addr 127 0 0 1 5000) SERVER = One e2 \<and>
         find_socket [e0, e1] (v4_addr 127 0 0 1 5000) SERVER = One e1 \<and>
         find_socket [e0] (v4_addr 127 0 0 1 5000) SERVER = One e0 \<and>
         find_socket [e3] (v4_addr 127 0 0 1 5000) SERVER = NoMatch \<and>
         find_socket [e0, e1, e2, e3] (v4_addr 127 0 0 1 5001) SERVER = NoMatch \<and>
         find_socket [e0, e1, e2, e3] (v4_addr 192 0 2 1 5000) SERVER = One e0)"

definition equally_good_sockets_of_different_users_identify_nobody :: bool where
  "equally_good_sockets_of_different_users_identify_nobody =
     (let row = entry_of (v4_addr 127 0 0 1 5000) (v4_addr 127 0 0 1 53) in
      find_socket [row 1000 1, row 1001 2] (v4_addr 127 0 0 1 5000) SERVER = Ambiguous \<and>
      find_socket [row 1000 1, row 1000 2] (v4_addr 127 0 0 1 5000) SERVER = SameUser 1000)"

definition ipv4_mapped_rows_match_ipv4_peers :: bool where
  "ipv4_mapped_rows_match_ipv4_peers =
     (let e0 = entry_of (v4_mapped_addr 127 0 0 1 5000) (v4_mapped_addr 127 0 0 1 53) 1000 1;
          e1 = entry_of (v6_any 5001) (v6_any 0) 1001 2
      in find_socket [e0, e1] (v4_addr 127 0 0 1 5000) SERVER = One e0 \<and>
         find_socket [e0, e1] (v4_addr 127 0 0 1 5001) SERVER = One e1 \<and>
         find_socket [e0, e1] (v4_mapped_addr 127 0 0 1 5000) (v6_any 53) = One e0)"

lemma most_specific_holds: the_most_specific_matching_socket_wins
  by code_simp

lemma equally_good_holds: equally_good_sockets_of_different_users_identify_nobody
  by code_simp

lemma ipv4_mapped_holds: ipv4_mapped_rows_match_ipv4_peers
  by code_simp

section \<open>Sockets of the test process\<close>

definition our_own_udp_socket_is_identified_fully ::
  "procfs \<Rightarrow> bool option \<Rightarrow> test_process \<Rightarrow> socket_addr \<Rightarrow> bool"
where
  "our_own_udp_socket_is_identified_fully fs once me local =
     (let (caller, once') = identify fs once Udp local SERVER True;
          (caller', _) = identify fs once' Udp local SERVER False
      in uid caller = Some (tp_uid me) \<and>
         pid caller = Some (tp_pid me) \<and>
         gid caller = Some (tp_gid me) \<and>
         uid caller' = Some (tp_uid me) \<and>
         (gid caller', pid caller') = (None, None))"

text \<open>\<open>ipv6\<close> tells whether the kernel has IPv6; without it the test is skipped.\<close>

definition our_own_dual_stack_socket_is_identified_from_its_ipv4_peer_address ::
  "bool \<Rightarrow> procfs \<Rightarrow> bool option \<Rightarrow> test_process \<Rightarrow> socket_addr \<Rightarrow> bool"
where
  "our_own_dual_stack_socket_is_identified_from_its_ipv4_peer_address ipv6 fs once me mapped =
     (if \<not> ipv6 then True
      else
        let seen_by_listener = canonical_addr mapped;
            caller = fst (identify fs once Udp seen_by_listener SERVER True)
        in \<not> is_ipv4 (sa_ip mapped) \<and>
           is_ipv4 (sa_ip seen_by_listener) \<and>
           uid caller = Some (tp_uid me) \<and>
           pid caller = Some (tp_pid me))"

text \<open>
  The first half uses an IPv4 connection; the second a dual-stack one, in a later state of the
  tables. The port of the other server address is one more, which panics for the last port.
\<close>

definition our_own_tcp_sockets_are_identified_by_their_whole_connection ::
  "bool \<Rightarrow> procfs \<Rightarrow> bool option \<Rightarrow> socket_addr \<Rightarrow> socket_addr \<Rightarrow>
   procfs \<Rightarrow> bool option \<Rightarrow> socket_addr \<Rightarrow> u16 \<Rightarrow> test_process \<Rightarrow> bool"
where
  "our_own_tcp_sockets_are_identified_by_their_whole_connection ipv6 fs once local server fs' once' mapped_local port me =
     (let (caller, once1) = identify fs once Tcp local server True;
          other = \<lparr>sa_ip = sa_ip server, sa_port = sa_port server + 1\<rparr>
      in uid caller = Some (tp_uid me) \<and>
         pid caller = Some (tp_pid me) \<and>
         sa_port server \<noteq> -1 \<and>
         fst (identify fs once1 Tcp local other True) = caller_unknown \<and>
         (if \<not> ipv6 then True
          else
            uid (fst (identify fs' once' Tcp (canonical_addr mapped_local) (v4_addr 127 0 0 1 port) True)) =
              Some (tp_uid me)))"

definition an_unknown_socket_is_an_unknown_caller :: "procfs \<Rightarrow> bool option \<Rightarrow> bool" where
  "an_unknown_socket_is_an_unknown_caller fs once =
     (fst (identify fs once Udp (v4_addr 192 0 2 77 1) SERVER True) = caller_unknown)"

lemma identify_own_socket_uid:
  "own_socket fs once tr peer server me \<Longrightarrow>
     fst (identify fs once' tr peer server False) = \<lparr>uid = Some (tp_uid me), gid = None, pid = None\<rparr>"
  using identify_connected(1) by (fastforce simp: own_socket_def)

lemma own_udp_holds:
  "own_socket fs once Udp local SERVER me \<Longrightarrow> our_own_udp_socket_is_identified_fully fs once me local"
  using identify_own_socket(1) [of fs once Udp local SERVER me]
  by (simp add: our_own_udp_socket_is_identified_fully_def this_caller_def caller_new_def
        identify_own_socket_uid case_prod_beta)

text \<open>The loopback address mapped into IPv6, at a port.\<close>

lemma mapped_loopback:
  "canonical_addr (v4_mapped_addr 127 0 0 1 port) = v4_addr 127 0 0 1 port"
  "\<not> is_unspecified (sa_ip (v4_mapped_addr 127 0 0 1 port))"
  "\<not> is_unspecified (to_canonical (sa_ip (v4_mapped_addr 127 0 0 1 port)))"
proof -
  have c: "to_canonical (V6 (to_ipv6_mapped (ipv4_new 127 0 0 1))) = V4 (ipv4_new 127 0 0 1)"
    by (simp add: to_canonical_mapped)
  show "canonical_addr (v4_mapped_addr 127 0 0 1 port) = v4_addr 127 0 0 1 port"
    by (simp add: canonical_addr_def v4_mapped_addr_def v4_addr_def c)
  show "\<not> is_unspecified (sa_ip (v4_mapped_addr 127 0 0 1 port))"
    unfolding v4_mapped_addr_def by simp code_simp
  show "\<not> is_unspecified (to_canonical (sa_ip (v4_mapped_addr 127 0 0 1 port)))"
    unfolding v4_mapped_addr_def by (simp add: c) code_simp
qed

lemma own_socket_mapped:
  "own_socket fs once tr mapped (v4_mapped_addr 127 0 0 1 port) me \<Longrightarrow>
     own_socket fs once tr (canonical_addr mapped) (v4_addr 127 0 0 1 port) me"
  using own_socket_canonical [OF _ mapped_loopback(2,3)] by (simp add: mapped_loopback(1))

lemma dual_stack_holds:
  assumes "sa_ip mapped = V6 (to_ipv6_mapped a)" "own_socket fs once Udp mapped (v4_mapped_addr 127 0 0 1 53) me"
  shows "our_own_dual_stack_socket_is_identified_from_its_ipv4_peer_address ipv6 fs once me mapped"
  using identify_own_socket(1) [OF own_socket_mapped [OF assms(2)]] assms(1)
  by (simp add: our_own_dual_stack_socket_is_identified_from_its_ipv4_peer_address_def SERVER_def is_ipv4_def
        canonical_addr_def to_canonical_mapped this_caller_def caller_new_def)

text \<open>
  The connection is the only socket with the client's port: asked about from another server address,
  nobody is found.
\<close>

definition sole_socket :: "procfs \<Rightarrow> transport \<Rightarrow> socket_addr \<Rightarrow> socket_addr \<Rightarrow> bool" where
  "sole_socket fs tr peer server \<longleftrightarrow>
     list_all (\<lambda>e. sa_port (se_local e) = sa_port peer \<longrightarrow> connected_row peer server e) (socket_tables fs tr)"

lemma identify_other_server:
  assumes "sole_socket fs tr peer server" "sa_port server \<noteq> 0"
  shows "fst (identify fs once tr peer \<lparr>sa_ip = ip, sa_port = sa_port server + 1\<rparr> processes) = caller_unknown"
proof -
  have "fit e peer \<lparr>sa_ip = ip, sa_port = sa_port server + 1\<rparr> = None" if "e \<in> set (socket_tables fs tr)" for e
    using assms that by (auto simp: sole_socket_def list_all_iff connected_row_def fit_def Let_def)
  then have "best_sockets (socket_tables fs tr) peer \<lparr>sa_ip = ip, sa_port = sa_port server + 1\<rparr> = []"
    by (auto simp: best_sockets_def filter_empty_conv)
  then show ?thesis by (simp add: identify_def find_socket_best)
qed

lemma own_tcp_holds:
  assumes "own_socket fs once Tcp local server me" "sole_socket fs Tcp local server"
    and "sa_port server \<noteq> 0" "sa_port server \<noteq> -1"
    and "own_socket fs' once' Tcp mapped_local (v4_mapped_addr 127 0 0 1 port) me"
  shows "our_own_tcp_sockets_are_identified_by_their_whole_connection ipv6 fs once local server fs' once' mapped_local port me"
  using identify_own_socket(1) [OF assms(1)] identify_own_socket(1) [OF own_socket_mapped [OF assms(5)]]
    identify_other_server [OF assms(2,3)] assms(4)
  by (auto simp: our_own_tcp_sockets_are_identified_by_their_whole_connection_def this_caller_def caller_new_def
        split: prod.split)

lemma unknown_socket_holds:
  "unlisted fs Udp (v4_addr 192 0 2 77 1) \<Longrightarrow> an_unknown_socket_is_an_unknown_caller fs once"
  by (simp add: an_unknown_socket_is_an_unknown_caller_def identify_of_unlisted)

section \<open>The peer of a Unix socket\<close>

definition peer_of_a_socket_pair_is_this_process :: "int + ucred \<Rightarrow> test_process \<Rightarrow> bool" where
  "peer_of_a_socket_pair_is_this_process sockopt me =
     (case peer_caller sockopt of
        Inl e \<Rightarrow> False
      | Inr caller \<Rightarrow>
          uid caller = Some (tp_uid me) \<and> gid caller = Some (tp_gid me) \<and> pid caller = Some (tp_pid me))"

lemma peer_of_a_socket_pair_holds:
  "peer_of_a_socket_pair_is_this_process
     (Inr \<lparr>cred_pid = tp_pid me, cred_uid = tp_uid me, cred_gid = tp_gid me\<rparr>) me"
  by (simp add: peer_of_a_socket_pair_is_this_process_def peer_caller_def caller_new_def)

end
