(* ===== verification/Blocklist_Tests.thy ===== *)
theory Blocklist_Tests
  imports Test_World
begin

text \<open>
  The tests of \<open>src/blocklist.rs\<close> over the model, each as a truth value: an assertion is a conjunct. That
  they hold says that the model computes what the compiled program is observed to compute.
\<close>

definition bl_of :: "string \<Rightarrow> blocklist option" where
  "bl_of input = blocklist_parse next_line (as_bytes input) ''test''"

definition hosts_file_format :: bool where
  "hosts_file_format =
     (case bl_of (''127.0.0.1 ad.example.com\<newline>0.0.0.0 tracker.example.net\<newline>'') of
        None \<Rightarrow> False
      | Some list \<Rightarrow>
          contains list ''ad.example.com'' \<and>
          contains list ''tracker.example.net'' \<and>
          \<not> contains list ''example.com'' \<and>
          \<not> contains list ''sub.ad.example.com'')"

definition domains_only_format :: bool where
  "domains_only_format =
     (case bl_of (''ad.example.com\<newline>tracker.example.net\<newline>'') of
        None \<Rightarrow> False
      | Some list \<Rightarrow> contains list ''ad.example.com'' \<and> \<not> contains list ''sub.ad.example.com'')"

definition adblock_format :: bool where
  "adblock_format =
     (case bl_of (''||example.com^\<newline>||tracker.net^\<newline>'') of
        None \<Rightarrow> False
      | Some list \<Rightarrow>
          contains list ''example.com'' \<and>
          contains list ''sub.example.com'' \<and>
          contains list ''a.b.c.example.com'' \<and>
          contains list ''tracker.net'' \<and>
          \<not> contains list ''notexample.com'')"

definition comments_and_blanks :: bool where
  "comments_and_blanks =
     (case bl_of (''# comment\<newline>! another comment\<newline>\<newline>||ad.test^\<newline>'') of
        None \<Rightarrow> False
      | Some list \<Rightarrow> blocklist_len list = 1 \<and> contains list ''ad.test'')"

definition case_insensitive :: bool where
  "case_insensitive =
     (case bl_of (''||Ad.Example.COM^\<newline>'') of
        None \<Rightarrow> False
      | Some list \<Rightarrow>
          contains list ''ad.example.com'' \<and>
          contains list ''AD.EXAMPLE.COM'' \<and>
          contains list ''Sub.Ad.Example.Com'')"

definition adblock_exceptions_skipped :: bool where
  "adblock_exceptions_skipped =
     (case bl_of (''||example.com^\<newline>@@||example.com^\<newline>'') of
        None \<Rightarrow> False
      | Some list \<Rightarrow> card (suffixes list) = 1)"

definition localhost_skipped :: bool where
  "localhost_skipped =
     (case bl_of (''127.0.0.1 localhost\<newline>'') of
        None \<Rightarrow> False
      | Some list \<Rightarrow> blocklist_is_empty list)"

lemma bl_of_text:
  assumes "input = unlines ls" "list_all printable ls"
  shows "bl_of input =
     (case fold add_line ls ({}, {}) of (ex, su) \<Rightarrow> Some \<lparr>exact = ex, suffixes = su, bl_name = ''test''\<rparr>)"
  using assms by (simp add: bl_of_def blocklist_parse_def parse_lines_file good_lines_unlines split: prod.split)

lemma hosts_file_format_holds: hosts_file_format
  unfolding hosts_file_format_def
  by (subst bl_of_text [where ls = "[''127.0.0.1 ad.example.com'', ''0.0.0.0 tracker.example.net'']"]) code_simp+

lemma domains_only_format_holds: domains_only_format
  unfolding domains_only_format_def
  by (subst bl_of_text [where ls = "[''ad.example.com'', ''tracker.example.net'']"]) code_simp+

lemma adblock_format_holds: adblock_format
  unfolding adblock_format_def
  by (subst bl_of_text [where ls = "[''||example.com^'', ''||tracker.net^'']"]) code_simp+

lemma comments_and_blanks_holds: comments_and_blanks
  unfolding comments_and_blanks_def
  by (subst bl_of_text [where ls = "[''# comment'', ''! another comment'', [], ''||ad.test^'']"]) code_simp+

lemma case_insensitive_holds: case_insensitive
  unfolding case_insensitive_def by (subst bl_of_text [where ls = "[''||Ad.Example.COM^'']"]) code_simp+

lemma adblock_exceptions_skipped_holds: adblock_exceptions_skipped
  unfolding adblock_exceptions_skipped_def
  by (subst bl_of_text [where ls = "[''||example.com^'', ''@@||example.com^'']"]) code_simp+

lemma localhost_skipped_holds: localhost_skipped
  unfolding localhost_skipped_def by (subst bl_of_text [where ls = "[''127.0.0.1 localhost'']"]) code_simp+

end
