(* ===== verification/Policy_Tests.thy ===== *)
theory Policy_Tests
  imports Identify_Tests Blocklist_Tests Relay
begin

text \<open>
  The tests of \<open>src/policy.rs\<close> and \<open>src/relay.rs\<close> over the model. A document stands for what the
  TOML parser reads from the text in the test; the rules carry the meaning of their CEL expressions,
  and the password database is a parameter.
\<close>

section \<open>The engine\<close>

definition engine_from_toml ::
  "(string \<Rightarrow> 'e + 'p) \<Rightarrow> toml_table \<Rightarrow> 'p policy_engine option"
where
  "engine_from_toml compile doc =
     (case config_of_table doc of
        Inl e \<Rightarrow> None
      | Inr cfg \<Rightarrow>
          (case compile_rules compile 0 (pc_rules cfg) of
             Inl e \<Rightarrow> None
           | Inr rules \<Rightarrow>
               Some \<lparr>pe_rules = rules, pe_blocklists = Map.empty, pe_default_verdict = pc_default_verdict cfg\<rparr>))"

text \<open>An assertion \<open>matches!(verdict, PolicyVerdict::Denied(_))\<close>.\<close>

definition is_denied :: "policy_verdict \<Rightarrow> bool" where
  "is_denied v = (case v of Denied _ \<Rightarrow> True | _ \<Rightarrow> False)"

fun has_substring :: "string \<Rightarrow> string \<Rightarrow> bool" where
  "has_substring t [] \<longleftrightarrow> t = []"
| "has_substring t (c # s) \<longleftrightarrow> starts_with t (c # s) \<or> has_substring t s"

definition tiktok_rules :: "meant_rule list" where
  "tiktok_rules =
     [meant ''deny tiktok for uid 1000'' ''uid == 1000 && hostname.endsWith(\".tiktok.com\")''
        (\<lambda>x. cx_uid x = 1000 \<and> ends_with ''.tiktok.com'' (cx_hostname x)) RuleDeny,
      meant ''allow everything for uid 1000'' ''uid == 1000'' (\<lambda>x. cx_uid x = 1000) RuleAllow]"

definition first_matching_rule_wins :: "(string \<Rightarrow> 'e + 'p) \<Rightarrow> ('p, 'x, 'v) cel_execute \<Rightarrow> bool" where
  "first_matching_rule_wins compile execute =
     (case engine_from_toml compile (test_document DefaultPassthrough tiktok_rules) of
        None \<Rightarrow> False
      | Some engine \<Rightarrow>
          is_denied (evaluate execute engine ''www.tiktok.com'' 1000 1000 42) \<and>
          evaluate execute engine ''github.com'' 1000 1000 42 = Allowed)"

definition only_root_rules :: "meant_rule list" where
  "only_root_rules = [meant ''only root'' ''uid == 0'' (\<lambda>x. cx_uid x = 0) RuleAllow]"

definition default_deny_catches_unmatched :: "(string \<Rightarrow> 'e + 'p) \<Rightarrow> ('p, 'x, 'v) cel_execute \<Rightarrow> bool" where
  "default_deny_catches_unmatched compile execute =
     (case engine_from_toml compile (test_document DefaultDeny only_root_rules) of
        None \<Rightarrow> False
      | Some engine \<Rightarrow>
          evaluate execute engine ''anything.com'' 0 0 1 = Allowed \<and>
          is_denied (evaluate execute engine ''anything.com'' 1000 1000 99))"

definition default_passthrough_falls_through :: "(string \<Rightarrow> 'e + 'p) \<Rightarrow> ('p, 'x, 'v) cel_execute \<Rightarrow> bool" where
  "default_passthrough_falls_through compile execute =
     (case engine_from_toml compile (test_document DefaultPassthrough []) of
        None \<Rightarrow> False
      | Some engine \<Rightarrow> evaluate execute engine ''example.com'' 1000 1000 1 = PassThrough)"

definition gid_rules :: "meant_rule list" where
  "gid_rules =
     [meant ''gid known'' ''gid == 100'' (\<lambda>x. cx_gid x = 100) RuleAllow,
      meant ''gid unknown'' ''gid == -1 && pid == -1'' (\<lambda>x. cx_gid x = -1 \<and> cx_pid x = -1) RulePassthrough]"

definition unknown_gid_and_pid_are_minus_one :: "(string \<Rightarrow> 'e + 'p) \<Rightarrow> ('p, 'x, 'v) cel_execute \<Rightarrow> bool" where
  "unknown_gid_and_pid_are_minus_one compile execute =
     (case engine_from_toml compile (test_document DefaultDeny gid_rules) of
        None \<Rightarrow> False
      | Some engine \<Rightarrow>
          (let known = caller_new 1000 100 7;
               unknown = \<lparr>uid = Some 1000, gid = None, pid = None\<rparr>;
               nobody = caller_unknown
           in evaluate_for execute engine ''a.test'' known = Allowed \<and>
              evaluate_for execute engine ''a.test'' unknown = PassThrough \<and>
              uid_value unknown = 1000 \<and>
              gid_value unknown = -1 \<and>
              pid_value unknown = -1 \<and>
              uid_value nobody = -1 \<and>
              evaluate_for execute engine ''a.test'' nobody = PassThrough))"

definition canonical_rules :: "meant_rule list" where
  "canonical_rules =
     [meant ''blocked'' ''hostname == \"blocked.test\"'' (\<lambda>x. cx_hostname x = ''blocked.test'') RuleDeny,
      meant ''root'' ''hostname == \".\"'' (\<lambda>x. cx_hostname x = ''.'') RuleDeny]"

definition host_names_are_canonicalised_before_evaluation ::
  "(string \<Rightarrow> 'e + 'p) \<Rightarrow> ('p, 'x, 'v) cel_execute \<Rightarrow> bool"
where
  "host_names_are_canonicalised_before_evaluation compile execute =
     (canonical_hostname ''Blocked.Test.'' = ''blocked.test'' \<and>
      canonical_hostname ''blocked.test..'' = ''blocked.test'' \<and>
      canonical_hostname ''.'' = ''.'' \<and>
      canonical_hostname [] = ''.'' \<and>
      (case engine_from_toml compile (test_document DefaultPassthrough canonical_rules) of
         None \<Rightarrow> False
       | Some engine \<Rightarrow>
           (let caller = caller_new 1000 1000 1 in
            is_denied (evaluate_for execute engine ''blocked.test.'' caller) \<and>
            is_denied (evaluate_for execute engine ''BLOCKED.TEST.'' caller) \<and>
            is_denied (evaluate_for execute engine ''.'' caller) \<and>
            is_denied (evaluate_for execute engine [] caller) \<and>
            evaluate_for execute engine ''fine.test.'' caller = PassThrough)))"

definition string_method_rules :: "meant_rule list" where
  "string_method_rules =
     [meant ''block .local'' ''hostname.endsWith(\".local\") || hostname == \"local\"''
        (\<lambda>x. ends_with ''.local'' (cx_hostname x) \<or> cx_hostname x = ''local'') RuleDeny,
      meant ''block internal prefix'' ''hostname.startsWith(\"internal-\")''
        (\<lambda>x. starts_with ''internal-'' (cx_hostname x)) RuleDeny,
      meant (''block anything with '' @ [CHR 0x27] @ ''tracking'' @ [CHR 0x27]) ''hostname.contains(\"tracking\")''
        (\<lambda>x. has_substring ''tracking'' (cx_hostname x)) RuleDeny]"

definition cel_string_methods_work :: "(string \<Rightarrow> 'e + 'p) \<Rightarrow> ('p, 'x, 'v) cel_execute \<Rightarrow> bool" where
  "cel_string_methods_work compile execute =
     (case engine_from_toml compile (test_document DefaultPassthrough string_method_rules) of
        None \<Rightarrow> False
      | Some engine \<Rightarrow>
          is_denied (evaluate execute engine ''foo.local'' 0 0 1) \<and>
          is_denied (evaluate execute engine ''internal-api.corp.com'' 0 0 1) \<and>
          is_denied (evaluate execute engine ''user-tracking.example.com'' 0 0 1) \<and>
          evaluate execute engine ''safe.example.com'' 0 0 1 = PassThrough)"

text \<open>An engine built from rules that are read as they are meant gives the verdicts meant.\<close>

lemma meant_engine_from_toml:
  assumes "cel_reads_rules compile execute rules"
  shows "\<exists>eng. engine_from_toml compile (test_document dv rules) = Some eng \<and>
     (\<forall>h c. evaluate_for execute eng h c = meant_verdict dv rules (no_lists_context (canonical_hostname h) c)) \<and>
     (\<forall>h u g p. evaluate execute eng h u g p =
        meant_verdict dv rules (no_lists_context (canonical_hostname h) (caller_new u g p)))"
  using meant_engine [OF assms, of dv] by (auto simp: engine_from_toml_def test_document_reads test_config_def evaluate_def)

lemmas caller_values = uid_value_def gid_value_def pid_value_def caller_new_def caller_unknown_def

lemma canonical_literals:
  "canonical_hostname ''www.tiktok.com'' = ''www.tiktok.com''"
  "canonical_hostname ''github.com'' = ''github.com''"
  "canonical_hostname ''anything.com'' = ''anything.com''"
  "canonical_hostname ''example.com'' = ''example.com''"
  "canonical_hostname ''a.test'' = ''a.test''"
  "canonical_hostname ''blocked.test.'' = ''blocked.test''"
  "canonical_hostname ''BLOCKED.TEST.'' = ''blocked.test''"
  "canonical_hostname ''Blocked.Test.'' = ''blocked.test''"
  "canonical_hostname ''blocked.test..'' = ''blocked.test''"
  "canonical_hostname [] = ''.''"
  "canonical_hostname ''fine.test.'' = ''fine.test''"
  "canonical_hostname ''foo.local'' = ''foo.local''"
  "canonical_hostname ''internal-api.corp.com'' = ''internal-api.corp.com''"
  "canonical_hostname ''user-tracking.example.com'' = ''user-tracking.example.com''"
  "canonical_hostname ''safe.example.com'' = ''safe.example.com''"
  by code_simp+

lemmas meant_defs = meant_verdict_def meant_def meant_outcome_def default_outcome_def is_denied_def

lemma first_matching_rule_wins_holds:
  assumes "cel_reads_rules compile execute tiktok_rules"
  shows "first_matching_rule_wins compile execute"
  using meant_engine_from_toml [OF assms, of DefaultPassthrough]
  by (auto simp: first_matching_rule_wins_def tiktok_rules_def canonical_literals meant_defs caller_values
        ends_with_def starts_with_def)

lemma default_deny_holds:
  assumes "cel_reads_rules compile execute only_root_rules"
  shows "default_deny_catches_unmatched compile execute"
  using meant_engine_from_toml [OF assms, of DefaultDeny]
  by (auto simp: default_deny_catches_unmatched_def only_root_rules_def canonical_literals meant_defs caller_values)

lemma default_passthrough_holds: "default_passthrough_falls_through compile execute"
  by (simp add: default_passthrough_falls_through_def engine_from_toml_def test_document_reads test_config_def evaluate_def
        evaluate_for_def)

lemma unknown_gid_and_pid_holds:
  assumes "cel_reads_rules compile execute gid_rules"
  shows "unknown_gid_and_pid_are_minus_one compile execute"
  using meant_engine_from_toml [OF assms, of DefaultDeny]
  by (auto simp: unknown_gid_and_pid_are_minus_one_def gid_rules_def canonical_literals meant_defs caller_values)

lemma canonicalised_holds:
  assumes "cel_reads_rules compile execute canonical_rules"
  shows "host_names_are_canonicalised_before_evaluation compile execute"
  using meant_engine_from_toml [OF assms, of DefaultPassthrough]
  by (auto simp: host_names_are_canonicalised_before_evaluation_def canonical_rules_def canonical_literals
        meant_defs)

lemma string_methods_hold:
  assumes "cel_reads_rules compile execute string_method_rules"
  shows "cel_string_methods_work compile execute"
  using meant_engine_from_toml [OF assms, of DefaultPassthrough]
  by (auto simp: cel_string_methods_work_def string_method_rules_def canonical_literals meant_defs
        ends_with_def starts_with_def)

section \<open>Front-ends and relays\<close>

text \<open>\<open>toml::from_str(text).unwrap()\<close>, and what is then asserted of the configuration.\<close>

definition with_config :: "toml_table \<Rightarrow> (policy_config \<Rightarrow> bool) \<Rightarrow> bool" where
  "with_config doc P = (case config_of_table doc of Inl e \<Rightarrow> False | Inr cfg \<Rightarrow> P cfg)"

definition toml_section :: "string \<Rightarrow> toml_table \<Rightarrow> string \<times> toml" where
  "toml_section nm lines = (nm, TTable lines)"

definition dns_frontend_section_is_optional_with_a_default_timeout :: bool where
  "dns_frontend_section_is_optional_with_a_default_timeout =
     (with_config [(''default_verdict'', TString ''deny'')] (\<lambda>cfg. pc_dns_frontend cfg = None) \<and>
      with_config
        [toml_section ''dns_frontend''
           [(''listen'', TString ''127.0.0.1:53''), (''upstream'', TString ''192.0.2.53:53'')]]
        (\<lambda>cfg. case config_dns cfg of
           None \<Rightarrow> False
         | Some front \<Rightarrow>
             Some (df_listen front) = parse_socket_addr ''127.0.0.1:53'' \<and>
             df_upstream front = parse_socket_addr ''192.0.2.53:53'' \<and> df_upstream front \<noteq> None \<and>
             df_upstream_timeout_ms front = 5000 \<and>
             \<not> df_identify_processes front))"

definition front_ends_can_be_disabled_in_place :: bool where
  "front_ends_can_be_disabled_in_place =
     (with_config
        [toml_section ''nscd_frontend''
           [(''enable'', TBoolean False), (''listen'', TString ''/run/nscd/socket''),
            (''upstream'', TString ''/run/nsncd/socket'')],
         toml_section ''dns_frontend'' [(''enable'', TBoolean False), (''listen'', TString ''127.0.0.1:53'')],
         toml_section ''nss_frontend'' [(''enable'', TBoolean False)]]
        (\<lambda>cfg. config_nscd cfg = None \<and> config_dns cfg = None \<and> \<not> config_nss cfg) \<and>
      with_config [toml_section ''nss_frontend'' []] config_nss)"

definition nscd_frontend_section_is_optional :: bool where
  "nscd_frontend_section_is_optional =
     (with_config [(''default_verdict'', TString ''deny'')] (\<lambda>cfg. pc_nscd_frontend cfg = None) \<and>
      with_config
        [toml_section ''nscd_frontend''
           [(''listen'', TString ''/run/nscd/socket''), (''upstream'', TString ''/run/nsncd/socket'')]]
        (\<lambda>cfg. case config_nscd cfg of
           None \<Rightarrow> False
         | Some front \<Rightarrow> nf_listen front = ''/run/nscd/socket'' \<and> nf_upstream front = ''/run/nsncd/socket''))"

text \<open>The texts \<open>NSCD\<close> and \<open>NSS\<close> of the tests, with further lines of their sections.\<close>

definition NSCD :: "toml_table \<Rightarrow> string \<times> toml" where
  "NSCD extra = toml_section ''nscd_frontend'' ([(''listen'', TString ''/a''), (''upstream'', TString ''/b'')] @ extra)"

definition NSS :: "toml_table \<Rightarrow> string \<times> toml" where
  "NSS extra = toml_section ''nss_frontend'' extra"

definition nscd_relays_behind_the_front_ends_before_it :: bool where
  "nscd_relays_behind_the_front_ends_before_it =
     (with_config [] (\<lambda>cfg. relaying cfg = (False, False)) \<and>
      with_config [NSS []] (\<lambda>cfg. relaying cfg = (False, True)) \<and>
      with_config [NSCD []] (\<lambda>cfg. relaying cfg = (True, True)) \<and>
      with_config [NSCD [], NSS []] (\<lambda>cfg. relaying cfg = (True, True)) \<and>
      with_config [NSCD [(''enable'', TBoolean False)], NSS [(''enable'', TBoolean False)]]
        (\<lambda>cfg. relaying cfg = (False, False)))"

type_synonym passwd = "string \<Rightarrow> usize \<Rightarrow> pw_result"

definition users_resolve_to_their_uids :: "passwd \<Rightarrow> string \<Rightarrow> u32 \<Rightarrow> bool" where
  "users_resolve_to_their_uids getpwnam_r current_user me =
     (case relays_resolve getpwnam_r [current_user] of
        Some (Inr relays) \<Rightarrow>
          relays_contains relays (caller_new me 0 1) \<and>
          \<not> relays_contains relays (caller_new (me + 1) 0 1) \<and>
          \<not> relays_contains relays caller_unknown
      | _ \<Rightarrow> False)"

definition unknown_users_are_an_error :: "passwd \<Rightarrow> bool" where
  "unknown_users_are_an_error getpwnam_r =
     (relays_resolve getpwnam_r [''deezns-no-such-user''] = Some (Inl KNotFound))"

definition nscd_user_is_resolved_for_the_listeners_that_relay :: "passwd \<Rightarrow> string \<Rightarrow> u32 \<Rightarrow> bool" where
  "nscd_user_is_resolved_for_the_listeners_that_relay getpwnam_r current_user euid =
     (let me = caller_new euid 0 1;
          user = (''nscd_user'', TString current_user);
          nobody = (''nscd_user'', TString ''deezns-no-such-user'');
          no_relays = \<lparr>lr_policy_socket = relays_default, lr_dns = relays_default\<rparr>
      in with_config [user, NSS []] (\<lambda>cfg.
           case relays_for_config getpwnam_r cfg of
             Some (Inr relays) \<Rightarrow>
               \<not> relays_contains (lr_policy_socket relays) me \<and> relays_contains (lr_dns relays) me
           | _ \<Rightarrow> False) \<and>
         with_config [user, NSCD []] (\<lambda>cfg.
           case relays_for_config getpwnam_r cfg of
             Some (Inr relays) \<Rightarrow>
               relays_contains (lr_policy_socket relays) me \<and> relays_contains (lr_dns relays) me
           | _ \<Rightarrow> False) \<and>
         with_config [nobody] (\<lambda>cfg. relays_for_config getpwnam_r cfg = Some (Inr no_relays)) \<and>
         with_config [nobody, NSS []] (\<lambda>cfg.
           case relays_for_config getpwnam_r cfg of Some r \<Rightarrow> isl r | None \<Rightarrow> False) \<and>
         with_config [NSCD []] (\<lambda>cfg. relays_for_config getpwnam_r cfg = Some (Inr no_relays)))"

definition no_relays_contain_nobody :: "passwd \<Rightarrow> bool" where
  "no_relays_contain_nobody getpwnam_r =
     (case relays_resolve getpwnam_r [] of
        Some (Inr relays) \<Rightarrow> \<not> relays_contains relays (caller_new 0 0 1)
      | _ \<Rightarrow> False)"

text \<open>
  \<open>getpwnam_r\<close> as it is documented: \<open>ERANGE\<close> for a buffer that is too small for the entry of a name,
  and the same answer for every buffer that is large enough.
\<close>

definition passwd_answers :: "passwd \<Rightarrow> string \<Rightarrow> u32 option \<Rightarrow> bool" where
  "passwd_answers getpwnam_r user u \<longleftrightarrow>
     char_of (0 :: nat) \<notin> set user \<and>
     (\<exists>needed. \<forall>len. getpwnam_r user len =
        (if len < needed then PwErrno ERANGE else case u of Some u \<Rightarrow> PwFound u | None \<Rightarrow> PwAbsent))"

lemma uid_of_loop_answers:
  assumes "\<And>len. getpwnam_r user len =
      (if len < needed then PwErrno ERANGE else case u of Some u \<Rightarrow> PwFound u | None \<Rightarrow> PwAbsent)" "0 < len"
  shows "uid_of_loop getpwnam_r user len = Some (Inr u)"
  using assms(2)
proof (induction "needed - len" arbitrary: len rule: less_induct)
  case less
  show ?case
  proof (cases "len < needed")
    case True
    then have "needed - len * 2 < needed - len" "0 < len * 2" using less.prems by simp_all
    then have "uid_of_loop getpwnam_r user (len * 2) = Some (Inr u)" by (rule less.hyps)
    with True show ?thesis using assms(1) by (subst uid_of_loop.simps) simp
  next
    case False
    then show ?thesis using assms(1) by (subst uid_of_loop.simps) (simp split: option.split)
  qed
qed

lemma uid_of_answers: "passwd_answers getpwnam_r user u \<Longrightarrow> uid_of getpwnam_r user = Some (Inr u)"
  by (auto simp: passwd_answers_def uid_of_def intro: uid_of_loop_answers)

lemma relays_resolve_answers:
  "passwd_answers getpwnam_r user u \<Longrightarrow>
     relays_resolve getpwnam_r [user] = Some (case u of Some u \<Rightarrow> Inr \<lparr>rl_uids = {u}\<rparr> | None \<Rightarrow> Inl KNotFound)"
  by (simp add: relays_resolve_singleton uid_of_answers split: option.split)

lemmas config_test_simps = with_config_def toml_section_def config_format_simps config_nscd_def config_dns_def
  config_nss_def filter_option_def enabled_def

lemma dns_section_holds: dns_frontend_section_is_optional_with_a_default_timeout
  by (simp add: dns_frontend_section_is_optional_with_a_default_timeout_def config_test_simps parse_literals
        default_upstream_timeout_ms_def)

lemma nscd_section_holds: nscd_frontend_section_is_optional
  by (simp add: nscd_frontend_section_is_optional_def config_test_simps)

lemma disabled_in_place_holds: front_ends_can_be_disabled_in_place
  by (simp add: front_ends_can_be_disabled_in_place_def config_test_simps parse_literals)

lemmas relay_configs = NSCD_def NSS_def config_test_simps relaying_def

lemma relaying_holds: nscd_relays_behind_the_front_ends_before_it
  by (simp add: nscd_relays_behind_the_front_ends_before_it_def relay_configs)

lemma users_resolve_holds:
  "passwd_answers getpwnam_r user (Some me) \<Longrightarrow> users_resolve_to_their_uids getpwnam_r user me"
  by (simp add: users_resolve_to_their_uids_def relays_resolve_answers relays_contains_def caller_values)

lemma unknown_users_hold:
  "passwd_answers getpwnam_r ''deezns-no-such-user'' None \<Longrightarrow> unknown_users_are_an_error getpwnam_r"
  by (simp add: unknown_users_are_an_error_def relays_resolve_answers)

lemma nscd_user_holds:
  "passwd_answers getpwnam_r user (Some me) \<Longrightarrow> passwd_answers getpwnam_r ''deezns-no-such-user'' None \<Longrightarrow>
     nscd_user_is_resolved_for_the_listeners_that_relay getpwnam_r user me"
  by (simp add: nscd_user_is_resolved_for_the_listeners_that_relay_def relays_for_config_def relay_configs
        relays_resolve_answers relays_contains_def caller_values relays_default_def)

lemma no_relays_hold: "no_relays_contain_nobody getpwnam_r"
  by (simp add: no_relays_contain_nobody_def relays_resolve_def relays_contains_def caller_values)

section \<open>Properties\<close>

text \<open>The rules of all the tests above, each expression once.\<close>

definition policy_test_rules :: "meant_rule list" where
  "policy_test_rules = tiktok_rules @ only_root_rules @ gid_rules @ canonical_rules @ string_method_rules"

text \<open>
  (C40) The crate's tests of blocklists, of the policy engine, of relays and of the search in the socket
  tables hold of the model, for every CEL interpreter that reads the expressions of the test
  configurations as they are meant and every password database that knows the user running the tests
  and not \<open>deezns-no-such-user\<close>.
\<close>

theorem policy_and_relay_tests_hold:
  assumes "cel_reads_rules compile execute policy_test_rules"
    and "passwd_answers getpwnam_r current_user (Some me)"
    and "passwd_answers getpwnam_r ''deezns-no-such-user'' None"
  shows "hosts_file_format \<and> domains_only_format \<and> adblock_format \<and> comments_and_blanks \<and> case_insensitive \<and>
    adblock_exceptions_skipped \<and> localhost_skipped \<and>
    first_matching_rule_wins compile execute \<and> default_deny_catches_unmatched compile execute \<and>
    default_passthrough_falls_through compile execute \<and> unknown_gid_and_pid_are_minus_one compile execute \<and>
    host_names_are_canonicalised_before_evaluation compile execute \<and> cel_string_methods_work compile execute \<and>
    dns_frontend_section_is_optional_with_a_default_timeout \<and> nscd_frontend_section_is_optional \<and>
    front_ends_can_be_disabled_in_place \<and> nscd_relays_behind_the_front_ends_before_it \<and>
    users_resolve_to_their_uids getpwnam_r current_user me \<and> unknown_users_are_an_error getpwnam_r \<and>
    nscd_user_is_resolved_for_the_listeners_that_relay getpwnam_r current_user me \<and>
    no_relays_contain_nobody getpwnam_r \<and> the_most_specific_matching_socket_wins \<and>
    equally_good_sockets_of_different_users_identify_nobody \<and> ipv4_mapped_rows_match_ipv4_peers"
  by (intro conjI hosts_file_format_holds domains_only_format_holds adblock_format_holds comments_and_blanks_holds
        case_insensitive_holds adblock_exceptions_skipped_holds localhost_skipped_holds first_matching_rule_wins_holds default_deny_holds default_passthrough_holds
        unknown_gid_and_pid_holds canonicalised_holds string_methods_hold dns_section_holds nscd_section_holds
        disabled_in_place_holds relaying_holds
        users_resolve_holds unknown_users_hold nscd_user_holds no_relays_hold
        most_specific_holds equally_good_holds ipv4_mapped_holds)
     (use assms in \<open>simp_all add: policy_test_rules_def\<close>)

theorem policy_and_relay_tests_hold_witness:
  "first_matching_rule_wins (table_compile policy_test_rules) table_execute \<and>
   cel_string_methods_work (table_compile policy_test_rules) table_execute \<and>
   nscd_user_is_resolved_for_the_listeners_that_relay
     (\<lambda>u len. if len < 2000 then PwErrno ERANGE else if u = ''alice'' then PwFound 1000 else PwAbsent) ''alice'' 1000"
proof -
  let ?db = "\<lambda>u len. if len < 2000 then PwErrno ERANGE else if u = ''alice'' then PwFound 1000 else PwAbsent"
  have "distinct (map (\<lambda>(r, m). rc_expr r) policy_test_rules)"
    by (simp add: policy_test_rules_def tiktok_rules_def only_root_rules_def gid_rules_def canonical_rules_def
          string_method_rules_def meant_def)
  then have "cel_reads_rules (table_compile policy_test_rules) table_execute policy_test_rules"
    by (rule table_reads) simp
  moreover have "passwd_answers ?db ''alice'' (Some 1000)" "passwd_answers ?db ''deezns-no-such-user'' None"
    unfolding passwd_answers_def by (auto intro!: exI [of _ 2000] simp: char_of_def)
  ultimately show ?thesis
    using policy_and_relay_tests_hold [of "table_compile policy_test_rules" table_execute ?db "''alice''" 1000]
    by blast
qed

end
