(* ===== verification/Nscd_Tests.thy ===== *)
theory Nscd_Tests
  imports Test_World Listeners
begin

text \<open>
  The tests of \<open>src/nscd.rs\<close> over the model, for either byte order, any identity of the test process
  and any sockets. An assertion is a conjunct, and an \<open>unwrap\<close> or a slice that would panic makes a
  test false. The integration tests run the handler of a connection against a fake nscd that answers
  every request with the same bytes.
\<close>

section \<open>The nscd protocol\<close>

text \<open>The native-endian integers of a message; \<open>None\<close> is a failed assertion that it holds whole ones.\<close>

fun ints :: "endianness \<Rightarrow> bytes \<Rightarrow> i32 list option" where
  "ints en [] = Some []"
| "ints en (a # b # c # d # bs) = map_option ((#) (from_ne_bytes en [a, b, c, d])) (ints en bs)"
| "ints en _ = None"

definition request_types_round_trip_in_declaration_order :: bool where
  "request_types_round_trip_in_declaration_order \<longleftrightarrow>
     from_i32 0 = Some GetPwByName \<and>
     from_i32 4 = Some GetHostByName \<and>
     from_i32 14 = Some GetAi \<and>
     from_i32 21 = Some GetFdNetGr \<and>
     from_i32 22 = None \<and>
     from_i32 (-1) = None \<and>
     list_all (\<lambda>t. from_i32 (as_i32 t) = Some t) ALL_TYPES \<and>
     is_host_lookup GetAi \<and>
     is_host_lookup GetHostByNameV6 \<and>
     \<not> is_host_lookup GetHostByAddr \<and>
     \<not> is_host_lookup GetPwByName"

text \<open>The errors the test tells apart by a word of their message: "version", "type", "exceeds".\<close>

definition says_version :: "request_error + request \<Rightarrow> bool" where
  "says_version r = (case r of Inl (UnsupportedVersion _) \<Rightarrow> True | _ \<Rightarrow> False)"

definition says_type :: "request_error + request \<Rightarrow> bool" where
  "says_type r = (case r of Inl (UnknownType _) \<Rightarrow> True | _ \<Rightarrow> False)"

definition says_exceeds :: "request_error + request \<Rightarrow> bool" where
  "says_exceeds r = (case r of Inl (KeyTooLong _) \<Rightarrow> True | _ \<Rightarrow> False)"

definition requests_parse_and_encode :: "endianness \<Rightarrow> bool" where
  "requests_parse_and_encode en =
     (let msg = encode en GetAi (as_bytes ''Example.Test'' @ [0]);
          bad_version = to_ne_bytes en 4 (1 :: i32) @ drop 4 msg;
          bad_type = take 4 msg @ to_ne_bytes en 4 (99 :: i32) @ drop 8 msg;
          too_long = encode en GetAi (replicate (MAX_KEY_LEN + 1) (byte_of CHR ''a''))
      in Option.bind (slice msg 0 12) (ints en) = Some [2, 14, 13] \<and>
         (case parse en msg of
            Inl e \<Rightarrow> False
          | Inr request \<Rightarrow>
              ty request = GetAi \<and> hostname request = Some ''Example.Test'' \<and> raw request = msg) \<and>
         says_version (parse en bad_version) \<and>
         says_type (parse en bad_type) \<and>
         says_exceeds (parse en too_long) \<and>
         isl (parse en (take 11 msg)) \<and>
         isl (parse en (take (length msg - 1) msg)) \<and>
         (case parse en (encode en GetAi [0]) of
            Inl e \<Rightarrow> False
          | Inr nameless \<Rightarrow> hostname nameless = None))"

definition v4_1234 :: ip_addr where "v4_1234 = V4 (ipv4_new 1 2 3 4)"
definition v6_localhost :: ip_addr where "v6_localhost = V6 1"

definition getai_replies_follow_nscd_layout :: "endianness \<Rightarrow> bool" where
  "getai_replies_follow_nscd_layout en =
     (let reply = ai_found en ''a.test'' [v4_1234, v6_localhost];
          expected = [1, 2, 3, 4] @ octets v6_localhost @ [ucast AF_INET, ucast AF_INET6] @
            as_bytes ''a.test'' @ [0];
          denied = ai_not_found en HOST_NOT_FOUND
      in Option.bind (slice reply 0 24) (ints en) = Some [2, 1, 2, 20, 7, 0] \<and>
         drop 24 reply = expected \<and>
         ints en denied = Some [2, 0, 0, 0, 0, HOST_NOT_FOUND] \<and>
         Option.bind (ints en (ai_not_found en TRY_AGAIN)) (\<lambda>l. get l 5) = Some TRY_AGAIN)"

definition gethostbyname_replies_follow_nscd_layout :: "endianness \<Rightarrow> bool" where
  "gethostbyname_replies_follow_nscd_layout en =
     ((case hst_found en ''a.test'' AF_INET [v4_1234, v6_localhost] of
         None \<Rightarrow> False
       | Some reply \<Rightarrow>
           Option.bind (slice reply 0 32) (ints en) = Some [2, 1, 7, 0, AF_INET, 4, 1, 0] \<and>
           drop 32 reply = as_bytes ''a.test'' @ [0, 1, 2, 3, 4]) \<and>
      (case hst_found en ''a.test'' AF_INET6 [v4_1234, v6_localhost] of
         None \<Rightarrow> False
       | Some reply \<Rightarrow>
           Option.bind (slice reply 0 32) (ints en) = Some [2, 1, 7, 0, AF_INET6, 16, 1, 0] \<and>
           drop 39 reply = octets v6_localhost) \<and>
      hst_found en ''a.test'' AF_INET6 [v4_1234] = None \<and>
      ints en (hst_not_found en HOST_NOT_FOUND) = Some [2, 0, 0, 0, -1, -1, 0, HOST_NOT_FOUND] \<and>
      Option.bind (ints en (found en GetHostByNameV6 ''a.test'' [v4_1234])) (\<lambda>l. get l 7) = Some NO_DATA)"

definition host_replies_are_validated_before_relaying :: "endianness \<Rightarrow> bool" where
  "host_replies_are_validated_before_relaying en =
     (let ai = ai_found en ''a.test'' [v4_1234] in
      valid_host_reply_i64 en GetAi ai \<and>
      valid_host_reply_i64 en GetAi (ai_not_found en HOST_NOT_FOUND) \<and>
      (case hst_found en ''a.test'' AF_INET [v4_1234] of
         None \<Rightarrow> False
       | Some hst \<Rightarrow>
           valid_host_reply_i64 en GetHostByName hst \<and>
           \<not> valid_host_reply_i64 en GetHostByName (take (HST_HEADER_LEN + 3) hst)) \<and>
      valid_host_reply_i64 en GetHostByNameV6 (hst_not_found en NO_DATA) \<and>
      \<not> valid_host_reply_i64 en GetAi [] \<and>
      \<not> valid_host_reply_i64 en GetAi (take 23 (ai_not_found en 0)) \<and>
      \<not> valid_host_reply_i64 en GetAi (butlast ai) \<and>
      \<not> valid_host_reply_i64 en GetAi (ai_reply en (-1) 0 [] []) \<and>
      \<not> valid_host_reply_i64 en GetHostByName (hst_reply en (-1) 0 [] (-1) []) \<and>
      \<not> valid_host_reply_i64 en GetAi (to_ne_bytes en 4 (1 :: i32) @ drop 4 (ai_not_found en 0)))"

lemma request_types_hold: request_types_round_trip_in_declaration_order
  by code_simp

lemma getai_layout_holds: "getai_replies_follow_nscd_layout en"
  by (cases en; hypsubst_thin; code_simp)

lemma gethostbyname_layout_holds: "gethostbyname_replies_follow_nscd_layout en"
  by (cases en; hypsubst_thin; code_simp)

lemma host_replies_hold: "host_replies_are_validated_before_relaying en"
  by (cases en; hypsubst_thin; code_simp)

lemma parse_long_key:
  assumes "MAX_KEY_LEN < length k" "length k < 2 ^ 31"
  shows "parse en (encode en t k) = Inl (KeyTooLong (length k))"
proof -
  have "usize_try_from (word_of_nat (length k)) = Some (length k)"
    using assms(2) by (simp add: usize_try_from_Some_iff)
  moreover have "from_i32 (as_i32 t) = Some t" by (simp add: from_i32_Some_iff)
  ultimately show ?thesis
    using assms(1) by (simp add: parse_def int_at_encode length_encode HEADER_LEN_def)
qed

lemma too_long_refused:
  "says_exceeds (parse en (encode en GetAi (replicate (MAX_KEY_LEN + 1) (byte_of CHR ''a''))))"
  by (simp add: parse_long_key says_exceeds_def MAX_KEY_LEN_def)

text \<open>The messages of the test, one at a time.\<close>

lemma requests_evaluate:
  "Option.bind (slice (encode en GetAi (as_bytes ''Example.Test'' @ [0])) 0 12) (ints en) = Some [2, 14, 13]"
  "says_version (parse en (to_ne_bytes en 4 (1 :: i32) @ drop 4 (encode en GetAi (as_bytes ''Example.Test'' @ [0]))))"
  "says_type (parse en (take 4 (encode en GetAi (as_bytes ''Example.Test'' @ [0])) @ to_ne_bytes en 4 (99 :: i32) @
     drop 8 (encode en GetAi (as_bytes ''Example.Test'' @ [0]))))"
  by (cases en; hypsubst_thin; code_simp)+

lemma parse_shortened: "n < length k + 12 \<Longrightarrow> length k \<le> 1024 \<Longrightarrow> isl (parse en (take n (encode en t k)))"
proof (rule ccontr)
  assume n: "n < length k + 12" "length k \<le> 1024" and "\<not> isl (parse en (take n (encode en t k)))"
  then obtain r where "parse en (take n (encode en t k)) = Inr r" by (cases "parse en (take n (encode en t k))") auto
  then have r: "take n (encode en t k) = encode en (ty r) (key r)" "length (key r) \<le> 1024"
    by (simp_all add: parse_Inr_iff MAX_KEY_LEN_def)
  have len: "length (key r) + 12 = n"
    using arg_cong [OF r(1), of length] n by (simp add: length_encode)
  have "word_of_nat (length (key r)) = (word_of_nat (length k) :: i32)"
    using arg_cong [OF r(1), of "\<lambda>bs. int_at en bs 8"] len [symmetric] by (simp add: int_at_encode int_at_take)
  moreover have "usize_try_from (word_of_nat (length (key r))) = Some (length (key r))"
    "usize_try_from (word_of_nat (length k)) = Some (length k)"
    using r(2) n(2) by (simp_all add: usize_try_from_Some_iff)
  ultimately have "length (key r) = length k" by (metis option.inject)
  with len n(1) show False by simp
qed

lemma hostname_key:
  "printable s \<Longrightarrow> s \<noteq> [] \<Longrightarrow> hostname \<lparr>ty = t, key = as_bytes s @ [0], raw = r\<rparr> = Some s"
  using printable_bytes [of s] by (simp add: hostname_def strip_nul_def from_utf8_def ascii_valid)

lemma printable_example: "printable ''Example.Test''"
  by code_simp

lemma requests_hold: "requests_parse_and_encode en"
proof -
  let ?k = "as_bytes ''Example.Test'' @ [0]"
  have "parse en (encode en GetAi ?k) = Inr \<lparr>ty = GetAi, key = ?k, raw = encode en GetAi ?k\<rparr>"
    "parse en (encode en GetAi [0]) = Inr \<lparr>ty = GetAi, key = [0], raw = encode en GetAi [0]\<rparr>"
    by (simp_all add: parse_Inr_iff MAX_KEY_LEN_def)
  moreover have "hostname \<lparr>ty = GetAi, key = ?k, raw = r\<rparr> = Some ''Example.Test''"
    "hostname \<lparr>ty = GetAi, key = [0], raw = r\<rparr> = None" for r
    using hostname_key [of "''Example.Test''" GetAi r] by (simp_all add: printable_example) (simp add: hostname_def strip_nul_def from_utf8_def)
  ultimately show ?thesis
    unfolding requests_parse_and_encode_def Let_def
    by (simp only: requests_evaluate too_long_refused) (simp add: parse_shortened length_encode)
qed

section \<open>A front-end, a fake upstream and a client\<close>

definition fake_upstream :: "string \<Rightarrow> bytes \<Rightarrow> unix_net" where
  "fake_upstream up reply deadline path =
     (if path = up then
        Ready \<lparr>uc_write = (\<lambda>_. Ready ()), uc_answer = (\<lambda>_. \<lparr>inbuf = reply, at_end = Closed\<rparr>)\<rparr>
      else Failed KNotFound)"

text \<open>No socket is bound anywhere.\<close>

definition nowhere :: unix_net where
  "nowhere deadline path = Failed KNotFound"

definition TEST_TIMEOUT :: nat where "TEST_TIMEOUT = 300"
definition TEST_MAX_CONNECTIONS :: usize where "TEST_MAX_CONNECTIONS = 4"

text \<open>\<open>None\<close> is a panic of one of the \<open>unwrap\<close>s. The test configurations name no file.\<close>

definition nscd_start_frontend ::
  "(string \<Rightarrow> 'e + 'p) \<Rightarrow> policy_config \<Rightarrow> string \<Rightarrow> string \<Rightarrow> 'p nscd_frontend option"
where
  "nscd_start_frontend compile cfg front upstream =
     (case engine_from_config (\<lambda>_. Inl KNotFound) next_line compile cfg of
        Some (Inr engine) \<Rightarrow>
          Some (nscd_with_limits \<lparr>nf_enable = True, nf_listen = front, nf_upstream = upstream\<rparr> engine
                  TEST_TIMEOUT TEST_TIMEOUT TEST_MAX_CONNECTIONS)
      | _ \<Rightarrow> None)"

definition test_client :: "test_process \<Rightarrow> bytes \<Rightarrow> nscd_client" where
  "test_client me msg =
     \<lparr>cl_cred = Inr \<lparr>cred_pid = tp_pid me, cred_uid = tp_uid me, cred_gid = tp_gid me\<rparr>,
      cl_incoming = (\<lambda>_. \<lparr>inbuf = msg, at_end = Silent\<rparr>), cl_write = (\<lambda>_. Ready ()), cl_shutdown = Ready ()\<rparr>"

definition seen_upstream :: "nscd_event list \<Rightarrow> bytes list" where
  "seen_upstream evs = List.map_filter (\<lambda>e. case e of SentUpstream _ b \<Rightarrow> Some b | _ \<Rightarrow> None) evs"

definition sent_to_client :: "nscd_event list \<Rightarrow> bytes" where
  "sent_to_client evs = concat (List.map_filter (\<lambda>e. case e of SentClient b \<Rightarrow> Some b | _ \<Rightarrow> None) evs)"

text \<open>One request: what the real nscd saw of it, and what the client got back.\<close>

definition nscd_ask ::
  "endianness \<Rightarrow> ('p, 'x, 'v) cel_execute \<Rightarrow> unix_net \<Rightarrow> 'p nscd_frontend \<Rightarrow> test_process \<Rightarrow> bytes
     \<Rightarrow> bytes list \<times> bytes"
where
  "nscd_ask en execute net fe me msg =
     (let evs = fst (handle en execute net fe (test_client me msg)) in (seen_upstream evs, sent_to_client evs))"

definition canned :: "endianness \<Rightarrow> bytes" where
  "canned en = ai_found en ''canned.test'' [V4 (ipv4_new 192 0 2 99)]"

text \<open>A host name as a key, and a test that starts a front-end with the policy for this user.\<close>

definition name_key :: "string \<Rightarrow> bytes" where
  "name_key s = as_bytes s @ [0]"

definition with_nscd_frontend ::
  "(string \<Rightarrow> 'e + 'p) \<Rightarrow> test_process \<Rightarrow> string \<Rightarrow> string \<Rightarrow> ('p nscd_frontend \<Rightarrow> bool) \<Rightarrow> bool"
where
  "with_nscd_frontend compile me front up test =
     (case nscd_start_frontend compile (test_config DefaultPassthrough (policy_for_this_user me)) front up of
        None \<Rightarrow> False
      | Some fe \<Rightarrow> test fe)"

definition denials_are_answered_without_asking_upstream ::
  "endianness \<Rightarrow> (string \<Rightarrow> 'e + 'p) \<Rightarrow> ('p, 'x, 'v) cel_execute \<Rightarrow> test_process \<Rightarrow> string \<Rightarrow> string \<Rightarrow> bool"
where
  "denials_are_answered_without_asking_upstream en compile execute me front up =
     with_nscd_frontend compile me front up (\<lambda>fe.
       let ask = nscd_ask en execute (fake_upstream up (canned en)) fe me;
           (seen1, reply1) = ask (encode en GetAi (name_key ''blocked.test''));
           (seen2, reply2) = ask (encode en GetHostByName (name_key ''BLOCKED.test''))
       in reply1 = ai_not_found en HOST_NOT_FOUND \<and>
          reply2 = hst_not_found en HOST_NOT_FOUND \<and>
          seen1 @ seen2 = [])"

definition passthrough_and_other_requests_are_forwarded_verbatim ::
  "endianness \<Rightarrow> (string \<Rightarrow> 'e + 'p) \<Rightarrow> ('p, 'x, 'v) cel_execute \<Rightarrow> test_process \<Rightarrow> string \<Rightarrow> string \<Rightarrow> bool"
where
  "passthrough_and_other_requests_are_forwarded_verbatim en compile execute me front up =
     with_nscd_frontend compile me front up (\<lambda>fe.
       let ask = nscd_ask en execute (fake_upstream up (canned en)) fe me;
           getai = encode en GetAi (name_key ''unlisted.test'');
           getpw = encode en GetPwByName (name_key ''alice'');
           byaddr = encode en GetHostByAddr [127, 0, 0, 1];
           (seen1, reply1) = ask getai;
           (seen2, reply2) = ask getpw;
           (seen3, reply3) = ask byaddr
       in reply1 = canned en \<and> reply2 = canned en \<and> reply3 = canned en \<and>
          seen1 @ seen2 @ seen3 = [getai, getpw, byaddr])"

text \<open>The sum \<open>geteuid() + 1\<close> panics for the user id \<open>-1\<close>.\<close>

definition the_callers_own_credentials_reach_the_policy ::
  "endianness \<Rightarrow> (string \<Rightarrow> 'e + 'p) \<Rightarrow> ('p, 'x, 'v) cel_execute \<Rightarrow> test_process \<Rightarrow> string \<Rightarrow> string \<Rightarrow> bool"
where
  "the_callers_own_credentials_reach_the_policy en compile execute me front up =
     with_nscd_frontend compile me front up (\<lambda>fe.
       let net = fake_upstream up (canned en);
           msg = encode en GetAi (name_key ''mine.test'')
       in snd (nscd_ask en execute net fe me msg) = canned en \<and>
          tp_uid me \<noteq> -1 \<and>
          (case parse en msg of
             Inl e \<Rightarrow> False
           | Inr request \<Rightarrow>
               snd (reply_for en execute net fe request (caller_new (tp_uid me + 1) 0 1)) =
                 Bytes (ai_not_found en HOST_NOT_FOUND)))"

definition nscd_own_records_are_answered_directly ::
  "endianness \<Rightarrow> (string \<Rightarrow> 'e + 'p) \<Rightarrow> ('p, 'x, 'v) cel_execute \<Rightarrow> test_process \<Rightarrow> string \<Rightarrow> string \<Rightarrow> bool"
where
  "nscd_own_records_are_answered_directly en compile execute me front up =
     with_nscd_frontend compile me front up (\<lambda>fe.
       let ask = nscd_ask en execute (fake_upstream up (canned en)) fe me;
           ten = V4 (ipv4_new 10 0 0 1);
           (seen1, reply1) = ask (encode en GetAi (name_key ''example.local''));
           (seen2, reply2) = ask (encode en GetHostByName (name_key ''example.local''));
           (seen3, reply3) = ask (encode en GetHostByNameV6 (name_key ''example.local''))
       in reply1 = ai_found en ''example.local'' [ten] \<and>
          Some reply2 = hst_found en ''example.local'' AF_INET [ten] \<and>
          reply3 = hst_not_found en NO_DATA \<and>
          seen1 @ seen2 @ seen3 = [])"

definition an_unreachable_upstream_degrades_safely ::
  "endianness \<Rightarrow> (string \<Rightarrow> 'e + 'p) \<Rightarrow> ('p, 'x, 'v) cel_execute \<Rightarrow> test_process \<Rightarrow> string \<Rightarrow> string \<Rightarrow> bool"
where
  "an_unreachable_upstream_degrades_safely en compile execute me front up =
     with_nscd_frontend compile me front up (\<lambda>fe.
       let reply = (\<lambda>t name. snd (nscd_ask en execute nowhere fe me (encode en t (name_key name))))
       in reply GetAi ''unlisted.test'' = ai_not_found en TRY_AGAIN \<and>
          reply GetHostByName ''unlisted.test'' = hst_not_found en TRY_AGAIN \<and>
          reply GetAi ''blocked.test'' = ai_not_found en HOST_NOT_FOUND \<and>
          reply GetPwByName ''alice'' = [])"

text \<open>Three upstreams in turn: silent, not serving the database, and good.\<close>

definition a_silent_or_broken_upstream_never_reaches_the_client_as_is ::
  "endianness \<Rightarrow> (string \<Rightarrow> 'e + 'p) \<Rightarrow> ('p, 'x, 'v) cel_execute \<Rightarrow> test_process \<Rightarrow> string \<Rightarrow> string \<Rightarrow> bool"
where
  "a_silent_or_broken_upstream_never_reaches_the_client_as_is en compile execute me front up =
     with_nscd_frontend compile me front up (\<lambda>fe.
       let reply = (\<lambda>answer t name.
             snd (nscd_ask en execute (fake_upstream up answer) fe me (encode en t (name_key name))));
           good = ai_found en ''unlisted.test'' [V4 (ipv4_new 10 9 8 7)]
       in reply [] GetAi ''unlisted.test'' = ai_not_found en TRY_AGAIN \<and>
          reply [] GetHostByName ''unlisted.test'' = hst_not_found en TRY_AGAIN \<and>
          reply [] GetPwByName ''alice'' = [] \<and>
          reply (ai_reply en (-1) 0 [] []) GetAi ''unlisted.test'' = ai_not_found en TRY_AGAIN \<and>
          reply good GetAi ''unlisted.test'' = good)"

definition absolute_names_are_judged_like_relative_ones ::
  "endianness \<Rightarrow> (string \<Rightarrow> 'e + 'p) \<Rightarrow> ('p, 'x, 'v) cel_execute \<Rightarrow> test_process \<Rightarrow> string \<Rightarrow> string \<Rightarrow> bool"
where
  "absolute_names_are_judged_like_relative_ones en compile execute me front up =
     with_nscd_frontend compile me front up (\<lambda>fe.
       nscd_ask en execute (fake_upstream up (canned en)) fe me (encode en GetAi (name_key ''blocked.test.'')) =
         ([], ai_not_found en HOST_NOT_FOUND))"

definition malformed_requests_are_dropped ::
  "endianness \<Rightarrow> (string \<Rightarrow> 'e + 'p) \<Rightarrow> ('p, 'x, 'v) cel_execute \<Rightarrow> test_process \<Rightarrow> string \<Rightarrow> string \<Rightarrow> bool"
where
  "malformed_requests_are_dropped en compile execute me front up =
     with_nscd_frontend compile me front up (\<lambda>fe.
       let ask = nscd_ask en execute (fake_upstream up (canned en)) fe me;
           msg = encode en GetAi (name_key ''unlisted.test'');
           bad_version = to_ne_bytes en 4 (1 :: i32) @ drop 4 msg;
           small = encode en GetAi (name_key ''x'');
           huge_key = take 8 small @ to_ne_bytes en 4 (word_of_nat MAX_KEY_LEN + 1 :: i32) @ drop 12 small
       in ask bad_version = ([], []) \<and> ask huge_key = ([], []))"

text \<open>
  Clients that connect and send nothing take every slot; each is dropped at its deadline without a
  byte, its slot is given back, and the next client is served.
\<close>

definition idle_clients_are_dropped_and_do_not_block_others ::
  "endianness \<Rightarrow> (string \<Rightarrow> 'e + 'p) \<Rightarrow> ('p, 'x, 'v) cel_execute \<Rightarrow> test_process \<Rightarrow> string \<Rightarrow> string \<Rightarrow> bool"
where
  "idle_clients_are_dropped_and_do_not_block_others en compile execute me front up =
     with_nscd_frontend compile me front up (\<lambda>fe.
       let net = fake_upstream up (canned en);
           idle = (test_client me [], net);
           full = \<lparr>sv_phase = Acquiring, sv_free = 0, sv_tasks = replicate TEST_MAX_CONNECTIONS idle\<rparr>;
           freed = \<lparr>sv_phase = Acquiring, sv_free = TEST_MAX_CONNECTIONS, sv_tasks = []\<rparr>
       in (nscd_serve en execute fe)\<^sup>*\<^sup>* (serve_start (fe_slots fe)) full \<and>
          handle en execute net fe (test_client me []) = ([], Ready ()) \<and>
          (nscd_serve en execute fe)\<^sup>*\<^sup>* full freed \<and>
          snd (nscd_ask en execute net fe me (encode en GetAi (name_key ''unlisted.test''))) = canned en)"

section \<open>How the model answers the test client\<close>

lemma test_frontend:
  assumes "cel_reads_rules compile execute (policy_for_this_user me)" "real_process me"
  shows "\<exists>fe. nscd_start_frontend compile (test_config DefaultPassthrough (policy_for_this_user me)) front up = Some fe \<and>
     fe_upstream fe = up \<and> fe_slots fe = TEST_MAX_CONNECTIONS \<and>
     (\<forall>h c. evaluate_for execute (fe_engine fe) h c = user_verdict me (canonical_hostname h) c)"
  using meant_engine [OF assms(1), of DefaultPassthrough] policy_for_this_user_verdict [OF assms(2)]
  by (auto simp: nscd_start_frontend_def engine_from_config_def test_config_def empty_config_def
        nscd_with_limits_def)

lemma nscd_ask_encoded:
  assumes "length k \<le> 1024"
  shows "nscd_ask en execute net fe me (encode en t k) =
     (case reply_for en execute net fe \<lparr>ty = t, key = k, raw = encode en t k\<rparr> (this_caller me) of
        (sent, r) \<Rightarrow> (seen_upstream sent, case r of Bytes b \<Rightarrow> sent_to_client sent @ b | Close \<Rightarrow> sent_to_client sent))"
proof -
  have "parse en (encode en t k) = Inr \<lparr>ty = t, key = k, raw = encode en t k\<rparr>"
    using assms by (simp add: parse_Inr_iff MAX_KEY_LEN_def)
  from read_one_request [OF this, of "[]" Silent]
  show ?thesis
    by (simp add: nscd_ask_def handle_def test_client_def peer_caller_def this_caller_def seen_upstream_def
          sent_to_client_def List.map_filter_def split: prod.split reply.split)
qed

lemma name_hostname:
  "printable s \<Longrightarrow> s \<noteq> [] \<Longrightarrow> hostname \<lparr>ty = t, key = name_key s, raw = r\<rparr> = Some s"
  by (simp add: name_key_def hostname_key)

lemma seen_upstream_simps [simp]:
  "seen_upstream [] = []" "seen_upstream [SentUpstream up b] = [b]" "sent_to_client [] = []"
  "sent_to_client [SentUpstream up b] = []"
  by (simp_all add: seen_upstream_def sent_to_client_def List.map_filter_def)

lemma forward_fake:
  "fe_upstream fe = up \<Longrightarrow> forward (fake_upstream up r) fe req = ([SentUpstream up (raw req)], Inr r)"
  by (simp add: forward_def fake_upstream_def read_to_end_def await_bind_def)

lemma forward_nowhere: "forward nowhere fe req = ([], Inl KNotFound)"
  by (simp add: forward_def nowhere_def)

text \<open>The client asks for a name.\<close>

lemma ask_host:
  assumes "is_host_lookup t" "printable s" "s \<noteq> []" "length s < 1024"
    and "\<forall>h c. evaluate_for execute (fe_engine fe) h c = user_verdict me (canonical_hostname h) c"
  shows "nscd_ask en execute net fe me (encode en t (name_key s)) =
     (case user_verdict me (canonical_hostname s) (this_caller me) of
        Denied why \<Rightarrow> ([], not_found en t HOST_NOT_FOUND)
      | v \<Rightarrow>
          if v = Allowed \<and> s = ''example.local'' then ([], found en t s [V4 (ipv4_new 10 0 0 1)])
          else
            (case forward net fe \<lparr>ty = t, key = name_key s, raw = encode en t (name_key s)\<rparr> of
               (sent, r) \<Rightarrow>
                 (seen_upstream sent,
                  case r of Inr b \<Rightarrow> if valid_host_reply en t b then b else not_found en t TRY_AGAIN
                          | Inl e \<Rightarrow> not_found en t TRY_AGAIN)))"
proof -
  have up: "sent_to_client (fst (forward net fe req)) = []" for req
    using forward_sends [of net fe req] by auto
  have "length (name_key s) \<le> 1024" using assms(4) by (simp add: name_key_def)
  then show ?thesis
    using assms name_hostname [of s t "encode en t (name_key s)"]
      up [of "\<lparr>ty = t, key = name_key s, raw = encode en t (name_key s)\<rparr>"]
    by (auto simp: nscd_ask_encoded reply_for_def forward_host_def upstream_resolve_def Let_def
          split: policy_verdict.split prod.split sum.split)
qed

lemma ask_other:
  assumes "\<not> is_host_lookup t" "length k \<le> 1024"
  shows "fe_upstream fe = up \<Longrightarrow>
      nscd_ask en execute (fake_upstream up r) fe me (encode en t k) = ([encode en t k], r)"
    and "nscd_ask en execute nowhere fe me (encode en t k) = ([], [])"
  using assms by (simp_all add: nscd_ask_encoded reply_for_def forward_fake forward_nowhere)

lemma test_names:
  "printable ''blocked.test''" "printable ''BLOCKED.test''" "printable ''unlisted.test''" "printable ''mine.test''"
  "printable ''example.local''" "printable ''blocked.test.''"
  "canonical_hostname ''blocked.test'' = ''blocked.test''" "canonical_hostname ''BLOCKED.test'' = ''blocked.test''"
  "canonical_hostname ''unlisted.test'' = ''unlisted.test''" "canonical_hostname ''mine.test'' = ''mine.test''"
  "canonical_hostname ''example.local'' = ''example.local''" "canonical_hostname ''blocked.test.'' = ''blocked.test''"
  by code_simp+

lemma test_types: "is_host_lookup GetAi" "is_host_lookup GetHostByName" "is_host_lookup GetHostByNameV6"
  "\<not> is_host_lookup GetPwByName" "\<not> is_host_lookup GetHostByAddr"
  by (simp_all add: is_host_lookup_def)

lemma test_replies:
  "valid_host_reply en GetAi (canned en)"
  "valid_host_reply en GetAi (ai_found en ''unlisted.test'' [a])"
  "\<not> valid_host_reply en t []" "\<not> valid_host_reply en GetAi (ai_reply en (-1) 0 [] [])"
     apply (simp_all add: canned_def ai_found_valid)
   apply (simp add: valid_host_reply_def slice_def)
  apply (cases en; hypsubst_thin; code_simp)
  done

lemma malformed_reads:
  "fst (read_request en \<lparr>inbuf = to_ne_bytes en 4 (1 :: i32) @ drop 4 (encode en GetAi (name_key ''unlisted.test'')),
      at_end = Silent\<rparr>) = Failed KInvalidData"
  "fst (read_request en \<lparr>inbuf = take 8 (encode en GetAi (name_key ''x'')) @
      to_ne_bytes en 4 (word_of_nat MAX_KEY_LEN + 1 :: i32) @ drop 12 (encode en GetAi (name_key ''x'')),
      at_end = Silent\<rparr>) = Failed KInvalidData"
  by (cases en; hypsubst_thin; code_simp)+

lemmas user_verdicts = user_verdict_def test_names test_types

text \<open>A test that starts a front-end holds if it holds of every front-end that judges as is meant.\<close>

lemma with_nscd_frontend_holds:
  assumes "cel_reads_rules compile execute (policy_for_this_user me)" "real_process me"
    and "\<And>fe. fe_upstream fe = up \<Longrightarrow> fe_slots fe = TEST_MAX_CONNECTIONS \<Longrightarrow>
      \<forall>h c. evaluate_for execute (fe_engine fe) h c = user_verdict me (canonical_hostname h) c \<Longrightarrow> test fe"
  shows "with_nscd_frontend compile me front up test"
  using test_frontend [OF assms(1,2), of front up] assms(3) by (auto simp: with_nscd_frontend_def)

lemmas nscd_tests_simps = ask_host ask_other forward_fake forward_nowhere user_verdicts not_found_def test_replies

lemma denials_hold:
  assumes "cel_reads_rules compile execute (policy_for_this_user me)" "real_process me"
  shows "denials_are_answered_without_asking_upstream en compile execute me front up"
  unfolding denials_are_answered_without_asking_upstream_def
  by (rule with_nscd_frontend_holds [OF assms]) (simp add: nscd_tests_simps)

lemma passthrough_holds:
  assumes "cel_reads_rules compile execute (policy_for_this_user me)" "real_process me"
  shows "passthrough_and_other_requests_are_forwarded_verbatim en compile execute me front up"
  unfolding passthrough_and_other_requests_are_forwarded_verbatim_def
  by (rule with_nscd_frontend_holds [OF assms]) (simp add: nscd_tests_simps name_key_def [of "''alice''"])

lemma parse_name:
  "length s < 1024 \<Longrightarrow> parse en (encode en t (name_key s)) =
     Inr \<lparr>ty = t, key = name_key s, raw = encode en t (name_key s)\<rparr>"
  by (simp add: parse_Inr_iff MAX_KEY_LEN_def name_key_def)

lemma someone_else: "caller_new (tp_uid me + 1) g p \<noteq> this_caller me"
  by (simp add: this_caller_def caller_new_def)

lemma own_credentials_hold:
  assumes "cel_reads_rules compile execute (policy_for_this_user me)" "real_process me"
  shows "the_callers_own_credentials_reach_the_policy en compile execute me front up"
  unfolding the_callers_own_credentials_reach_the_policy_def
  by (rule with_nscd_frontend_holds [OF assms])
     (use assms(2) in \<open>simp add: nscd_tests_simps real_process_def reply_for_def name_hostname parse_name
        someone_else\<close>)

lemma nscd_own_records_hold:
  assumes "cel_reads_rules compile execute (policy_for_this_user me)" "real_process me"
  shows "nscd_own_records_are_answered_directly en compile execute me front up"
  unfolding nscd_own_records_are_answered_directly_def
  by (rule with_nscd_frontend_holds [OF assms])
     (simp add: nscd_tests_simps found_def hst_found_def address_family_def AF_INET_def AF_INET6_def)

lemma unreachable_upstream_holds:
  assumes "cel_reads_rules compile execute (policy_for_this_user me)" "real_process me"
  shows "an_unreachable_upstream_degrades_safely en compile execute me front up"
  unfolding an_unreachable_upstream_degrades_safely_def
  by (rule with_nscd_frontend_holds [OF assms]) (simp add: nscd_tests_simps name_key_def [of "''alice''"])

lemma broken_upstream_holds:
  assumes "cel_reads_rules compile execute (policy_for_this_user me)" "real_process me"
  shows "a_silent_or_broken_upstream_never_reaches_the_client_as_is en compile execute me front up"
  unfolding a_silent_or_broken_upstream_never_reaches_the_client_as_is_def
  by (rule with_nscd_frontend_holds [OF assms]) (simp add: nscd_tests_simps name_key_def [of "''alice''"])

lemma absolute_names_hold:
  assumes "cel_reads_rules compile execute (policy_for_this_user me)" "real_process me"
  shows "absolute_names_are_judged_like_relative_ones en compile execute me front up"
  unfolding absolute_names_are_judged_like_relative_ones_def
  by (rule with_nscd_frontend_holds [OF assms]) (simp add: nscd_tests_simps)

lemma malformed_requests_hold:
  assumes "cel_reads_rules compile execute (policy_for_this_user me)" "real_process me"
  shows "malformed_requests_are_dropped en compile execute me front up"
  unfolding malformed_requests_are_dropped_def Let_def
  by (rule with_nscd_frontend_holds [OF assms])
     (simp add: nscd_ask_def handle_def test_client_def peer_caller_def malformed_reads)

lemma idle_handled: "handle en execute net fe (test_client me []) = ([], Ready ())"
  by (simp add: handle_def test_client_def peer_caller_def read_request_def read_exact_def end_await_def
        HEADER_LEN_def)

lemma idle_clients_hold:
  assumes "cel_reads_rules compile execute (policy_for_this_user me)" "real_process me"
  shows "idle_clients_are_dropped_and_do_not_block_others en compile execute me front up"
  unfolding idle_clients_are_dropped_and_do_not_block_others_def Let_def
  by (rule with_nscd_frontend_holds [OF assms])
     (simp add: nscd_tests_simps serve_steps nscd_work_def serve_start_def idle_handled accept_fills_empty accept_frees_all)

section \<open>Properties\<close>

text \<open>
  (C38) The crate's tests of the nscd front-end hold of the model, on machines of either byte order, for
  every process that runs them, all socket paths, and every CEL interpreter that reads the expressions
  of the test configuration as they are meant: the layouts and the check of replies, and against a
  fake nscd denials without a question upstream, verbatim forwarding, the caller's credentials, own
  records, an upstream that is unreachable, silent or broken, absolute names, malformed requests, and
  idle clients that fill every slot.
\<close>

theorem nscd_tests_hold:
  assumes "cel_reads_rules compile execute (policy_for_this_user me)" "real_process me"
  shows "request_types_round_trip_in_declaration_order \<and> requests_parse_and_encode en \<and>
    getai_replies_follow_nscd_layout en \<and> gethostbyname_replies_follow_nscd_layout en \<and>
    host_replies_are_validated_before_relaying en \<and>
    denials_are_answered_without_asking_upstream en compile execute me front up \<and>
    passthrough_and_other_requests_are_forwarded_verbatim en compile execute me front up \<and>
    the_callers_own_credentials_reach_the_policy en compile execute me front up \<and>
    nscd_own_records_are_answered_directly en compile execute me front up \<and>
    an_unreachable_upstream_degrades_safely en compile execute me front up \<and>
    a_silent_or_broken_upstream_never_reaches_the_client_as_is en compile execute me front up \<and>
    idle_clients_are_dropped_and_do_not_block_others en compile execute me front up \<and>
    absolute_names_are_judged_like_relative_ones en compile execute me front up \<and>
    malformed_requests_are_dropped en compile execute me front up"
  by (intro conjI request_types_hold requests_hold getai_layout_holds gethostbyname_layout_holds
        host_replies_hold denials_hold passthrough_holds own_credentials_hold nscd_own_records_hold
        unreachable_upstream_holds broken_upstream_holds idle_clients_hold absolute_names_hold
        malformed_requests_hold assms)

text \<open>The test process of user 1000 and group 100, with the process id 4242.\<close>

theorem nscd_tests_hold_witness:
  "\<exists>me. tp_pid me = 4242 \<and>
     (let compile = table_compile (policy_for_this_user me) in
      denials_are_answered_without_asking_upstream Little compile table_execute me ''/run/nscd/socket'' ''/run/nsncd/socket'' \<and>
      the_callers_own_credentials_reach_the_policy Little compile table_execute me ''/run/nscd/socket'' ''/run/nsncd/socket'')"
proof -
  let ?me = "\<lparr>tp_uid = 1000, tp_gid = 100, tp_pid = 4242\<rparr>"
  have "cel_reads_rules (table_compile (policy_for_this_user ?me)) table_execute (policy_for_this_user ?me)"
    by (rule table_reads) (simp_all add: policy_for_this_user_def meant_def)
  moreover have "real_process ?me" by (simp add: real_process_def)
  ultimately show ?thesis
    using nscd_tests_hold [of "table_compile (policy_for_this_user ?me)" table_execute ?me Little
        "''/run/nscd/socket''" "''/run/nsncd/socket''"]
    by (intro exI [of _ ?me]) (simp add: Let_def)
qed

end
