(* ===== verification/Dns_Tests.thy ===== *)
theory Dns_Tests
  imports Identify_Tests Listeners
begin

unbundle bit_operations_syntax

text \<open>
  The tests of \<open>src/dns.rs\<close> over the model. The integration tests ask a front-end questions over UDP and
  TCP, with a fake upstream server that answers every query with one fixed record; they run in any
  world whose socket tables show the sockets of the test process. The state of the world at the
  n-th question of a test is its own, since every question uses a new socket.
\<close>

section \<open>DNS messages\<close>

text \<open>\<open>split('.')\<close> on a string.\<close>

fun split_dot :: "string \<Rightarrow> string \<Rightarrow> string list" where
  "split_dot acc [] = [acc]"
| "split_dot acc (c # s) = (if c = CHR ''.'' then acc # split_dot [] s else split_dot (acc @ [c]) s)"

definition build_query :: "u16 \<Rightarrow> string \<Rightarrow> u16 \<Rightarrow> bytes" where
  "build_query qid nm qtype =
     to_be_bytes 2 qid @ to_be_bytes 2 FLAG_RD @ [0, 1, 0, 0, 0, 0, 0, 0] @
     concat (map (\<lambda>label. word_of_nat (length label) # as_bytes label)
       (filter (\<lambda>l. l \<noteq> []) (split_dot [] nm))) @
     [0] @ to_be_bytes 2 qtype @ to_be_bytes 2 CLASS_IN"

text \<open>\<open>None\<close> is the panic of \<open>unwrap\<close> on a message without a header.\<close>

definition rcode :: "bytes \<Rightarrow> u16 option" where
  "rcode reply = map_option (\<lambda>flags. flags AND 0x000F) (be16 reply 2)"

definition ancount :: "bytes \<Rightarrow> u16 option" where
  "ancount reply = be16 reply 6"

definition queries_parse :: bool where
  "queries_parse =
     (let msg = build_query 0x1234 ''Sub.Example.TEST'' TYPE_AAAA in
      (case query_parse msg of
         Inl e \<Rightarrow> False
       | Inr query \<Rightarrow>
           qy_id query = 0x1234 \<and>
           qn_name (qy_question query) = ''sub.example.test'' \<and>
           qn_type (qy_question query) = TYPE_AAAA \<and>
           qn_class (qy_question query) = CLASS_IN \<and>
           qn_end (qy_question query) = length msg) \<and>
      (case query_parse (build_query 1 ''.'' TYPE_A) of
         Inl e \<Rightarrow> False
       | Inr root \<Rightarrow> qn_name (qy_question root) = []) \<and>
      query_parse (take 11 msg) = Inl Dns_Wire.TooShort \<and>
      query_parse (msg[2 := msg ! 2 OR 0x80]) = Inl NotAQuery \<and>
      query_parse (msg[5 := 2]) = Inl (QuestionCount 2) \<and>
      query_parse (msg[12 := 0xC0]) = Inl BadName \<and>
      query_parse (take (length msg - 1) msg) = Inl Dns_Wire.TooShort)"

definition negative_replies_echo_the_question :: bool where
  "negative_replies_echo_the_question =
     (let msg = build_query 7 ''blocked.test'' TYPE_A; junk = formerr [0xAB, 0xCD, 1, 2] in
      (case query_parse msg of
         Inl e \<Rightarrow> False
       | Inr query \<Rightarrow>
           be16 (nxdomain query) 0 = Some 7 \<and>
           be16 (nxdomain query) 2 = Some (FLAG_QR OR FLAG_RD OR FLAG_RA OR RCODE_NXDOMAIN) \<and>
           slice (nxdomain query) 4 12 = Some [0, 1, 0, 0, 0, 0, 0, 0] \<and>
           drop 12 (nxdomain query) = drop 12 msg \<and>
           rcode (servfail query) = Some RCODE_SERVFAIL) \<and>
      be16 junk 0 = Some 0xABCD \<and>
      rcode junk = Some RCODE_FORMERR \<and>
      length junk = DNS_HEADER_LEN \<and>
      length (formerr []) = DNS_HEADER_LEN)"

text \<open>The addresses \<open>10.0.0.1\<close> and \<open>fd00::1\<close>.\<close>

definition v4_ten :: ip_addr where "v4_ten = V4 (ipv4_new 10 0 0 1)"
definition v6_fd00 :: ip_addr where "v6_fd00 = V6 0xFD000000000000000000000000000001"

definition answers_carry_the_addresses_of_the_asked_type :: bool where
  "answers_carry_the_addresses_of_the_asked_type =
     (let msg = build_query 9 ''example.local'' TYPE_A in
      (case query_parse msg of
         Inl e \<Rightarrow> False
       | Inr query \<Rightarrow>
           let reply = answer query [v4_ten, v6_fd00] in
           rcode reply = Some RCODE_NOERROR \<and>
           ancount reply = Some 1 \<and>
           drop (length msg) reply =
             [0xC0, 12, 0, 1, 0, 1] @ to_be_bytes 4 ANSWER_TTL @ [0, 4, 10, 0, 0, 1]) \<and>
      (case query_parse (build_query 9 ''example.local'' TYPE_AAAA) of
         Inl e \<Rightarrow> False
       | Inr query \<Rightarrow>
           let reply = answer query [v4_ten, v6_fd00] in
           ancount reply = Some 1 \<and> drop (length reply - 16) reply = octets v6_fd00) \<and>
      (case query_parse (build_query 9 ''example.local'' 16) of
         Inl e \<Rightarrow> False
       | Inr query \<Rightarrow>
           let reply = answer query [v4_ten, v6_fd00] in
           rcode reply = Some RCODE_NOERROR \<and> ancount reply = Some 0))"

lemma queries_parse_holds: queries_parse
  by code_simp

lemma negative_replies_hold: negative_replies_echo_the_question
  by code_simp

lemma answers_hold: answers_carry_the_addresses_of_the_asked_type
  by code_simp

section \<open>A front-end, a fake upstream and a client\<close>

definition CANNED_ADDRESS :: ip_addr where
  "CANNED_ADDRESS = V4 (ipv4_new 192 0 2 99)"

text \<open>\<open>None\<close> is a panic of the task, which then never answers.\<close>

definition canned_reply :: "bytes \<Rightarrow> bytes option" where
  "canned_reply query =
     (case query_parse query of Inl e \<Rightarrow> None | Inr parsed \<Rightarrow> Some (answer parsed [CANNED_ADDRESS]))"

text \<open>The message of a length-prefixed stream, if it is complete.\<close>

definition framed :: "bytes \<Rightarrow> bytes option" where
  "framed bs =
     (case read_tcp_message \<lparr>inbuf = bs, at_end = Silent\<rparr> of (Ready (Some m), _) \<Rightarrow> Some m | _ \<Rightarrow> None)"

definition dns_fake_upstream :: "socket_addr \<Rightarrow> dns_net" where
  "dns_fake_upstream addr =
     \<lparr>net_udp_bind = (\<lambda>_ _. Ready
        \<lparr>us_connect = (\<lambda>_. Ready ()), us_send = (\<lambda>_. Ready ()),
         us_recv = (\<lambda>query. case canned_reply query of Some r \<Rightarrow> [Datagram r] | None \<Rightarrow> [])\<rparr>),
      net_tcp_connect = (\<lambda>_ a.
        if a = addr then Ready
          \<lparr>tc_write = (\<lambda>_. Ready ()),
           tc_answer = (\<lambda>bs. case Option.bind (framed bs) canned_reply of
              Some r \<Rightarrow> \<lparr>inbuf = tcp_frame r, at_end = Closed\<rparr>
            | None \<Rightarrow> \<lparr>inbuf = [], at_end = Silent\<rparr>)\<rparr>
        else Failed (RawOs 111))\<rparr>"

text \<open>Nothing listens: datagrams get no answer, and connections are refused.\<close>

definition dns_nowhere :: dns_net where
  "dns_nowhere =
     \<lparr>net_udp_bind = (\<lambda>_ _. Ready
        \<lparr>us_connect = (\<lambda>_. Ready ()), us_send = (\<lambda>_. Ready ()), us_recv = (\<lambda>_. [])\<rparr>),
      net_tcp_connect = (\<lambda>_ _. Failed (RawOs 111))\<rparr>"

text \<open>What the upstream server saw: the datagrams, and the message of a connection.\<close>

definition dns_seen :: "dns_event list \<Rightarrow> bytes list" where
  "dns_seen evs =
     List.map_filter (\<lambda>e. case e of UdpSend _ b \<Rightarrow> Some b | TcpWrite _ _ \<Rightarrow> None) evs @
     (case framed (concat (map (\<lambda>e. case e of TcpWrite _ b \<Rightarrow> b | UdpSend _ _ \<Rightarrow> []) evs)) of
        Some m \<Rightarrow> [m] | None \<Rightarrow> [])"

definition TEST_READ_TIMEOUT :: nat where "TEST_READ_TIMEOUT = 300"
definition DNS_TEST_MAX_CONNECTIONS :: usize where "DNS_TEST_MAX_CONNECTIONS = 4"

definition relays_from_uids :: "u32 list \<Rightarrow> relays" where
  "relays_from_uids uids = \<lparr>rl_uids = set uids\<rparr>"

definition dns_policy_for_this_user :: "test_process \<Rightarrow> meant_rule list" where
  "dns_policy_for_this_user me =
     policy_for_this_user me @ [meant ''root'' ''hostname == \".\"'' (\<lambda>x. cx_hostname x = ''.'') RuleDeny]"

text \<open>
  The addresses the listeners were bound to, and the n-th question over each transport: the socket
  tables, the remembered probe, and the address of the client's socket.
\<close>

record dns_world =
  dw_udp_addr :: socket_addr
  dw_tcp_addr :: socket_addr
  dw_udp :: "nat \<Rightarrow> procfs \<times> bool option \<times> socket_addr"
  dw_tcp :: "nat \<Rightarrow> procfs \<times> bool option \<times> socket_addr"

definition start_frontend_with ::
  "(string \<Rightarrow> 'e + 'p) \<Rightarrow> dns_world \<Rightarrow> policy_config \<Rightarrow> socket_addr \<Rightarrow> relays \<Rightarrow> bool \<Rightarrow> 'p dns_frontend option"
where
  "start_frontend_with compile w cfg upstream relays identify_processes =
     (case engine_from_config (\<lambda>_. Inl KNotFound) next_line compile cfg of
        Some (Inr engine) \<Rightarrow>
          (case dns_with_limits
                  \<lparr>df_enable = True, df_listen = v4_addr 127 0 0 1 0, df_upstream = Some upstream,
                   df_upstream_timeout_ms = 300, df_identify_processes = identify_processes\<rparr>
                  engine TEST_READ_TIMEOUT DNS_TEST_MAX_CONNECTIONS of
             Inr front \<Rightarrow> Some ((with_relays front relays)\<lparr>dn_listen := dw_udp_addr w\<rparr>)
           | Inl e \<Rightarrow> None)
      | _ \<Rightarrow> None)"

definition ask_udp ::
  "('p, 'x, 'v) cel_execute \<Rightarrow> dns_net \<Rightarrow> dns_world \<Rightarrow> 'p dns_frontend \<Rightarrow> nat \<Rightarrow> bytes \<Rightarrow> bytes list \<times> bytes option"
where
  "ask_udp execute net w fe n query =
     (let (fs, once, peer) = dw_udp w n;
          ((sent, reply, _), _) = udp_task_reply execute net (Some fs) once fe (dn_listen fe) (received query peer)
      in (dns_seen sent, Some reply))"

definition tcp_test_client :: "dns_world \<Rightarrow> bytes \<Rightarrow> tcp_client" where
  "tcp_test_client w bs =
     \<lparr>tl_local = Inr (dw_tcp_addr w), tl_incoming = (\<lambda>_. \<lparr>inbuf = bs, at_end = Silent\<rparr>),
      tl_write = (\<lambda>_. Ready ())\<rparr>"

definition ask_tcp ::
  "('p, 'x, 'v) cel_execute \<Rightarrow> dns_net \<Rightarrow> dns_world \<Rightarrow> 'p dns_frontend \<Rightarrow> nat \<Rightarrow> bytes \<Rightarrow> bytes list \<times> bytes option"
where
  "ask_tcp execute net w fe n query =
     (let (fs, once, peer) = dw_tcp w n;
          outs = fst (serve_tcp_connection execute (\<lambda>_. (net, Some fs)) fe (tcp_test_client w (tcp_frame query)) peer once)
      in (dns_seen (List.map_filter (\<lambda>x. case x of ToUpstream e \<Rightarrow> Some e | ToClient _ \<Rightarrow> None) outs),
          framed (client_bytes outs)))"

definition with_dns_frontend ::
  "(string \<Rightarrow> 'e + 'p) \<Rightarrow> dns_world \<Rightarrow> test_process \<Rightarrow> socket_addr \<Rightarrow> relays \<Rightarrow> bool \<Rightarrow> ('p dns_frontend \<Rightarrow> bool) \<Rightarrow> bool"
where
  "with_dns_frontend compile w me up relays processes test =
     (case start_frontend_with compile w (test_config DefaultPassthrough (dns_policy_for_this_user me)) up relays processes of
        None \<Rightarrow> False
      | Some fe \<Rightarrow> test fe)"

text \<open>The response code and the id of a reply that must be there.\<close>

definition has_rcode :: "u16 \<Rightarrow> bytes option \<Rightarrow> bool" where
  "has_rcode code reply \<longleftrightarrow> Option.bind reply rcode = Some code"

definition denied_names_get_nxdomain_without_asking_upstream ::
  "(string \<Rightarrow> 'e + 'p) \<Rightarrow> ('p, 'x, 'v) cel_execute \<Rightarrow> dns_world \<Rightarrow> test_process \<Rightarrow> socket_addr \<Rightarrow> bool"
where
  "denied_names_get_nxdomain_without_asking_upstream compile execute w me up =
     with_dns_frontend compile w me up relays_default True (\<lambda>fe.
       let net = dns_fake_upstream up;
           (seen1, reply1) = ask_udp execute net w fe 0 (build_query 1 ''Blocked.Test'' TYPE_A);
           (seen2, reply2) = ask_tcp execute net w fe 1 (build_query 2 ''blocked.test'' TYPE_AAAA)
       in has_rcode RCODE_NXDOMAIN reply1 \<and>
          Option.bind reply1 (\<lambda>r. be16 r 0) = Some 1 \<and>
          has_rcode RCODE_NXDOMAIN reply2 \<and>
          seen1 @ seen2 = [])"

definition other_names_are_forwarded_over_the_clients_transport ::
  "(string \<Rightarrow> 'e + 'p) \<Rightarrow> ('p, 'x, 'v) cel_execute \<Rightarrow> dns_world \<Rightarrow> test_process \<Rightarrow> socket_addr \<Rightarrow> bool"
where
  "other_names_are_forwarded_over_the_clients_transport compile execute w me up =
     with_dns_frontend compile w me up relays_default True (\<lambda>fe.
       let net = dns_fake_upstream up;
           udp_query = build_query 3 ''unlisted.test'' TYPE_A;
           (seen1, reply1) = ask_udp execute net w fe 0 udp_query;
           tcp_query = build_query 4 ''unlisted.test'' 16;
           (seen2, reply2) = ask_tcp execute net w fe 1 tcp_query
       in reply1 = canned_reply udp_query \<and>
          reply2 = canned_reply tcp_query \<and>
          seen1 @ seen2 = [udp_query, tcp_query])"

definition unknown_peer :: socket_addr where
  "unknown_peer = v4_addr 192 0 2 77 1"

definition the_caller_is_identified_from_its_socket ::
  "(string \<Rightarrow> 'e + 'p) \<Rightarrow> ('p, 'x, 'v) cel_execute \<Rightarrow> dns_world \<Rightarrow> test_process \<Rightarrow> socket_addr \<Rightarrow> bool"
where
  "the_caller_is_identified_from_its_socket compile execute w me up =
     with_dns_frontend compile w me up relays_default True (\<lambda>fe.
       let net = dns_fake_upstream up;
           query5 = build_query 5 ''mine.test'' TYPE_A;
           query6 = build_query 6 ''mine.test'' TYPE_A;
           (fs, once, _) = dw_udp w 2
       in snd (ask_udp execute net w fe 0 query5) = canned_reply query5 \<and>
          snd (ask_tcp execute net w fe 1 query6) = canned_reply query6 \<and>
          (case query_parse query6 of
             Inl e \<Rightarrow> False
           | Inr parsed \<Rightarrow>
               has_rcode RCODE_NXDOMAIN (Some (snd (fst
                 (respond execute net (Some fs) once fe (qy_raw parsed) unknown_peer Udp (dn_listen fe)))))))"

definition without_identify_processes_only_the_uid_is_known ::
  "(string \<Rightarrow> 'e + 'p) \<Rightarrow> ('p, 'x, 'v) cel_execute \<Rightarrow> dns_world \<Rightarrow> test_process \<Rightarrow> socket_addr \<Rightarrow> bool"
where
  "without_identify_processes_only_the_uid_is_known compile execute w me up =
     with_dns_frontend compile w me up relays_default False (\<lambda>fe.
       has_rcode RCODE_NXDOMAIN
         (snd (ask_udp execute (dns_fake_upstream up) w fe 0 (build_query 40 ''mine.test'' TYPE_A))))"

definition queries_from_relays_are_forwarded_unjudged ::
  "(string \<Rightarrow> 'e + 'p) \<Rightarrow> ('p, 'x, 'v) cel_execute \<Rightarrow> dns_world \<Rightarrow> test_process \<Rightarrow> socket_addr \<Rightarrow> bool"
where
  "queries_from_relays_are_forwarded_unjudged compile execute w me up =
     with_dns_frontend compile w me up (relays_from_uids [tp_uid me]) True (\<lambda>fe.
       let net = dns_fake_upstream up;
           query = build_query 30 ''blocked.test'' TYPE_A;
           (seen1, reply1) = ask_udp execute net w fe 0 query;
           tcp_query = build_query 31 ''blocked.test'' TYPE_A;
           (seen2, reply2) = ask_tcp execute net w fe 1 tcp_query;
           (fs, once, _) = dw_udp w 2
       in reply1 = canned_reply query \<and>
          reply2 = canned_reply tcp_query \<and>
          seen1 @ seen2 = [query, tcp_query] \<and>
          has_rcode RCODE_NXDOMAIN (Some (snd (fst
            (respond execute net (Some fs) once fe query unknown_peer Udp (dn_listen fe))))))"

definition root_queries_are_judged_under_the_name_dot ::
  "(string \<Rightarrow> 'e + 'p) \<Rightarrow> ('p, 'x, 'v) cel_execute \<Rightarrow> dns_world \<Rightarrow> test_process \<Rightarrow> socket_addr \<Rightarrow> bool"
where
  "root_queries_are_judged_under_the_name_dot compile execute w me up =
     with_dns_frontend compile w me up relays_default True (\<lambda>fe.
       let net = dns_fake_upstream up;
           (seen1, reply1) = ask_udp execute net w fe 0 (build_query 20 ''.'' 2)
       in has_rcode RCODE_NXDOMAIN reply1 \<and>
          seen1 = [] \<and>
          has_rcode RCODE_NXDOMAIN (snd (ask_udp execute net w fe 1 (build_query 21 ''blocked.test.'' TYPE_A))))"

definition idle_tcp_clients_are_dropped_and_do_not_block_others ::
  "(string \<Rightarrow> 'e + 'p) \<Rightarrow> ('p, 'x, 'v) cel_execute \<Rightarrow> dns_world \<Rightarrow> test_process \<Rightarrow> socket_addr \<Rightarrow> bool"
where
  "idle_tcp_clients_are_dropped_and_do_not_block_others compile execute w me up =
     with_dns_frontend compile w me up relays_default True (\<lambda>fe.
       let net = dns_fake_upstream up;
           (fs, once, peer) = dw_tcp w 0;
           env = (\<lambda>_. (net, Some fs));
           idle = (tcp_test_client w [], peer, env, once);
           full = \<lparr>sv_phase = Acquiring, sv_free = 0, sv_tasks = replicate DNS_TEST_MAX_CONNECTIONS idle\<rparr>;
           freed = \<lparr>sv_phase = Acquiring, sv_free = DNS_TEST_MAX_CONNECTIONS, sv_tasks = []\<rparr>;
           query = build_query 22 ''unlisted.test'' TYPE_A
       in (dns_serve_tcp execute fe)\<^sup>*\<^sup>* (serve_start (dn_tcp_slots fe)) full \<and>
          serve_tcp_connection execute env fe (tcp_test_client w []) peer once = ([], Ready ()) \<and>
          (dns_serve_tcp execute fe)\<^sup>*\<^sup>* full freed \<and>
          snd (ask_tcp execute net w fe 1 query) = canned_reply query)"

definition dns_own_records_are_answered_directly ::
  "(string \<Rightarrow> 'e + 'p) \<Rightarrow> ('p, 'x, 'v) cel_execute \<Rightarrow> dns_world \<Rightarrow> test_process \<Rightarrow> socket_addr \<Rightarrow> bool"
where
  "dns_own_records_are_answered_directly compile execute w me up =
     with_dns_frontend compile w me up relays_default True (\<lambda>fe.
       let net = dns_fake_upstream up;
           query = build_query 8 ''example.local'' TYPE_A;
           (seen1, reply1) = ask_udp execute net w fe 0 query;
           (seen2, reply2) = ask_udp execute net w fe 1 (build_query 9 ''example.local'' TYPE_AAAA)
       in (case query_parse query of
             Inl e \<Rightarrow> False
           | Inr parsed \<Rightarrow> reply1 = Some (answer parsed [V4 (ipv4_new 10 0 0 1)])) \<and>
          Option.bind reply1 ancount = Some 1 \<and>
          has_rcode RCODE_NOERROR reply2 \<and>
          Option.bind reply2 ancount = Some 0 \<and>
          seen1 @ seen2 = [])"

definition an_unreachable_upstream_yields_servfail ::
  "(string \<Rightarrow> 'e + 'p) \<Rightarrow> ('p, 'x, 'v) cel_execute \<Rightarrow> dns_world \<Rightarrow> test_process \<Rightarrow> bool"
where
  "an_unreachable_upstream_yields_servfail compile execute w me =
     with_dns_frontend compile w me (v4_addr 127 0 0 1 9) relays_default True (\<lambda>fe.
       has_rcode RCODE_SERVFAIL (snd (ask_udp execute dns_nowhere w fe 0 (build_query 10 ''unlisted.test'' TYPE_A))) \<and>
       has_rcode RCODE_SERVFAIL (snd (ask_tcp execute dns_nowhere w fe 1 (build_query 11 ''unlisted.test'' TYPE_A))) \<and>
       has_rcode RCODE_NXDOMAIN (snd (ask_udp execute dns_nowhere w fe 2 (build_query 12 ''blocked.test'' TYPE_A))))"

definition malformed_messages_get_formerr ::
  "(string \<Rightarrow> 'e + 'p) \<Rightarrow> ('p, 'x, 'v) cel_execute \<Rightarrow> dns_world \<Rightarrow> test_process \<Rightarrow> socket_addr \<Rightarrow> bool"
where
  "malformed_messages_get_formerr compile execute w me up =
     with_dns_frontend compile w me up relays_default True (\<lambda>fe.
       let net = dns_fake_upstream up;
           (seen1, reply1) = ask_udp execute net w fe 0 [0x12, 0x34, 0, 0];
           (seen2, reply2) = ask_udp execute net w fe 1 ((build_query 13 ''blocked.test'' TYPE_A)[5 := 2])
       in Option.bind reply1 (\<lambda>r. be16 r 0) = Some 0x1234 \<and>
          has_rcode RCODE_FORMERR reply1 \<and>
          has_rcode RCODE_FORMERR reply2 \<and>
          seen1 @ seen2 = [])"

section \<open>Queries of the test client\<close>

definition labels_of :: "string \<Rightarrow> string list" where
  "labels_of nm = filter (\<lambda>l. l \<noteq> []) (split_dot [] nm)"

definition wire_name :: "string \<Rightarrow> bool" where
  "wire_name nm \<longleftrightarrow>
     list_all (\<lambda>l. printable l \<and> l \<noteq> [] \<and> length l \<le> 63) (labels_of nm) \<and>
     length (wire_labels (map as_bytes (labels_of nm))) \<le> 255"

definition query_of :: "u16 \<Rightarrow> string \<Rightarrow> u16 \<Rightarrow> dns_query" where
  "query_of qid nm qtype =
     \<lparr>qy_id = qid, qy_flags = FLAG_RD,
      qy_question =
        \<lparr>qn_name = join ''.'' (map to_ascii_lowercase (labels_of nm)), qn_type = qtype, qn_class = CLASS_IN,
         qn_end = 17 + length (wire_labels (map as_bytes (labels_of nm)))\<rparr>,
      qy_raw = build_query qid nm qtype\<rparr>"

lemma build_query_message:
  "build_query qid nm qtype =
     query_message qid FLAG_RD [0, 0, 0, 0, 0, 0] (map as_bytes (labels_of nm)) qtype CLASS_IN []"
proof -
  have "to_be_bytes 2 (1 :: u16) = [0, 1]" by code_simp
  then show ?thesis
    by (simp add: build_query_def query_message_def labels_of_def wire_labels_def wire_label_def comp_def)
qed

lemma label_text_printable: "printable l \<Longrightarrow> label_text (as_bytes l) = to_ascii_lowercase l"
  using printable_bytes [of l] by (simp add: label_text_def ascii_lossy)

lemma parse_build_query:
  assumes "wire_name nm"
  shows "query_parse (build_query qid nm qtype) = Inr (query_of qid nm qtype)"
proof -
  have ok: "name_ok (map as_bytes (labels_of nm))"
    using assms by (auto simp: wire_name_def name_ok_def label_ok_def list_all_iff Suc_le_eq as_bytes_def)
  have "map (label_text \<circ> as_bytes) (labels_of nm) = map to_ascii_lowercase (labels_of nm)"
    using assms by (auto simp: wire_name_def list_all_iff label_text_printable intro!: map_cong)
  moreover have "FLAG_RD AND FLAG_QR = 0" by (simp add: FLAG_RD_def FLAG_QR_def)
  ultimately show ?thesis
    using query_parse_complete [of "[0, 0, 0, 0, 0, 0]" "map as_bytes (labels_of nm)" FLAG_RD qid qtype CLASS_IN "[]"] ok
    by (simp add: build_query_message query_of_def del: map_eq_conv)
qed

lemma length_build_query: "wire_name nm \<Longrightarrow> length (build_query qid nm qtype) \<le> 272"
  by (simp add: build_query_message query_message_def wire_name_def)

lemma test_wire_names:
  "wire_name ''Blocked.Test''" "wire_name ''blocked.test''" "wire_name ''unlisted.test''" "wire_name ''mine.test''"
  "wire_name ''.''" "wire_name ''blocked.test.''" "wire_name ''example.local''"
  by code_simp+

lemma test_query_names:
  "query_hostname (query_of qid ''Blocked.Test'' t) = ''blocked.test''"
  "query_hostname (query_of qid ''blocked.test'' t) = ''blocked.test''"
  "query_hostname (query_of qid ''unlisted.test'' t) = ''unlisted.test''"
  "query_hostname (query_of qid ''mine.test'' t) = ''mine.test''"
  "query_hostname (query_of qid ''.'' t) = ''.''"
  "query_hostname (query_of qid ''blocked.test.'' t) = ''blocked.test''"
  "query_hostname (query_of qid ''example.local'' t) = ''example.local''"
  unfolding query_hostname_def query_of_def dns_query.select_convs question.select_convs
  by code_simp+

lemma canonical_test_names:
  "canonical_hostname ''blocked.test'' = ''blocked.test''" "canonical_hostname ''unlisted.test'' = ''unlisted.test''"
  "canonical_hostname ''mine.test'' = ''mine.test''" "canonical_hostname ''example.local'' = ''example.local''"
  by code_simp+

text \<open>What the client reads of a response to such a query.\<close>

lemma response_fields:
  assumes "qy_flags q = FLAG_RD" "r \<in> {0, 1, 2, 3}"
  shows "rcode (response q r a n) = Some r" "be16 (response q r a n) 0 = Some (qy_id q)"
    "ancount (response q r a n) = Some n"
proof -
  let ?fl = "FLAG_QR OR (qy_flags q AND FLAG_OPCODE) OR (qy_flags q AND FLAG_RD) OR FLAG_RA OR r"
  have resp: "response q r a n = to_be_bytes 2 (qy_id q) @ to_be_bytes 2 ?fl @ to_be_bytes 2 (1 :: u16) @
      to_be_bytes 2 n @ to_be_bytes 2 (0 :: u16) @ to_be_bytes 2 (0 :: u16) @ question_bytes q @ a"
    by (simp add: response_def Let_def)
  show "be16 (response q r a n) 0 = Some (qy_id q)"
    unfolding resp using be16_field [of "[]" 0 "qy_id q"] by simp
  show "ancount (response q r a n) = Some n"
    unfolding resp ancount_def
    using be16_field [of "to_be_bytes 2 (qy_id q) @ to_be_bytes 2 ?fl @ to_be_bytes 2 (1 :: u16)" 6 n] by simp
  have "be16 (response q r a n) 2 = Some ?fl"
    unfolding resp using be16_field [of "to_be_bytes 2 (qy_id q)" 2 ?fl] by simp
  moreover have "?fl AND 0x000F = r"
    using assms by (auto simp: FLAG_QR_def FLAG_OPCODE_def FLAG_RD_def FLAG_RA_def)
  ultimately show "rcode (response q r a n) = Some r" by (simp add: rcode_def)
qed

lemma query_of_sel [simp]:
  "qy_flags (query_of qid nm t) = FLAG_RD" "qy_id (query_of qid nm t) = qid"
  "qy_raw (query_of qid nm t) = build_query qid nm t" "qn_type (qy_question (query_of qid nm t)) = t"
  by (simp_all add: query_of_def)

lemma negative_fields:
  "rcode (nxdomain (query_of qid nm t)) = Some RCODE_NXDOMAIN" "be16 (nxdomain (query_of qid nm t)) 0 = Some qid"
  "rcode (servfail (query_of qid nm t)) = Some RCODE_SERVFAIL"
  using response_fields [of "query_of qid nm t"]
  by (simp_all add: nxdomain_def servfail_def RCODE_NXDOMAIN_def RCODE_SERVFAIL_def)

lemma own_answer_fields:
  "ancount (answer (query_of qid nm TYPE_A) [V4 a]) = Some 1"
  "ancount (answer (query_of qid nm TYPE_AAAA) [V4 a]) = Some 0"
  "rcode (answer (query_of qid nm TYPE_AAAA) [V4 a]) = Some RCODE_NOERROR"
  using response_fields [of "query_of qid nm TYPE_A"] response_fields [of "query_of qid nm TYPE_AAAA"]
  by (simp_all add: answer_def answer_rdata_def RCODE_NOERROR_def TYPE_A_def TYPE_AAAA_def)

section \<open>How the model answers the test client\<close>

text \<open>The canned reply is a message the front-end accepts as the answer to the query.\<close>

lemma canned_reply_query:
  assumes "wire_name nm"
  shows "canned_reply (build_query qid nm t) = Some (answer (query_of qid nm t) [CANNED_ADDRESS])"
  by (simp add: canned_reply_def parse_build_query [OF assms])

lemma canned_answer:
  assumes "wire_name nm"
  shows "length (answer (query_of qid nm t) [CANNED_ADDRESS]) \<le> 300"
    and "take 2 (answer (query_of qid nm t) [CANNED_ADDRESS]) = take 2 (build_query qid nm t)"
proof -
  let ?q = "query_of qid nm t"
  obtain a n where a: "answer ?q [CANNED_ADDRESS] = response ?q RCODE_NOERROR a n" and len: "length a \<le> 28"
    using length_answer_record [of ?q] length_filter_le [of _ "[CANNED_ADDRESS]"]
    by (cases "matching ?q [CANNED_ADDRESS]")
       (fastforce simp: answer_eq matching_def split: if_splits)+
  have p: "query_parse (build_query qid nm t) = Inr ?q" by (rule parse_build_query [OF assms])
  show "length (answer ?q [CANNED_ADDRESS]) \<le> 300"
    using length_response [OF p, of RCODE_NOERROR a n] len a by simp
  show "take 2 (answer ?q [CANNED_ADDRESS]) = take 2 (build_query qid nm t)"
    using response_is_response_to [OF p, of RCODE_NOERROR a n]
    by (simp add: a response_to_def RCODE_NOERROR_def)
qed

lemma framed_tcp: "length m \<le> 65535 \<Longrightarrow> framed (tcp_frame m) = Some m"
proof -
  assume "length m \<le> 65535"
  then have "read_tcp_message \<lparr>inbuf = tcp_frame m, at_end = Silent\<rparr> = (Ready (Some m), \<lparr>inbuf = [], at_end = Silent\<rparr>)"
    by (simp add: read_tcp_message_Some_iff MAX_MESSAGE_def)
  then show ?thesis by (simp add: framed_def)
qed

lemma read_framed:
  assumes "length m \<le> 65535"
  shows "fst (read_tcp_message \<lparr>inbuf = tcp_frame m, at_end = Closed\<rparr>) = Ready (Some m)"
proof -
  have "read_tcp_message \<lparr>inbuf = tcp_frame m, at_end = Closed\<rparr> = (Ready (Some m), \<lparr>inbuf = [], at_end = Closed\<rparr>)"
    using assms by (simp add: read_tcp_message_Some_iff MAX_MESSAGE_def)
  then show ?thesis by simp
qed

lemma framed_Nil: "framed [] = None"
  by (simp add: framed_def read_tcp_message_def read_exact_def end_await_def)

text \<open>Forwarding to the fake upstream, and to nobody.\<close>

lemma forward_to_fake:
  assumes "wire_name nm" "dn_upstream fe = up"
  shows "snd (dns_forward (dns_fake_upstream up) fe (query_of qid nm t) tr) =
           answer (query_of qid nm t) [CANNED_ADDRESS]"
    and "dns_seen (fst (dns_forward (dns_fake_upstream up) fe (query_of qid nm t) tr)) = [build_query qid nm t]"
proof -
  let ?raw = "build_query qid nm t" let ?r = "answer (query_of qid nm t) [CANNED_ADDRESS]"
  have len: "length ?raw \<le> 65535" "length ?r \<le> 65535" "2 \<le> length ?r"
    using length_build_query [OF assms(1), of qid t] canned_answer(1) [OF assms(1), of qid t]
    by (simp_all add: answer_eq response_def Let_def)
  have fr: "framed (to_be_bytes 2 (word_of_nat (length ?raw) :: u16) @ ?raw) = Some ?raw"
    using framed_tcp [OF len(1)] by (simp add: tcp_frame_def)
  have udp: "forward_udp (dns_fake_upstream up) fe ?raw = ([UdpSend up ?raw], Ready ?r)"
    using len canned_answer(2) [OF assms(1), of qid t]
    by (simp add: forward_udp_def dns_fake_upstream_def canned_reply_query [OF assms(1)] assms(2) await_bind_def
          MAX_MESSAGE_def Let_def)
  have tcp: "forward_tcp (dns_fake_upstream up) fe ?raw =
      ([TcpWrite up (to_be_bytes 2 (word_of_nat (length ?raw) :: u16)), TcpWrite up ?raw], Ready ?r)"
    using len
    by (simp add: forward_tcp_def dns_fake_upstream_def fr canned_reply_query [OF assms(1)] assms(2) await_bind_def
          read_framed Let_def)
  show "snd (dns_forward (dns_fake_upstream up) fe (query_of qid nm t) tr) = ?r"
    by (cases tr) (simp_all add: dns_forward_def udp tcp)
  show "dns_seen (fst (dns_forward (dns_fake_upstream up) fe (query_of qid nm t) tr)) = [?raw]"
    by (cases tr) (simp_all add: dns_forward_def udp tcp dns_seen_def List.map_filter_def framed_Nil fr)
qed

lemma forward_to_nobody: "snd (dns_forward dns_nowhere fe q tr) = servfail q"
  by (cases tr) (simp_all add: dns_forward_def forward_udp_def forward_tcp_def dns_nowhere_def await_bind_def Let_def)

text \<open>One question is one call of \<open>respond\<close>, over either transport.\<close>

lemma ask_udp_respond:
  assumes "dw_udp w n = (fs, once, peer)" "length query \<le> 65535"
  shows "ask_udp execute net w fe n query =
     (case fst (respond execute net (Some fs) once fe query peer Udp (dn_listen fe)) of
        (sent, reply) \<Rightarrow> (dns_seen sent, Some reply))"
  using assms by (simp add: ask_udp_def udp_task_reply_def received_def MAX_MESSAGE_def case_prod_beta)

lemma ask_tcp_respond:
  assumes "dw_tcp w n = (fs, once, peer)" "length query \<le> 65535"
  shows "ask_tcp execute net w fe n query =
     (case fst (respond execute net (Some fs) once fe query peer Tcp (dw_tcp_addr w)) of
        (sent, reply) \<Rightarrow> (dns_seen sent, Some reply))"
proof -
  obtain sent reply once' where
    r: "respond execute net (Some fs) once fe query peer Tcp (dw_tcp_addr w) = ((sent, reply), once')"
    by (metis surj_pair)
  have len: "length reply \<le> 65535"
    using respond_length [of execute net "Some fs" once fe query peer Tcp "dw_tcp_addr w"] r by (simp add: MAX_MESSAGE_def)
  have read: "read_tcp_message \<lparr>inbuf = tcp_frame query, at_end = Silent\<rparr> = (Ready (Some query), \<lparr>inbuf = [], at_end = Silent\<rparr>)"
    using assms(2) by (simp add: read_tcp_message_Some_iff MAX_MESSAGE_def)
  have stop: "connection_loop execute env fe wr peer server \<lparr>inbuf = [], at_end = Silent\<rparr> pr n = ([], Ready ())" for env wr server pr n
    by (subst connection_loop.simps) (simp add: read_tcp_message_def read_exact_def end_await_def)
  have "fst (serve_tcp_connection execute (\<lambda>_. (net, Some fs)) fe (tcp_test_client w (tcp_frame query)) peer once) =
      map ToUpstream sent @ [ToClient (to_be_bytes 2 (word_of_nat (length reply) :: u16)), ToClient reply]"
    using connection_loop_step [OF read, of execute "\<lambda>_. (net, Some fs)" 0 once fe peer "dw_tcp_addr w" sent reply once' "\<lambda>_. Ready ()"] r
    by (simp add: serve_tcp_connection_def tcp_test_client_def stop)
  then show ?thesis
    using assms(1) framed_tcp [OF len]
    by (simp add: ask_tcp_def r tcp_frame_def List.map_filter_def comp_def)
qed

text \<open>A front-end under test: it forwards to \<open>up\<close> and judges as the rules are meant.\<close>

definition dns_verdict :: "test_process \<Rightarrow> string \<Rightarrow> caller \<Rightarrow> policy_verdict" where
  "dns_verdict me h c = (if h = ''.'' then Denied ''matched rule: root'' else user_verdict me h c)"

definition dns_judges ::
  "('p, 'x, 'v) cel_execute \<Rightarrow> dns_world \<Rightarrow> test_process \<Rightarrow> socket_addr \<Rightarrow> relays \<Rightarrow> bool \<Rightarrow> 'p dns_frontend \<Rightarrow> bool"
where
  "dns_judges execute w me up relays processes fe \<longleftrightarrow>
     dn_upstream fe = up \<and> dn_relays fe = relays \<and> dn_identify_processes fe = processes \<and>
     dn_listen fe = dw_udp_addr w \<and> dn_tcp_slots fe = DNS_TEST_MAX_CONNECTIONS \<and>
     (\<forall>h c. evaluate_for execute (dn_engine fe) h c = dns_verdict me (canonical_hostname h) c)"

lemma dns_policy_verdict:
  assumes "real_process me"
  shows "meant_verdict DefaultPassthrough (dns_policy_for_this_user me) (no_lists_context h c) = dns_verdict me h c"
  using caller_values_mine [OF assms, of c]
  by (auto simp: meant_verdict_def dns_policy_for_this_user_def policy_for_this_user_def meant_def meant_outcome_def
        user_verdict_def dns_verdict_def default_outcome_def)

lemma with_dns_frontend_holds:
  assumes "cel_reads_rules compile execute (dns_policy_for_this_user me)" "real_process me"
    and "\<And>fe. dns_judges execute w me up relays processes fe \<Longrightarrow> test fe"
  shows "with_dns_frontend compile w me up relays processes test"
proof -
  obtain crs where c: "compile_rules compile 0 (map fst (dns_policy_for_this_user me)) = Inr crs"
    and ev: "\<And>h c. evaluate_for execute
        \<lparr>pe_rules = crs, pe_blocklists = Map.empty, pe_default_verdict = DefaultPassthrough\<rparr> h c =
        dns_verdict me (canonical_hostname h) c"
    using meant_engine [OF assms(1), of DefaultPassthrough] dns_policy_verdict [OF assms(2)] by auto
  show ?thesis
    unfolding with_dns_frontend_def start_frontend_with_def
    by (simp add: engine_from_config_def test_config_def empty_config_def c dns_with_limits_def with_relays_def)
       (rule assms(3), simp add: dns_judges_def ev)
qed

text \<open>The world shows the client's sockets, and nobody at the unknown peer's address.\<close>

definition shows_sockets :: "dns_world \<Rightarrow> test_process \<Rightarrow> bool" where
  "shows_sockets w me \<longleftrightarrow>
     (\<forall>n fs once peer. dw_udp w n = (fs, once, peer) \<longrightarrow>
        own_socket fs once Udp peer (dw_udp_addr w) me \<and> unlisted fs Udp unknown_peer) \<and>
     (\<forall>n fs once peer. dw_tcp w n = (fs, once, peer) \<longrightarrow> own_socket fs once Tcp peer (dw_tcp_addr w) me)"

definition seen_caller :: "test_process \<Rightarrow> bool \<Rightarrow> caller" where
  "seen_caller me processes =
     (if processes then this_caller me else \<lparr>uid = Some (tp_uid me), gid = None, pid = None\<rparr>)"

lemma identify_caller_own:
  assumes "own_socket fs once tr peer server me"
  shows "fst (identify_caller (Some fs) once fe peer tr server) = seen_caller me (dn_identify_processes fe)"
  using identify_own_socket [OF assms]
  by (cases "dn_identify_processes fe") (simp_all add: identify_caller_def seen_caller_def)

lemma respond_query:
  assumes "wire_name nm"
  shows "fst (respond execute net fs once fe (build_query qid nm t) peer tr server) =
     respond_as execute net fe tr (query_of qid nm t) (fst (identify_caller fs once fe peer tr server))"
  by (simp add: respond_def parse_build_query [OF assms] case_prod_beta Let_def)

lemma ask_udp_query:
  assumes "dns_judges execute w me up relays processes fe" "shows_sockets w me" "wire_name nm"
  shows "ask_udp execute net w fe n (build_query qid nm t) =
      (case respond_as execute net fe Udp (query_of qid nm t) (seen_caller me processes) of
         (sent, reply) \<Rightarrow> (dns_seen sent, Some reply))"
proof -
  have len: "length (build_query qid nm t) \<le> 65535"
    using length_build_query [OF assms(3), of qid t] by simp
  obtain fs once peer where u: "dw_udp w n = (fs, once, peer)" by (metis surj_pair)
  then have "own_socket fs once Udp peer (dw_udp_addr w) me" using assms(2) by (simp add: shows_sockets_def)
  then show ?thesis
    using assms(1)
    by (simp add: ask_udp_respond [OF u len] respond_query [OF assms(3)] identify_caller_own dns_judges_def)
qed

lemma ask_tcp_query:
  assumes "dns_judges execute w me up relays processes fe" "shows_sockets w me" "wire_name nm"
  shows "ask_tcp execute net w fe n (build_query qid nm t) =
      (case respond_as execute net fe Tcp (query_of qid nm t) (seen_caller me processes) of
         (sent, reply) \<Rightarrow> (dns_seen sent, Some reply))"
proof -
  have len: "length (build_query qid nm t) \<le> 65535"
    using length_build_query [OF assms(3), of qid t] by simp
  obtain fs once peer where u: "dw_tcp w n = (fs, once, peer)" by (metis surj_pair)
  then have "own_socket fs once Tcp peer (dw_tcp_addr w) me" using assms(2) by (simp add: shows_sockets_def)
  then show ?thesis
    using assms(1)
    by (simp add: ask_tcp_respond [OF u len] respond_query [OF assms(3)] identify_caller_own dns_judges_def)
qed

lemma respond_unknown:
  assumes "shows_sockets w me" "dw_udp w n = (fs, once, peer)" "wire_name nm"
  shows "fst (respond execute net (Some fs) once fe (build_query qid nm t) unknown_peer Udp server) =
     respond_as execute net fe Udp (query_of qid nm t) caller_unknown"
proof -
  have "unlisted fs Udp unknown_peer" using assms(1,2) by (simp add: shows_sockets_def)
  then show ?thesis
    by (simp add: respond_query [OF assms(3)] identify_caller_def identify_of_unlisted)
qed

text \<open>What becomes of a query, by its name.\<close>

lemma respond_as_verdict:
  assumes "dns_judges execute w me up relays processes fe"
  shows "respond_as execute net fe tr (query_of qid nm t) c =
     (if relays_contains relays c then dns_forward net fe (query_of qid nm t) tr
      else
        case dns_verdict me (canonical_hostname (query_hostname (query_of qid nm t))) c of
          Denied why \<Rightarrow> ([], nxdomain (query_of qid nm t))
        | PassThrough \<Rightarrow> dns_forward net fe (query_of qid nm t) tr
        | Allowed \<Rightarrow>
            if query_hostname (query_of qid nm t) = ''example.local''
            then ([], answer (query_of qid nm t) [V4 (ipv4_new 10 0 0 1)])
            else dns_forward net fe (query_of qid nm t) tr)"
  using assms by (simp add: respond_as_def dns_judges_def upstream_resolve_def split: policy_verdict.split)

lemma dns_seen_Nil: "dns_seen [] = []"
  by (simp add: dns_seen_def List.map_filter_def framed_Nil)

lemma judges_upstream: "dns_judges execute w me up relays processes fe \<Longrightarrow> dn_upstream fe = up"
  by (simp add: dns_judges_def)

lemmas dns_tests_simps = ask_udp_query ask_tcp_query respond_as_verdict judges_upstream test_query_names
  test_wire_names canonical_test_names dns_verdict_def user_verdict_def dns_seen_Nil negative_fields
  has_rcode_def canned_reply_query forward_to_fake forward_to_nobody seen_caller_def case_prod_beta

lemma denied_names_hold:
  assumes "cel_reads_rules compile execute (dns_policy_for_this_user me)" "real_process me" "shows_sockets w me"
  shows "denied_names_get_nxdomain_without_asking_upstream compile execute w me up"
  unfolding denied_names_get_nxdomain_without_asking_upstream_def
  by (rule with_dns_frontend_holds [OF assms(1,2)]) (simp add: dns_tests_simps assms(3))

lemma other_names_hold:
  assumes "cel_reads_rules compile execute (dns_policy_for_this_user me)" "real_process me" "shows_sockets w me"
  shows "other_names_are_forwarded_over_the_clients_transport compile execute w me up"
  unfolding other_names_are_forwarded_over_the_clients_transport_def
  by (rule with_dns_frontend_holds [OF assms(1,2)]) (simp add: dns_tests_simps assms(3))

lemma unknown_is_not_me: "caller_unknown \<noteq> this_caller me" "\<lparr>uid = Some u, gid = None, pid = None\<rparr> \<noteq> this_caller me"
  by (simp_all add: caller_unknown_def this_caller_def caller_new_def)

lemma respond_unknown_fst_snd:
  assumes "shows_sockets w me" "wire_name nm"
  shows "fst (respond execute net (Some (fst (dw_udp w n))) (fst (snd (dw_udp w n))) fe (build_query qid nm t)
      unknown_peer Udp server) = respond_as execute net fe Udp (query_of qid nm t) caller_unknown"
  using respond_unknown [OF assms(1) _ assms(2)] by (cases "dw_udp w n") simp

lemma caller_identified_holds:
  assumes "cel_reads_rules compile execute (dns_policy_for_this_user me)" "real_process me" "shows_sockets w me"
  shows "the_caller_is_identified_from_its_socket compile execute w me up"
  unfolding the_caller_is_identified_from_its_socket_def
  by (rule with_dns_frontend_holds [OF assms(1,2)]) (simp add: dns_tests_simps assms(3) Let_def respond_unknown_fst_snd [OF assms(3)] parse_build_query unknown_is_not_me)

lemma only_uid_holds:
  assumes "cel_reads_rules compile execute (dns_policy_for_this_user me)" "real_process me" "shows_sockets w me"
  shows "without_identify_processes_only_the_uid_is_known compile execute w me up"
  unfolding without_identify_processes_only_the_uid_is_known_def
  by (rule with_dns_frontend_holds [OF assms(1,2)]) (simp add: dns_tests_simps assms(3) unknown_is_not_me)

lemma relays_from_me: "relays_contains (relays_from_uids [tp_uid me]) (this_caller me)"
  by (simp add: relays_contains_def relays_from_uids_def this_caller_def caller_new_def)

lemma relays_forwarded_hold:
  assumes "cel_reads_rules compile execute (dns_policy_for_this_user me)" "real_process me" "shows_sockets w me"
  shows "queries_from_relays_are_forwarded_unjudged compile execute w me up"
  unfolding queries_from_relays_are_forwarded_unjudged_def
  by (rule with_dns_frontend_holds [OF assms(1,2)]) (simp add: dns_tests_simps assms(3) Let_def respond_unknown_fst_snd [OF assms(3)] relays_from_me)

lemma root_queries_hold:
  assumes "cel_reads_rules compile execute (dns_policy_for_this_user me)" "real_process me" "shows_sockets w me"
  shows "root_queries_are_judged_under_the_name_dot compile execute w me up"
  unfolding root_queries_are_judged_under_the_name_dot_def
  by (rule with_dns_frontend_holds [OF assms(1,2)]) (simp add: dns_tests_simps assms(3))

lemma dns_own_records_hold:
  assumes "cel_reads_rules compile execute (dns_policy_for_this_user me)" "real_process me" "shows_sockets w me"
  shows "dns_own_records_are_answered_directly compile execute w me up"
  unfolding dns_own_records_are_answered_directly_def
  by (rule with_dns_frontend_holds [OF assms(1,2)]) (simp add: dns_tests_simps assms(3) parse_build_query own_answer_fields)

lemma unreachable_servfail_holds:
  assumes "cel_reads_rules compile execute (dns_policy_for_this_user me)" "real_process me" "shows_sockets w me"
  shows "an_unreachable_upstream_yields_servfail compile execute w me"
  unfolding an_unreachable_upstream_yields_servfail_def
  by (rule with_dns_frontend_holds [OF assms(1,2)]) (simp add: dns_tests_simps assms(3))

lemma idle_tcp_handled: "serve_tcp_connection execute env fe (tcp_test_client w []) peer once = ([], Ready ())"
  by (simp add: serve_tcp_connection_def tcp_test_client_def, subst connection_loop.simps)
     (simp add: read_tcp_message_def read_exact_def end_await_def)

lemma idle_tcp_clients_hold:
  assumes "cel_reads_rules compile execute (dns_policy_for_this_user me)" "real_process me" "shows_sockets w me"
  shows "idle_tcp_clients_are_dropped_and_do_not_block_others compile execute w me up"
  unfolding idle_tcp_clients_are_dropped_and_do_not_block_others_def Let_def case_prod_beta
proof (rule with_dns_frontend_holds [OF assms(1,2)], intro conjI)
  fix fe assume f: "dns_judges execute w me up relays_default True fe"
  let ?idle = "(tcp_test_client w [], snd (snd (dw_tcp w 0)), \<lambda>_ :: nat. (dns_fake_upstream up, Some (fst (dw_tcp w 0))),
      fst (snd (dw_tcp w 0)))"
  show "(dns_serve_tcp execute fe)\<^sup>*\<^sup>* (serve_start (dn_tcp_slots fe))
      \<lparr>sv_phase = Acquiring, sv_free = 0, sv_tasks = replicate DNS_TEST_MAX_CONNECTIONS ?idle\<rparr>"
    using f by (simp add: dns_judges_def serve_steps serve_start_def accept_fills_empty)
  show "serve_tcp_connection execute (\<lambda>_. (dns_fake_upstream up, Some (fst (dw_tcp w 0)))) fe (tcp_test_client w [])
      (snd (snd (dw_tcp w 0))) (fst (snd (dw_tcp w 0))) = ([], Ready ())"
    by (rule idle_tcp_handled)
  show "(dns_serve_tcp execute fe)\<^sup>*\<^sup>*
      \<lparr>sv_phase = Acquiring, sv_free = 0, sv_tasks = replicate DNS_TEST_MAX_CONNECTIONS ?idle\<rparr>
      \<lparr>sv_phase = Acquiring, sv_free = DNS_TEST_MAX_CONNECTIONS, sv_tasks = []\<rparr>"
    unfolding serve_steps by (rule accept_frees_all) (simp add: tcp_work_def idle_tcp_handled)
  show "snd (ask_tcp execute (dns_fake_upstream up) w fe 1 (build_query 22 ''unlisted.test'' TYPE_A)) =
      canned_reply (build_query 22 ''unlisted.test'' TYPE_A)"
    using f by (simp add: dns_tests_simps assms(3))
qed

lemma malformed_parses:
  "query_parse [0x12, 0x34, 0, 0] = Inl Dns_Wire.TooShort"
  "query_parse ((build_query 13 ''blocked.test'' TYPE_A)[5 := 2]) = Inl (QuestionCount 2)"
  by code_simp+

lemma malformed_replies:
  "be16 (formerr [0x12, 0x34, 0, 0]) 0 = Some 0x1234" "rcode (formerr bs) = Some RCODE_FORMERR"
proof -
  show "be16 (formerr [0x12, 0x34, 0, 0]) 0 = Some 0x1234" by code_simp
  obtain a b where "formerr bs = [a, b] @ to_be_bytes 2 (FLAG_QR OR RCODE_FORMERR) @ replicate 8 0"
    by (cases bs rule: list.exhaust [case_names Nil Cons]; cases "tl bs") (auto simp: formerr_def)
  then show "rcode (formerr bs) = Some RCODE_FORMERR"
    using be16_field [of "[a, b]" 2 "FLAG_QR OR RCODE_FORMERR" "replicate 8 0"]
    by (simp add: rcode_def FLAG_QR_def RCODE_FORMERR_def)
qed

lemma ask_udp_malformed:
  assumes "query_parse msg = Inl e" "length msg \<le> 65535"
  shows "ask_udp execute net w fe n msg = ([], Some (formerr msg))"
proof -
  obtain fs once peer where "dw_udp w n = (fs, once, peer)" by (metis surj_pair)
  then show ?thesis using assms by (simp add: ask_udp_respond respond_def dns_seen_Nil)
qed

lemma malformed_messages_hold:
  assumes "cel_reads_rules compile execute (dns_policy_for_this_user me)" "real_process me"
  shows "malformed_messages_get_formerr compile execute w me up"
proof -
  have "length ((build_query 13 ''blocked.test'' TYPE_A)[5 := 2]) \<le> 65535"
    using length_build_query [of "''blocked.test''" 13 TYPE_A] test_wire_names(2) by simp
  note m = ask_udp_malformed [OF malformed_parses(2) this]
  show ?thesis
    unfolding malformed_messages_get_formerr_def
    by (rule with_dns_frontend_holds [OF assms])
       (simp add: m ask_udp_malformed [OF malformed_parses(1)] malformed_replies has_rcode_def)
qed

section \<open>Properties\<close>

text \<open>
  (C39) The crate's tests of the DNS front-end hold of the model, for every process that runs them, all
  addresses, every CEL interpreter that reads the expressions of the test configuration as they are
  meant, and every state of the socket tables that shows the test's own sockets and their holder:
  parsing and the layout of replies, and against a fake upstream server denials without a question
  upstream, forwarding over the client's transport, identification of the caller from its socket with
  and without its process, relays, root queries, own records, an unreachable upstream, malformed
  messages, and idle connections that fill every slot.
\<close>

theorem dns_tests_hold:
  assumes "cel_reads_rules compile execute (dns_policy_for_this_user me)" "real_process me" "shows_sockets w me"
  shows "queries_parse \<and> negative_replies_echo_the_question \<and> answers_carry_the_addresses_of_the_asked_type \<and>
    denied_names_get_nxdomain_without_asking_upstream compile execute w me up \<and>
    other_names_are_forwarded_over_the_clients_transport compile execute w me up \<and>
    the_caller_is_identified_from_its_socket compile execute w me up \<and>
    without_identify_processes_only_the_uid_is_known compile execute w me up \<and>
    queries_from_relays_are_forwarded_unjudged compile execute w me up \<and>
    root_queries_are_judged_under_the_name_dot compile execute w me up \<and>
    idle_tcp_clients_are_dropped_and_do_not_block_others compile execute w me up \<and>
    dns_own_records_are_answered_directly compile execute w me up \<and>
    an_unreachable_upstream_yields_servfail compile execute w me \<and>
    malformed_messages_get_formerr compile execute w me up"
  by (intro conjI queries_parse_holds negative_replies_hold answers_hold denied_names_hold other_names_hold
        caller_identified_holds only_uid_holds relays_forwarded_hold root_queries_hold idle_tcp_clients_hold
        dns_own_records_hold unreachable_servfail_holds malformed_messages_hold assms)

text \<open>A machine that shows one UDP and one TCP socket of the test process.\<close>

definition example_row :: "u16 \<Rightarrow> u64 \<Rightarrow> socket_entry" where
  "example_row port inode =
     \<lparr>se_local = v4_addr 127 0 0 1 40000, se_remote = v4_addr 127 0 0 1 port, se_uid = 1000, se_inode = inode\<rparr>"

definition example_process :: process where
  "example_process =
     \<lparr>pr_pid = 4242, pr_fd = Inr [Inr (FdSocket 7), Inr (FdSocket 8)], pr_status_egid = Inr 100\<rparr>"

definition example_procfs :: procfs where
  "example_procfs =
     \<lparr>net_udp = Inr [example_row 5300 7], net_udp6 = Inr [], net_tcp = Inr [example_row 5301 8], net_tcp6 = Inr [],
      proc_myself = Inr example_process, proc_new = (\<lambda>_. Inl ProcError), all_processes = Inl ProcError\<rparr>"

definition example_world :: dns_world where
  "example_world =
     \<lparr>dw_udp_addr = v4_addr 127 0 0 1 5300, dw_tcp_addr = v4_addr 127 0 0 1 5301,
      dw_udp = (\<lambda>_. (example_procfs, None, v4_addr 127 0 0 1 40000)),
      dw_tcp = (\<lambda>_. (example_procfs, None, v4_addr 127 0 0 1 40000))\<rparr>"

lemma example_world_shows: "shows_sockets example_world \<lparr>tp_uid = 1000, tp_gid = 100, tp_pid = 4242\<rparr>"
proof -
  have "filter (connected_row (v4_addr 127 0 0 1 40000) (v4_addr 127 0 0 1 5300)) (socket_tables example_procfs Udp) =
      [example_row 5300 7]"
    "filter (connected_row (v4_addr 127 0 0 1 40000) (v4_addr 127 0 0 1 5301)) (socket_tables example_procfs Tcp) =
      [example_row 5301 8]"
    "unlisted example_procfs Udp unknown_peer"
    by code_simp+
  moreover have "socket_holder example_procfs (fst (can_inspect_other_processes example_procfs None)) i example_process"
    if "i \<in> {7, 8}" for i
    using that by (auto simp: socket_holder_def can_inspect_other_processes_def example_procfs_def holds_socket_def
        example_process_def List.map_filter_def ok_def)
  ultimately show ?thesis
    by (auto simp: shows_sockets_def example_world_def own_socket_def intro!: exI [of _ example_process])
       (simp_all add: example_row_def example_process_def)
qed

theorem dns_tests_hold_witness:
  "\<exists>me. tp_pid me = 4242 \<and>
     (let compile = table_compile (dns_policy_for_this_user me) in
      the_caller_is_identified_from_its_socket compile table_execute example_world me (v4_addr 192 0 2 53 53) \<and>
      queries_from_relays_are_forwarded_unjudged compile table_execute example_world me (v4_addr 192 0 2 53 53))"
proof -
  let ?me = "\<lparr>tp_uid = 1000, tp_gid = 100, tp_pid = 4242\<rparr>"
  have "cel_reads_rules (table_compile (dns_policy_for_this_user ?me)) table_execute (dns_policy_for_this_user ?me)"
    by (rule table_reads) (simp_all add: dns_policy_for_this_user_def policy_for_this_user_def meant_def)
  moreover have "real_process ?me" by (simp add: real_process_def)
  ultimately show ?thesis
    using dns_tests_hold [of "table_compile (dns_policy_for_this_user ?me)" table_execute ?me example_world
        "v4_addr 192 0 2 53 53", OF _ _ example_world_shows]
    by (intro exI [of _ ?me]) (simp add: Let_def)
qed

end
