(* ===== verification/Spec2Isabelle.thy ===== *)
theory Spec2Isabelle
  imports Running Client_View Nss_Module Example_Policy Policy_Tests Nscd_Tests Dns_Tests
begin

text \<open>
  A verification development for deezns, a daemon that applies a per-user policy to host name
  lookups.

  \<^bold>\<open>The program.\<close> A policy engine judges a host name for a caller (user, group and process id, each
  possibly unknown) by an ordered list of CEL rules over blocklists; its verdict is to deny, to
  pass through, or to allow. Three front-ends ask it. The nscd front-end takes the place of nscd's
  socket: host requests are judged for the peer of the Unix connection, everything else is
  forwarded to the real nscd. The DNS front-end answers DNS on a loopback address: a query is
  judged for the owner of the socket it came out of and refused, answered, or forwarded to an
  upstream server. The policy socket answers JSON requests, one per line, of the NSS module that
  glibc loads into other processes. Because these can be stacked (the real nscd may itself ask the
  policy socket or the DNS front-end), users configured as relays are passed through unjudged
  there.

  \<^bold>\<open>Theories, sources and correspondence.\<close>
  \<^item> \<open>Prelude\<close>: machine words and bytes, Rust's checked indexing, integers as bytes with the
    interface \<open>fixed_codec\<close>, outcomes of input and output under a deadline, byte streams.
  \<^item> \<open>Rust_Str\<close>, \<open>Utf8\<close>, \<open>Net\<close>: what the sources use of \<open>std::str\<close>, of UTF-8 decoding and line
    reading, and of \<open>std::net\<close>. Strings are the lists of their UTF-8 bytes.
  \<^item> \<open>Blocklist\<close> (\<open>src/blocklist.rs\<close>): entries, line parser, the parsing loop over a reader (interface
    \<open>line_source\<close>), lookup by stripping labels.
  \<^item> \<open>Policy\<close> (\<open>src/policy.rs\<close>): configuration records, canonical names, callers, loading an engine
    and evaluating it; the interfaces \<open>policy_judge\<close> and, extending it, \<open>policy_frontend\<close>, the
    contract the three front-ends are shown to keep.
  \<^item> \<open>Addr_Text\<close>: the parser and the printer of \<open>std::net\<close> for addresses as text. \<open>Serde\<close>: what the
    derived readers of the sources have in common (required, defaulted and optional fields), with the
    interface \<open>reads_back\<close> of types that are read as they were written. Over them, \<open>Config_Format\<close>
    (the structures and enums of \<open>src/policy.rs\<close> with their attributes) reads a configuration from
    the values of a TOML document, and \<open>Message_Format\<close> (\<open>src/protocol.rs\<close>) the messages of the policy
    socket from JSON values and writes them; both interpret \<open>reads_back\<close> for every type.
  \<^item> \<open>Relay\<close> (\<open>src/relay.rs\<close>), \<open>Protocol\<close> (\<open>src/protocol.rs\<close>, \<open>build.rs\<close>, \<open>src/upstream.rs\<close>,
    \<open>src/peercred.rs\<close>), \<open>Identify\<close> (\<open>src/identify.rs\<close>). \<open>Protocol\<close> also states the abstract
    specification of a front-end: \<open>lookup_decision\<close> says what becomes of a lookup (refuse, forward,
    answer from own records), and the interface \<open>policy_resolver\<close>, from which \<open>policy_frontend\<close>
    follows, that a front-end carries it out; it is interpreted on all three.
  \<^item> \<open>Nscd_Wire\<close> and \<open>Nscd_Frontend\<close> (\<open>src/nscd.rs\<close>), \<open>Dns_Wire\<close> and \<open>Dns_Frontend\<close> (\<open>src/dns.rs\<close>): the
    wire formats, then the front-ends over them.
  \<^item> \<open>Policy_Socket\<close> and \<open>Daemon\<close> (\<open>src/daemon.rs\<close>): the connection handler; startup and its order.
  \<^item> \<open>Nss_Module\<close> (\<open>src/lib.rs\<close>): the module, and the module connected to the daemon's handler.
  \<^item> \<open>Listeners\<close>: the accept and receive loops as step relations, labelled with what accept or receive
    returned and which handler ended with which output (interface \<open>bounded_server\<close>).
  \<^item> \<open>Service\<close>: a loop in its environment, which has a result for each of its calls of accept or
    receive. The interface \<open>task_loop\<close> says what a loop owes it (a connection taken becomes a task, a task
    ends only when its handler has done all of its work), the interface \<open>fatal_loop\<close> how the loops of
    the policy socket and over UDP end.
  \<^item> \<open>Running\<close> (end of \<open>main\<close>): the listener tasks of a started daemon side by side, each step one
    step of one of them, until \<open>main\<close> sees one of them return and exits; \<open>runs_to\<close> is reachability.
  \<^item> \<open>Client_View\<close>: decoders for the replies of nscd and for DNS responses, written from the clients'
    side, as the specification of the encoders.
  \<^item> \<open>Example_Policy\<close> (\<open>config/policy.toml\<close>): the shipped configuration as a document, its rules with
    their meaning, and the verdict it gives for every caller and name.
  \<^item> \<open>Test_World\<close>, \<open>Blocklist_Tests\<close>, \<open>Policy_Tests\<close> (with the relays), \<open>Identify_Tests\<close> (with the peer
    credentials), \<open>Nscd_Tests\<close>, \<open>Dns_Tests\<close>: the crate's own tests, each a truth value over the model, and
    the proof that it holds. They tie the model to the behaviour the compiled program is tested for,
    and hold for all identities of the test process, all sockets and, where the program depends on
    it, both byte orders. \<open>Test_World\<close> states what they need of the world: that the CEL interpreter
    reads the expressions of the test rules as they are meant (\<open>cel_reads\<close>), and that the socket tables
    show the test's own sockets (\<open>own_socket\<close>).

  A struct is a record and an enum a datatype with the source's constructors; fields carry a short
  prefix where names would clash. An operation keeps the name of its function. Errors are values of
  a sum type, \<open>io::Error\<close> is \<open>io_error\<close>. An operation that talks to the outside returns what it wrote,
  in order, beside its result, and takes the outside as an argument: connections, sockets, files,
  the password database and \<open>/proc\<close> are records of the answers they give, for any deadline. So the
  theorems hold for every behaviour of peers, upstream servers and the kernel. The awaited
  operations of the sources are values of type \<open>await\<close>: finished, failed, or still pending when the
  deadline that guards them passes; where nothing guards them, pending means that the operation
  never returns. Not part of the repository, and therefore parameters, are the CEL interpreter
  (compiling and executing programs), the steps between text and TOML documents or JSON values, and
  procfs.

  \<^bold>\<open>What is shown.\<close> The engine is first-match over canonical names, whatever the spelling, and
  loading it terminates on files; blocklists contain exactly what their entries say. Each front-end
  refuses denied names and then sends nothing to its upstream; the denial is the same on all three
  for a daemon as it starts. What is forwarded is the client's bytes. The nscd front-end never
  answers a named host request by anything glibc would take for the absence of nscd. DNS replies
  carry the id and the question of their query, TCP framing is exact and one reply is sent per
  message. All three front-ends refine one decision of one engine, and the daemon's own addresses,
  decoded by the clients, are the same on all three protocols. For a whole running daemon, under any
  interleaving: nothing is sent to an upstream that is not a client's request the engine decided to
  forward for the caller identified as its sender, every connection and datagram that arrived is
  being handled or was handled once, by all that its handler does, and the daemon ends only with the
  error of a failed accept on the policy socket or of the UDP socket, and can end once there is one. A loaded engine is well formed and is the
  configured one. Parsers accept exactly the messages their formats describe. A list written out and
  loaded comes back, and so does a configuration, with its addresses, written as a document; a
  document that lacks a required field stops the daemon before it binds anything. The shipped
  configuration gives exactly the verdicts its comments promise. Identification names a user
  only if all best-fitting sockets agree, names a process exactly if one of those \<open>/proc\<close> shows holds
  the one best-fitting socket, and names user, process and group for a connected socket whose holder
  can be seen. Startup binds everything before it serves anything, and is one
  plan of system calls carried out up to the first that fails (\<open>startup_plan\<close>). The
  loops never run more handlers than they have permits, and get stuck only on clients that never
  take their replies. Some theorems state limits of the code:
  a list on a reader that keeps failing is never loaded, a listed name with a trailing dot blocks
  nothing (\<open>dotted_entry_blocks_nothing\<close>), clients that never read their replies can exhaust the permits of DNS over TCP, own records
  depend on the spelling of a name, and a host request without a usable name is closed unanswered.

  \<^bold>\<open>Termination and bounds.\<close> Loops over data are recursive functions with termination proofs. Two
  loops may run forever and are partial functions to \<open>option\<close>: reading a blocklist, which is shown
  to return on files and not to return on a reader that keeps failing, and looking a user up, which
  is shown to return once some buffer size suffices. No definition uses fuel. Integers keep their
  width where it matters: the 16-bit counts and lengths of DNS, the 32-bit fields of nscd, both of
  which are shown not to be exceeded by the replies built here, and the 64-bit sums in the check of
  nscd's replies, which are shown not to overflow (\<open>valid_host_reply_i64\<close>).

  \<^bold>\<open>Not modelled.\<close> Logging; the lengths of pauses and deadlines beyond whether they are met; the
  scheduler, except that steps of the listeners interleave freely (a handler's effects are recorded as
  a whole when it ends, and those of running handlers are what they do until then); panics, except in
  the identification of a caller; the C entry points generated for
  the NSS module; the text of error messages. Handlers that run at the same time share nothing but the
  permits and the remembered probe of \<open>/proc\<close>, so recording a handler's effects as a whole loses no
  behaviour; the probe is threaded through the messages of a TCP connection, and given to each
  connection and datagram with the rest of its environment. The answers of the file system at startup
  (the record \<open>system\<close>) do not depend on the operations before, which matters only if two of the
  daemon's sockets are configured with the same path. A last path component \<open>.\<close> is not normalised away by \<open>path_parent\<close>. The lexical
  part of TOML and JSON, and the shapes in which \<open>serde\<close> also takes a structure or a variant (as a
  list, as a table), on which the readings say nothing (\<open>OtherForm\<close>). The meaning of the CEL
  expressions of the shipped and of the test configurations is stated beside them, not derived from
  their text. The scope of an IPv6 address, which is read and then ignored. In the tests, the binding
  of the temporary sockets and the name of the user who runs them.
\<close>

section \<open>The front-ends of one daemon\<close>

text \<open>
  (C3) A denial is a denial on every way into the daemon: a name denied to a caller by the engine
  a daemon started with is refused, in any spelling, by its nscd front-end, its DNS front-end and
  its policy socket, and none of them sends anything anywhere for it; relays apart.
\<close>

theorem denied_on_every_front_end:
  assumes "main sys socket_path toml open_file rd compile = Some (evs, Inr d)"
    and "da_nscd d = Some nf" "da_dns d = Some df"
    and "evaluate_for execute (da_engine d) nm c = Denied why"
    and "\<not> relays_contains (dn_relays df) c" "\<not> relays_contains (da_policy_relays d) c"
    and "is_host_lookup (ty hreq)" "hostname hreq = Some hn" "canonical_hostname hn = canonical_hostname nm"
    and "canonical_hostname (query_hostname q) = canonical_hostname nm"
    and "canonical_hostname (rq_hostname preq) = canonical_hostname nm"
  shows "reply_for en execute unet nf hreq c = ([], Bytes (not_found en (ty hreq) HOST_NOT_FOUND)) \<and>
         respond_as execute net df tr q c = ([], nxdomain q) \<and>
         socket_response execute (da_engine d) (da_policy_relays d) preq c = RDenied why"
proof -
  have "fe_engine nf = da_engine d" "dn_engine df = da_engine d"
    using daemon_engines [OF assms(1)] assms(2,3) by simp_all
  then have "evaluate_for execute (fe_engine nf) nm c = Denied why"
    "evaluate_for execute (dn_engine df) nm c = Denied why" using assms(4) by simp_all
  moreover have "nscd_subject hreq = Some hn" using assms(7,8) by (simp add: nscd_subject_def)
  ultimately show ?thesis
    using nscd_front.refused [where execute = execute and fe = nf and c = c and h' = nm and en = en and net = unet] assms(9)
      dns_front.refused [OF refl assms(5,10), where execute = execute and tr = tr and net = net]
      policy_front.refused [OF refl assms(6,11,4)]
    by (simp add: nscd_realise_def dns_realise_def socket_realise_def)
qed

lemma nscd_subject_ai_request_a: "nscd_subject ai_request_a = Some ''a''"
  by (simp add: nscd_subject_def host_lookup_ai_request_a hostname_ai_request_a)

theorem denied_on_every_front_end_witness:
  "\<exists>evs. main fresh_system ''/run/deezns.sock'' (\<lambda>_. Inr two_front_config :: unit + policy_config)
       (\<lambda>_. Inl KNotFound) next_line (\<lambda>_. Inl () :: unit + unit) = Some (evs, Inr two_front_daemon) \<and>
     reply_for Little failing_execute (\<lambda>_ _. Stalled) two_front_nscd ai_request_a caller_unknown =
       ([], Bytes (not_found Little GetAi HOST_NOT_FOUND))"
proof -
  let ?q = "\<lparr>qy_id = 7, qy_flags = 0x100,
      qy_question = \<lparr>qn_name = ''a'', qn_type = TYPE_A, qn_class = CLASS_IN, qn_end = 19\<rparr>, qy_raw = query_a\<rparr>"
  obtain evs where run: "main fresh_system ''/run/deezns.sock''
      (\<lambda>_. Inr two_front_config :: unit + policy_config)
      (\<lambda>_. Inl KNotFound) next_line (\<lambda>_. Inl () :: unit + unit) = Some (evs, Inr two_front_daemon)"
    using two_front_daemon_starts by blast
  have d: "evaluate_for failing_execute (da_engine two_front_daemon) ''A.'' caller_unknown =
      Denied (canonical_hostname ''A.'' @ '' denied by default policy'')"
    by (simp add: deny_all_denies two_front_daemon_parts)
  have c: "canonical_hostname ''a'' = canonical_hostname ''A.''" by code_simp
  from denied_on_every_front_end [OF run two_front_daemon_parts(1,2) d _ _ host_lookup_ai_request_a
      hostname_ai_request_a c, of ?q "\<lparr>rq_hostname = ''a''\<rparr>" Little "\<lambda>_ _. Stalled" dead_net Udp] c
  have "reply_for Little failing_execute (\<lambda>_ _. Stalled) two_front_nscd ai_request_a caller_unknown =
       ([], Bytes (not_found Little GetAi HOST_NOT_FOUND))"
    by (simp add: query_hostname_def ai_request_a_def two_front_daemon_parts relays_default_def)
  with run show ?thesis by blast
qed

text \<open>
  (C2) One decision, three front-ends: once a daemon runs, what its nscd front-end, its DNS
  front-end and its policy socket do with a lookup is the same decision, taken by its one engine,
  carried out on three protocols. The three differ only in whom they pass unjudged: nobody on nscd,
  the relays of the listener on the other two. Whatever one of the two front-ends sends upstream, it
  sends to carry out the decision to forward.
\<close>

theorem one_decision_three_front_ends:
  assumes "main sys socket_path toml open_file rd compile = Some (evs, Inr d)"
    and "da_nscd d = Some nf" "da_dns d = Some df" "nscd_subject hreq = Some nm"
  shows "reply_for en execute unet nf hreq c =
           nscd_realise en unet nf hreq
             (lookup_decision (evaluate_for execute (da_engine d)) (\<lambda>_. False) nm c) \<and>
         respond_as execute net df tr q c =
           dns_realise net df tr q
             (lookup_decision (evaluate_for execute (da_engine d)) (relays_contains (dn_relays df)) (query_hostname q) c) \<and>
         ([], socket_response execute (da_engine d) (da_policy_relays d) preq c) =
           socket_realise preq
             (lookup_decision (evaluate_for execute (da_engine d)) (relays_contains (da_policy_relays d)) (rq_hostname preq) c) \<and>
         (fst (reply_for en execute unet nf hreq c) \<noteq> [] \<longrightarrow>
            lookup_decision (evaluate_for execute (da_engine d)) (\<lambda>_. False) nm c = Forward) \<and>
         (fst (respond_as execute net df tr q c) \<noteq> [] \<longrightarrow>
            lookup_decision (evaluate_for execute (da_engine d)) (relays_contains (dn_relays df)) (query_hostname q) c = Forward)"
proof -
  have "fe_engine nf = da_engine d" "dn_engine df = da_engine d"
    using daemon_engines [OF assms(1)] assms(2,3) by simp_all
  then show ?thesis
    using nscd_front.respond_realises [OF assms(4), where execute = execute and fe = nf and en = en and net = unet and c = c]
      nscd_front.contacted_forward [OF assms(4), where execute = execute and fe = nf and en = en and net = unet and c = c]
      dns_front.respond_realises [OF refl, where execute = execute and fe = df and r = q and net = net and c = c and tr = tr]
      dns_front.contacted_forward [OF refl, where execute = execute and fe = df and r = q and net = net and c = c and tr = tr]
      policy_front.respond_realises [OF refl, where execute = execute and eng = "da_engine d" and r = preq and c = c
        and rs = "da_policy_relays d"]
    by simp
qed

theorem one_decision_three_front_ends_witness:
  "\<exists>evs. main fresh_system ''/run/deezns.sock'' (\<lambda>_. Inr two_front_config :: unit + policy_config)
       (\<lambda>_. Inl KNotFound) next_line (\<lambda>_. Inl () :: unit + unit) = Some (evs, Inr two_front_daemon) \<and>
     reply_for Little failing_execute (\<lambda>_ _. Stalled) two_front_nscd ai_request_a caller_unknown =
       nscd_realise Little (\<lambda>_ _. Stalled) two_front_nscd ai_request_a
         (Refuse (canonical_hostname ''a'' @ '' denied by default policy''))"
proof -
  obtain evs where run: "main fresh_system ''/run/deezns.sock''
      (\<lambda>_. Inr two_front_config :: unit + policy_config)
      (\<lambda>_. Inl KNotFound) next_line (\<lambda>_. Inl () :: unit + unit) = Some (evs, Inr two_front_daemon)"
    using two_front_daemon_starts by blast
  with one_decision_three_front_ends [OF run two_front_daemon_parts(1,2) nscd_subject_ai_request_a,
      of Little failing_execute "\<lambda>_ _. Stalled" caller_unknown]
  show ?thesis by (auto simp: two_front_daemon_parts lookup_decision_def deny_all_denies)
qed

text \<open>
  (C8) A stacked lookup is judged once. With the nscd front-end enabled, what the real nscd asks on
  behalf of a client that was already judged passes the policy socket and the DNS front-end
  unjudged, because nscd's user relays there; every other caller, unidentified ones included, is
  judged on both.
\<close>

theorem stacked_lookup_judged_once:
  assumes "relays_for_config getpwnam_r cfg = Some (Inr lr)" "config_nscd cfg \<noteq> None"
    and "pc_nscd_user cfg = Some user" "uid_of getpwnam_r user = Some (Inr (Some u))"
    and "dn_relays df = lr_dns lr"
  shows "if uid c = Some u
         then socket_response execute eng (lr_policy_socket lr) req c = RPassThrough \<and>
              respond_as execute net df tr q c = dns_forward net df q tr
         else socket_response execute eng (lr_policy_socket lr) req c = verdict_response execute eng req c \<and>
              (evaluate_for execute (dn_engine df) (query_hostname q) c = Denied why \<longrightarrow>
               respond_as execute net df tr q c = ([], nxdomain q))"
  using relays_for_config_members [OF assms(1), of c] assms(2-5)
  by (auto simp: socket_response_def respond_as_def)

theorem stacked_lookup_judged_once_witness:
  "\<exists>lr. relays_for_config (\<lambda>nm len. PwFound 28)
       (empty_config\<lparr>pc_nscd_user := Some ''nscd'',
          pc_nscd_frontend := Some \<lparr>nf_enable = True, nf_listen = ''l'', nf_upstream = ''u''\<rparr>\<rparr>) = Some (Inr lr) \<and>
     socket_response failing_execute deny_all (lr_policy_socket lr) \<lparr>rq_hostname = ''a''\<rparr> (caller_new 28 28 1)
       = RPassThrough \<and>
     socket_response failing_execute deny_all (lr_policy_socket lr) \<lparr>rq_hostname = ''a''\<rparr> caller_unknown
       \<noteq> RPassThrough"
proof -
  let ?pw = "\<lambda>(nm :: string) (len :: usize). PwFound 28"
  let ?cfg = "empty_config\<lparr>pc_nscd_user := Some ''nscd'',
      pc_nscd_frontend := Some \<lparr>nf_enable = True, nf_listen = ''l'', nf_upstream = ''u''\<rparr>\<rparr>"
  have nul: "char_of (0 :: nat) \<notin> set ''nscd''" by code_simp
  have u: "uid_of ?pw ''nscd'' = Some (Inr (Some 28))"
    unfolding uid_of_def using nul by (subst uid_of_loop.simps) simp
  have n: "config_nscd ?cfg \<noteq> None" by (simp add: config_nscd_def filter_option_def empty_config_def)
  have lr: "relays_for_config ?pw ?cfg =
      Some (Inr \<lparr>lr_policy_socket = \<lparr>rl_uids = {28}\<rparr>, lr_dns = \<lparr>rl_uids = {28}\<rparr>\<rparr>)"
    using n u by (simp add: relays_for_config_def relaying_def relays_resolve_singleton)
  have d: "dn_relays dns_deny_all = lr_dns \<lparr>lr_policy_socket = \<lparr>rl_uids = {28}\<rparr>, lr_dns = \<lparr>rl_uids = {28}\<rparr>\<rparr>"
    by (simp add: dns_deny_all_def)
  note once = stacked_lookup_judged_once [OF lr n _ u d, where execute = failing_execute and eng = deny_all
      and req = "\<lparr>rq_hostname = ''a''\<rparr>"]
  show ?thesis
    using lr once [of "caller_new 28 28 1"] once [of caller_unknown]
    by (simp add: caller_new_def caller_unknown_def verdict_response_def deny_all_denies)
qed

end
